(* ===== verification/Prelude.thy ===== *)
theory Prelude
  imports Main "HOL-Library.Sublist"
begin

text \<open>
  Shared vocabulary of the development: time, Go's 64-bit integers, the SQL statements the store
  is written in (as functions on lists of rows), and the contract every \<open>UPDATE\<close> shares.

  Time is an integer number of nanoseconds since the epoch, as \<open>time.Time.UnixNano\<close> gives it;
  a \<open>time.Duration\<close> is a number of nanoseconds too.
\<close>

named_theorems sql_simps \<open>rewriting of the SQL statement functions\<close>
named_theorems store_simps \<open>definitions of the store's methods\<close>

type_synonym time = int
type_synonym duration = int

abbreviation second :: duration where "second \<equiv> 1000000000"

abbreviation minute :: duration where "minute \<equiv> 60 * second"

abbreviation hour :: duration where "hour \<equiv> 60 * minute"

subsection \<open>Go's \<open>int\<close> and \<open>int64\<close>\<close>

text \<open>
  Both are 64 bits wide on the platforms the program is released for. Where an operation can
  leave the range, the model applies \<open>wrap64\<close>, two's complement wrap-around.
\<close>

definition wrap64 :: "int \<Rightarrow> int" where
  "wrap64 n = (n + 2 ^ 63) mod 2 ^ 64 - 2 ^ 63"

abbreviation int64_max :: int where "int64_max \<equiv> 9223372036854775807"

abbreviation int64_min :: int where "int64_min \<equiv> - 9223372036854775808"

definition in_int64 :: "int \<Rightarrow> bool" where
  "in_int64 n \<longleftrightarrow> int64_min \<le> n \<and> n \<le> int64_max"

lemma wrap64_id [simp]: "in_int64 n \<Longrightarrow> wrap64 n = n"
  by (simp add: wrap64_def in_int64_def)

lemma wrap64_range: "in_int64 (wrap64 n)"
proof -
  have "0 \<le> (n + 2 ^ 63) mod 2 ^ 64" and "(n + 2 ^ 63) mod 2 ^ 64 < 2 ^ 64"
    by simp_all
  then show ?thesis
    by (simp add: wrap64_def in_int64_def)
qed

text \<open>Go's division of integers truncates towards zero.\<close>

definition tdiv :: "int \<Rightarrow> int \<Rightarrow> int" where
  "tdiv a b = sgn a * sgn b * (\<bar>a\<bar> div \<bar>b\<bar>)"

lemma tdiv_nonneg: "0 \<le> a \<Longrightarrow> 0 < b \<Longrightarrow> tdiv a b = a div b"
  by (cases "a = 0") (simp_all add: tdiv_def)

subsection \<open>SQL statements on lists of rows\<close>

text \<open>
  A table is the list of its rows in the order of their row ids. \<open>ORDER BY\<close> is a stable sort:
  rows with equal keys keep the row id order, which is one of the orders SQL allows.
\<close>

definition update_where :: "('r \<Rightarrow> bool) \<Rightarrow> ('r \<Rightarrow> 'r) \<Rightarrow> 'r list \<Rightarrow> 'r list" where
  "update_where P f rs = map (\<lambda>r. if P r then f r else r) rs"

definition delete_where :: "('r \<Rightarrow> bool) \<Rightarrow> 'r list \<Rightarrow> 'r list" where
  "delete_where P rs = filter (\<lambda>r. \<not> P r) rs"

definition count_where :: "('r \<Rightarrow> bool) \<Rightarrow> 'r list \<Rightarrow> int" where
  "count_where P rs = int (length (filter P rs))"

definition order_asc :: "('r \<Rightarrow> int) \<Rightarrow> 'r list \<Rightarrow> 'r list" where
  "order_asc k rs = sort_key k rs"

definition order_desc :: "('r \<Rightarrow> int) \<Rightarrow> 'r list \<Rightarrow> 'r list" where
  "order_desc k rs = sort_key (\<lambda>r. - k r) rs"

definition lookup_by :: "('r \<Rightarrow> 'k) \<Rightarrow> 'k \<Rightarrow> 'r list \<Rightarrow> 'r option" where
  "lookup_by key k rs = find (\<lambda>r. key r = k) rs"

lemma update_where_Nil [sql_simps, simp]: "update_where P f [] = []"
  by (simp add: update_where_def)

lemma update_where_Cons [sql_simps, simp]:
  "update_where P f (r # rs) = (if P r then f r else r) # update_where P f rs"
  by (simp add: update_where_def)

lemma length_update_where [simp]: "length (update_where P f rs) = length rs"
  by (simp add: update_where_def)

lemma update_where_none: "\<forall>r \<in> set rs. \<not> P r \<Longrightarrow> update_where P f rs = rs"
  by (induction rs) auto

lemma set_update_where:
  "set (update_where P f rs) = {r \<in> set rs. \<not> P r} \<union> f ` {r \<in> set rs. P r}"
  by (auto simp: update_where_def)

lemma count_where_pos: "0 < count_where P rs \<longleftrightarrow> (\<exists>r \<in> set rs. P r)"
  by (induction rs) (auto simp: count_where_def)

lemma count_where_nonneg [simp]: "0 \<le> count_where P rs"
  by (simp add: count_where_def)

lemma count_where_0: "count_where P rs = 0 \<longleftrightarrow> (\<forall>r \<in> set rs. \<not> P r)"
  by (induction rs) (auto simp: count_where_def)

lemma set_delete_where [simp]: "set (delete_where P rs) = {r \<in> set rs. \<not> P r}"
  by (auto simp: delete_where_def)

lemma set_order_asc [simp]: "set (order_asc k rs) = set rs"
  by (simp add: order_asc_def)

lemma set_order_desc [simp]: "set (order_desc k rs) = set rs"
  by (simp add: order_desc_def)

lemma order_asc_Nil_iff [simp]: "order_asc k rs = [] \<longleftrightarrow> rs = []"
  by (metis set_empty set_order_asc)

lemma hd_order_asc_min:
  assumes "r \<in> set rs"
  shows "k (hd (order_asc k rs)) \<le> k r"
proof -
  have ne: "order_asc k rs \<noteq> []" using assms by auto
  have srt: "sorted (map k (order_asc k rs))" by (simp add: order_asc_def)
  from assms have "r \<in> set (order_asc k rs)" by simp
  then show ?thesis
    using ne srt by (cases "order_asc k rs") auto
qed

lemma lookup_by_Nil [simp]: "lookup_by key k [] = None"
  by (simp add: lookup_by_def)

lemma lookup_by_Cons [simp]:
  "lookup_by key k (r # rs) = (if key r = k then Some r else lookup_by key k rs)"
  by (simp add: lookup_by_def)

lemma lookup_by_Some: "lookup_by key k rs = Some r \<Longrightarrow> r \<in> set rs \<and> key r = k"
  by (induction rs) (auto split: if_splits)

lemma lookup_by_None: "lookup_by key k rs = None \<longleftrightarrow> k \<notin> key ` set rs"
  by (induction rs) auto

lemma lookup_by_append:
  "lookup_by key k (rs @ ss) =
     (case lookup_by key k rs of None \<Rightarrow> lookup_by key k ss | Some r \<Rightarrow> Some r)"
  by (induction rs) auto

lemma lookup_by_unique:
  "distinct (map key rs) \<Longrightarrow> r \<in> set rs \<Longrightarrow> lookup_by key (key r) rs = Some r"
  by (induction rs) (auto simp: rev_image_eqI)

lemma lookup_by_delete_where:
  "distinct (map key rs) \<Longrightarrow>
   lookup_by key k (delete_where P rs) =
     (case lookup_by key k rs of None \<Rightarrow> None | Some r \<Rightarrow> if P r then None else Some r)"
proof (induction rs)
  case Nil
  then show ?case by (simp add: delete_where_def)
next
  case (Cons r rs)
  have "key r \<notin> key ` set rs" using Cons.prems by simp
  then have "lookup_by key (key r) (delete_where P rs) = None"
    by (auto simp: lookup_by_None)
  with Cons show ?case
    by (auto simp: delete_where_def)
qed

lemma distinct_delete_where:
  "distinct (map key rs) \<Longrightarrow> distinct (map key (delete_where P rs))"
  by (simp add: delete_where_def distinct_map_filter)

subsection \<open>The contract of an \<open>UPDATE\<close>\<close>

text \<open>
  Every \<open>UPDATE\<close> of the store keeps the primary key of the rows it writes. From that alone:
  the keys of the table, their distinctness and lookups by key are determined.
\<close>

locale row_update =
  fixes key :: "'r \<Rightarrow> 'k"
    and upd :: "'r \<Rightarrow> 'r"
  assumes key_upd: "key (upd r) = key r"
begin

lemma keys_update: "map key (update_where P upd rs) = map key rs"
  by (induction rs) (auto simp: key_upd)

lemma distinct_update: "distinct (map key (update_where P upd rs)) = distinct (map key rs)"
  by (simp add: keys_update)

lemma lookup_update:
  "lookup_by key k (update_where P upd rs) =
     map_option (\<lambda>r. if P r then upd r else r) (lookup_by key k rs)"
  by (induction rs) (auto simp: key_upd)

lemma lookup_update_other:
  assumes "\<And>r. P r \<Longrightarrow> key r \<noteq> k"
  shows "lookup_by key k (update_where P upd rs) = lookup_by key k rs"
  using assms by (induction rs) (auto simp: key_upd)

end

text \<open>
  An \<open>UPDATE\<close> that also moves a status field moves it along the edges \<open>trans\<close> of a state
  machine, for the rows its \<open>WHERE\<close> clause selects.
\<close>

locale status_update = row_update key upd
  for key :: "'r \<Rightarrow> 'k" and upd :: "'r \<Rightarrow> 'r" +
  fixes guard :: "'r \<Rightarrow> bool"
    and stat :: "'r \<Rightarrow> 's"
    and trans :: "'s \<Rightarrow> 's \<Rightarrow> bool"
  assumes trans_upd: "guard r \<Longrightarrow> trans (stat r) (stat (upd r))"
begin

lemma rows_step:
  "list_all2 (\<lambda>r r'. key r' = key r \<and> (r' = r \<or> trans (stat r) (stat r')))
     rs (update_where guard upd rs)"
  by (induction rs) (auto simp: key_upd trans_upd)

lemma status_step:
  assumes "lookup_by key k rs = Some r" and "lookup_by key k (update_where guard upd rs) = Some r'"
  shows "stat r' = stat r \<or> trans (stat r) (stat r')"
  using assms by (auto simp: lookup_update trans_upd)

end

end
