(* ===== verification/Tables.thy ===== *)
theory Tables
  imports Prelude
begin

text \<open>
  The data model: the Go structs of \<open>internal/store\<close> as records, the task status constants as a
  datatype, and the whole database as one record with one list of rows per table.

  Besides the tables, the database record has the clock that \<open>CURRENT_TIMESTAMP\<close> reads, the
  dialect in use, and a schedule of faults. The database engine is not part of the program: any
  statement may fail (lost connection, canceled context, full disk). The head of
  \<open>db_faults\<close> says whether the next statement fails; past the end of the schedule every
  statement succeeds.
\<close>

subsection \<open>Rows\<close>

datatype task_status =
    TaskQueued
  | TaskRunning
  | TaskSucceeded
  | TaskFailed
  | TaskCanceled
  | TaskPending
  | TaskBlocked
  | TaskScheduled

fun status_str :: "task_status \<Rightarrow> string" where
  "status_str TaskQueued = ''queued''"
| "status_str TaskRunning = ''running''"
| "status_str TaskSucceeded = ''succeeded''"
| "status_str TaskFailed = ''failed''"
| "status_str TaskCanceled = ''canceled''"
| "status_str TaskPending = ''pending''"
| "status_str TaskBlocked = ''blocked''"
| "status_str TaskScheduled = ''scheduled''"

record task =
  t_id :: string
  t_session :: string
  t_dir :: string
  t_name :: string
  t_prompt :: string
  t_depends :: string
  t_status :: task_status
  t_error :: string
  t_result :: string
  t_progress :: string
  t_summary :: string
  t_attempts :: int
  t_created :: time
  t_updated :: time
  t_started :: "time option"
  t_finished :: "time option"
  t_available :: time
  t_scheduled :: "time option"
  t_cron :: string
  t_last_fired :: "time option"

record token =
  tok_id :: string
  tok_name :: string
  tok_hash :: string
  tok_created :: time
  tok_revoked :: "time option"
  tok_used :: "time option"

record setting =
  set_key :: string
  set_value :: string
  set_updated :: time

record rule =
  r_id :: string
  r_name :: string
  r_kind :: string
  r_schedule :: string
  r_dir :: string
  r_prompt :: string
  r_enabled :: bool
  r_last_fired :: "time option"
  r_created :: time

record rule_execution =
  x_id :: int
  x_rule :: string
  x_task :: string
  x_at :: time

record audit_entry =
  a_id :: int
  a_token :: string
  a_token_name :: string
  a_method :: string
  a_path :: string
  a_status :: int
  a_created :: time

record archive =
  ar_id :: string
  ar_session :: string
  ar_title :: string
  ar_format :: string
  ar_content :: string
  ar_raw :: string
  ar_size :: int
  ar_created :: time

record web_session =
  ws_id :: string
  ws_expires :: time

record session_event =
  e_id :: int
  e_session :: string
  e_type :: string
  e_payload :: string
  e_created :: time

subsection \<open>The database\<close>

record db =
  db_tasks :: "task list"
  db_settings :: "setting list"
  db_tokens :: "token list"
  db_rules :: "rule list"
  db_execs :: "rule_execution list"
  db_audit :: "audit_entry list"
  db_archives :: "archive list"
  db_sessions :: "web_session list"
  db_events :: "session_event list"
  db_unread :: "string list"
  db_clock :: time
  db_pg :: bool
  db_faults :: "bool list"

definition empty_db :: "time \<Rightarrow> db" where
  "empty_db now = \<lparr>db_tasks = [], db_settings = [], db_tokens = [], db_rules = [], db_execs = [],
     db_audit = [], db_archives = [], db_sessions = [], db_events = [], db_unread = [],
     db_clock = now, db_pg = False, db_faults = []\<rparr>"

datatype store_error = ErrNotFound | ErrConflict | ErrDriver

type_synonym 'a result = "store_error + 'a"

text \<open>One statement sent to the database: it fails when the schedule says so, and otherwise runs.\<close>

definition db_call :: "(db \<Rightarrow> 'a result \<times> db) \<Rightarrow> db \<Rightarrow> 'a result \<times> db" where
  "db_call f s =
     (case db_faults s of
        [] \<Rightarrow> f s
      | fault # fs \<Rightarrow>
          if fault then (Inl ErrDriver, s\<lparr>db_faults := fs\<rparr>) else f (s\<lparr>db_faults := fs\<rparr>))"

lemma db_call_ok [simp]: "db_faults s = [] \<Longrightarrow> db_call f s = f s"
  by (simp add: db_call_def)

lemma db_call_fault: "db_faults s = True # fs \<Longrightarrow> db_call f s = (Inl ErrDriver, s\<lparr>db_faults := fs\<rparr>)"
  by (simp add: db_call_def)

text \<open>The two outcomes of a statement, as an elimination rule.\<close>

lemma db_call_cases:
  assumes "db_call f s = (r, s')"
  obtains (fault) fs where "r = Inl ErrDriver" and "s' = s\<lparr>db_faults := fs\<rparr>"
    | (run) fs where "f (s\<lparr>db_faults := fs\<rparr>) = (r, s')"
  using assms
proof (cases "db_faults s")
  case Nil
  then have "s\<lparr>db_faults := []\<rparr> = s" by simp
  with Nil assms have "f (s\<lparr>db_faults := []\<rparr>) = (r, s')" by (metis db_call_ok)
  then show ?thesis by (rule run)
next
  case (Cons b fs)
  with assms show ?thesis
    by (cases b) (auto simp: db_call_def intro: fault run)
qed

text \<open>
  What holds of the state after a statement: whatever does not read the schedule of faults and
  holds both of the old state and of the state the statement makes of it.
\<close>

lemma db_call_preserves:
  assumes "\<And>fs. Q (s\<lparr>db_faults := fs\<rparr>)" and "\<And>fs. Q (snd (f (s\<lparr>db_faults := fs\<rparr>)))"
  shows "Q (snd (db_call f s))"
proof (cases "db_faults s")
  case Nil
  then have "s\<lparr>db_faults := []\<rparr> = s" by simp
  with Nil assms(2)[of "[]"] show ?thesis by (metis db_call_ok)
next
  case (Cons b fs)
  with assms(1)[of fs] assms(2)[of fs] show ?thesis by (simp add: db_call_def)
qed

end
