(* ===== verification/TaskStore.thy ===== *)
theory TaskStore
  imports Tables
begin

text \<open>
  The task queue of \<open>internal/store/task.go\<close>: one definition per method of \<open>sqlStore\<close>, each a
  function from the database to a result and the new database. The \<open>SET\<close> clause of each
  \<open>UPDATE\<close> is a function on rows of its own (\<open>set_\<dots>\<close>), so that the contract of an update
  (\<open>row_update\<close>, \<open>status_update\<close>) is interpreted on it; the method selects the rows.

  Lemmas: the rows a method changes, the edges of the status machine it moves them along, and
  that every method keeps the ids of the table distinct and every waiting task's upstream present.
\<close>

subsection \<open>The SET clauses\<close>

definition new_task_row :: "time \<Rightarrow> task \<Rightarrow> task_status \<Rightarrow> task" where
  "new_task_row now t st = \<lparr>t_id = t_id t, t_session = t_session t, t_dir = t_dir t,
     t_name = t_name t, t_prompt = t_prompt t, t_depends = t_depends t, t_status = st,
     t_error = '''', t_result = '''', t_progress = '''', t_summary = '''', t_attempts = 0,
     t_created = now, t_updated = now, t_started = None, t_finished = None, t_available = now,
     t_scheduled = t_scheduled t, t_cron = t_cron t, t_last_fired = None\<rparr>"

definition set_claim :: "time \<Rightarrow> task \<Rightarrow> task" where
  "set_claim now t = t\<lparr>t_status := TaskRunning, t_attempts := t_attempts t + 1,
     t_started := Some now, t_updated := now\<rparr>"

definition set_progress :: "time \<Rightarrow> string \<Rightarrow> task \<Rightarrow> task" where
  "set_progress now p t = t\<lparr>t_progress := p, t_updated := now\<rparr>"

definition set_session :: "time \<Rightarrow> string \<Rightarrow> task \<Rightarrow> task" where
  "set_session now sid t = t\<lparr>t_session := sid, t_updated := now\<rparr>"

definition set_complete :: "time \<Rightarrow> string \<Rightarrow> task \<Rightarrow> task" where
  "set_complete now res t = t\<lparr>t_status := TaskSucceeded, t_result := res,
     t_finished := Some now, t_updated := now\<rparr>"

definition set_summary :: "time \<Rightarrow> string \<Rightarrow> task \<Rightarrow> task" where
  "set_summary now s t = t\<lparr>t_summary := s, t_updated := now\<rparr>"

definition set_failed :: "time \<Rightarrow> string \<Rightarrow> task \<Rightarrow> task" where
  "set_failed now e t = t\<lparr>t_status := TaskFailed, t_error := e,
     t_finished := Some now, t_updated := now\<rparr>"

definition set_retry :: "time \<Rightarrow> int \<Rightarrow> task \<Rightarrow> task" where
  "set_retry now backoff t = t\<lparr>t_status := TaskQueued, t_error := '''', t_finished := None,
     t_available := now + backoff * second, t_updated := now\<rparr>"

definition set_canceled :: "time \<Rightarrow> task \<Rightarrow> task" where
  "set_canceled now t = t\<lparr>t_status := TaskCanceled, t_finished := Some now, t_updated := now\<rparr>"

definition set_promoted :: "time \<Rightarrow> task \<Rightarrow> task" where
  "set_promoted now t = t\<lparr>t_status := TaskQueued, t_error := '''', t_available := now,
     t_updated := now\<rparr>"

definition set_blocked :: "time \<Rightarrow> string \<Rightarrow> task \<Rightarrow> task" where
  "set_blocked now reason t = t\<lparr>t_status := TaskBlocked, t_error := reason,
     t_finished := Some now, t_updated := now\<rparr>"

definition set_unblocked :: "time \<Rightarrow> task \<Rightarrow> task" where
  "set_unblocked now t = t\<lparr>t_status := TaskQueued, t_error := '''', t_finished := None,
     t_available := now, t_updated := now\<rparr>"

definition set_recovered :: "time \<Rightarrow> task \<Rightarrow> task" where
  "set_recovered now t = t\<lparr>t_status := TaskQueued, t_started := None, t_updated := now\<rparr>"

definition set_due :: "time \<Rightarrow> task \<Rightarrow> task" where
  "set_due now t = t\<lparr>t_status := TaskQueued, t_available := now, t_updated := now\<rparr>"

definition set_last_fired :: "time \<Rightarrow> time option \<Rightarrow> task \<Rightarrow> task" where
  "set_last_fired now at t = t\<lparr>t_last_fired := at, t_updated := now\<rparr>"

lemmas set_clauses = set_claim_def set_progress_def set_session_def set_complete_def
  set_summary_def set_failed_def set_retry_def set_canceled_def set_promoted_def set_blocked_def
  set_unblocked_def set_recovered_def set_due_def set_last_fired_def

subsection \<open>The statements\<close>

text \<open>\<open>UPDATE tasks SET f WHERE P\<close>, with the number of rows affected.\<close>

definition exec_tasks :: "(task \<Rightarrow> bool) \<Rightarrow> (task \<Rightarrow> task) \<Rightarrow> db \<Rightarrow> int \<times> db" where
  "exec_tasks P f s =
     (count_where P (db_tasks s), s\<lparr>db_tasks := update_where P f (db_tasks s)\<rparr>)"

text \<open>Methods whose result is only whether the statement failed.\<close>

definition exec_ok :: "(task \<Rightarrow> bool) \<Rightarrow> (time \<Rightarrow> task \<Rightarrow> task) \<Rightarrow> db \<Rightarrow> unit result \<times> db" where
  "exec_ok P f = db_call (\<lambda>s. (Inr (), snd (exec_tasks P (f (db_clock s)) s)))"

text \<open>Methods that report whether a row was affected.\<close>

definition exec_changed :: "(task \<Rightarrow> bool) \<Rightarrow> (time \<Rightarrow> task \<Rightarrow> task) \<Rightarrow> db \<Rightarrow> bool result \<times> db" where
  "exec_changed P f = db_call (\<lambda>s. case exec_tasks P (f (db_clock s)) s of
     (n, s') \<Rightarrow> (Inr (0 < n), s'))"

subsection \<open>The methods\<close>

definition create_task_with_status :: "task \<Rightarrow> task_status \<Rightarrow> db \<Rightarrow> unit result \<times> db" where
  "create_task_with_status t st = db_call (\<lambda>s.
     if t_id t \<in> t_id ` set (db_tasks s) then (Inl ErrDriver, s)
     else (Inr (), s\<lparr>db_tasks := db_tasks s @ [new_task_row (db_clock s) t st]\<rparr>))"

definition create_task :: "task \<Rightarrow> db \<Rightarrow> unit result \<times> db" where
  "create_task t = create_task_with_status t TaskQueued"

definition list_tasks :: "string \<Rightarrow> int \<Rightarrow> int \<Rightarrow> db \<Rightarrow> task list result \<times> db" where
  "list_tasks status limit offset = db_call (\<lambda>s.
     let rows = order_desc t_created
           (filter (\<lambda>t. status = '''' \<or> status_str (t_status t) = status) (db_tasks s));
         skipped = (if 0 < offset then drop (nat offset) rows else rows)
     in if 0 < offset \<and> limit \<le> 0 \<and> \<not> db_pg s then (Inl ErrDriver, s)
        else (Inr (if 0 < limit then take (nat limit) skipped else skipped), s))"

definition count_tasks :: "string \<Rightarrow> db \<Rightarrow> int result \<times> db" where
  "count_tasks status = db_call (\<lambda>s.
     (Inr (count_where (\<lambda>t. status = '''' \<or> status_str (t_status t) = status) (db_tasks s)), s))"

definition get_task :: "string \<Rightarrow> db \<Rightarrow> task result \<times> db" where
  "get_task tid = db_call (\<lambda>s.
     (case lookup_by t_id tid (db_tasks s) of None \<Rightarrow> Inl ErrNotFound | Some t \<Rightarrow> Inr t, s))"

definition claimable :: "time \<Rightarrow> task \<Rightarrow> bool" where
  "claimable now t \<longleftrightarrow> t_status t = TaskQueued \<and> t_available t \<le> now"

text \<open>\<open>SELECT id FROM tasks WHERE status = 'queued' AND available_at <= now ORDER BY created_at ASC\<close>\<close>

definition claim_candidates :: "time \<Rightarrow> task list \<Rightarrow> task list" where
  "claim_candidates now ts = order_asc t_created (filter (claimable now) ts)"

definition claim_next_task :: "db \<Rightarrow> task result \<times> db" where
  "claim_next_task = db_call (\<lambda>s.
     case claim_candidates (db_clock s) (db_tasks s) of
       [] \<Rightarrow> (Inl ErrNotFound, s)
     | t # _ \<Rightarrow>
         (let s' = snd (exec_tasks (\<lambda>r. t_id r = t_id t) (set_claim (db_clock s)) s)
          in (case lookup_by t_id (t_id t) (db_tasks s') of
                None \<Rightarrow> Inl ErrNotFound | Some r \<Rightarrow> Inr r, s')))"

definition update_task_progress :: "string \<Rightarrow> string \<Rightarrow> db \<Rightarrow> unit result \<times> db" where
  "update_task_progress tid p = exec_ok (\<lambda>t. t_id t = tid) (\<lambda>now. set_progress now p)"

definition set_task_session :: "string \<Rightarrow> string \<Rightarrow> db \<Rightarrow> unit result \<times> db" where
  "set_task_session tid sid = exec_ok (\<lambda>t. t_id t = tid) (\<lambda>now. set_session now sid)"

definition complete_task :: "string \<Rightarrow> string \<Rightarrow> db \<Rightarrow> unit result \<times> db" where
  "complete_task tid res = exec_ok (\<lambda>t. t_id t = tid) (\<lambda>now. set_complete now res)"

definition set_task_ai_summary :: "string \<Rightarrow> string \<Rightarrow> db \<Rightarrow> unit result \<times> db" where
  "set_task_ai_summary tid summ = exec_ok (\<lambda>t. t_id t = tid) (\<lambda>now. set_summary now summ)"

definition fail_task :: "string \<Rightarrow> string \<Rightarrow> db \<Rightarrow> unit result \<times> db" where
  "fail_task tid e = exec_ok (\<lambda>t. t_id t = tid) (\<lambda>now. set_failed now e)"

text \<open>
  A negative number of seconds is rendered as the empty string by \<open>itoa\<close>, which neither dialect
  accepts as an interval: the statement fails on the row it would write.
\<close>

definition retry_task :: "string \<Rightarrow> int \<Rightarrow> db \<Rightarrow> unit result \<times> db" where
  "retry_task tid backoff = db_call (\<lambda>s.
     case exec_tasks (\<lambda>t. t_id t = tid \<and> t_status t = TaskFailed)
            (set_retry (db_clock s) backoff) s of
       (n, s') \<Rightarrow>
         if n = 0 then (Inl ErrNotFound, s)
         else if backoff < 0 then (Inl ErrDriver, s)
         else (Inr (), s'))"

definition cancel_task :: "string \<Rightarrow> db \<Rightarrow> bool result \<times> db" where
  "cancel_task tid =
     exec_changed (\<lambda>t. t_id t = tid \<and> t_status t \<in> {TaskQueued, TaskPending, TaskRunning}) set_canceled"

definition promote_pending_dependents :: "string \<Rightarrow> db \<Rightarrow> string list result \<times> db" where
  "promote_pending_dependents up = db_call (\<lambda>s.
     let P = (\<lambda>t. t_depends t = up \<and> t_status t \<in> {TaskPending, TaskBlocked})
     in (Inr (map t_id (filter P (db_tasks s))), snd (exec_tasks P (set_promoted (db_clock s)) s)))"

definition dependent_ids :: "string \<Rightarrow> task_status list \<Rightarrow> db \<Rightarrow> string list result \<times> db" where
  "dependent_ids up states =
     (if states = [] then (\<lambda>s. (Inr [], s))
      else db_call (\<lambda>s. (Inr (map t_id (filter (\<lambda>t. t_depends t = up \<and> t_status t \<in> set states)
             (db_tasks s))), s)))"

text \<open>The two statements of \<open>BlockDependents\<close>: the ids are read first, the rows written second.\<close>

definition block_rows :: "string \<Rightarrow> string \<Rightarrow> db \<Rightarrow> unit result \<times> db" where
  "block_rows up reason = exec_ok (\<lambda>t. t_depends t = up \<and> t_status t = TaskPending)
     (\<lambda>now. set_blocked now reason)"

definition block_dependents :: "string \<Rightarrow> string \<Rightarrow> db \<Rightarrow> string list result \<times> db" where
  "block_dependents up reason s =
     (case dependent_ids up [TaskPending] s of
        (Inl e, s1) \<Rightarrow> (Inl e, s1)
      | (Inr ids, s1) \<Rightarrow>
          if ids = [] then (Inr ids, s1)
          else (case block_rows up reason s1 of
                  (Inl e, s2) \<Rightarrow> (Inl e, s2)
                | (Inr _, s2) \<Rightarrow> (Inr ids, s2)))"

definition unblock_task :: "string \<Rightarrow> db \<Rightarrow> bool result \<times> db" where
  "unblock_task tid = exec_changed (\<lambda>t. t_id t = tid \<and> t_status t = TaskBlocked) set_unblocked"

definition is_task_canceled :: "string \<Rightarrow> db \<Rightarrow> bool result \<times> db" where
  "is_task_canceled tid = db_call (\<lambda>s.
     (case lookup_by t_id tid (db_tasks s) of
        None \<Rightarrow> Inl ErrNotFound
      | Some t \<Rightarrow> Inr (t_status t = TaskCanceled), s))"

definition recover_stale_running :: "db \<Rightarrow> int result \<times> db" where
  "recover_stale_running = db_call (\<lambda>s.
     case exec_tasks (\<lambda>t. t_status t = TaskRunning) (set_recovered (db_clock s)) s of
       (n, s') \<Rightarrow> (Inr n, s'))"

definition list_scheduled_tasks :: "db \<Rightarrow> task list result \<times> db" where
  "list_scheduled_tasks = db_call (\<lambda>s.
     (Inr (order_asc t_created (filter (\<lambda>t. t_status t = TaskScheduled) (db_tasks s))), s))"

definition promote_scheduled_task :: "string \<Rightarrow> db \<Rightarrow> bool result \<times> db" where
  "promote_scheduled_task tid =
     exec_changed (\<lambda>t. t_id t = tid \<and> t_status t = TaskScheduled) set_due"

definition set_task_last_fired_at :: "string \<Rightarrow> time \<Rightarrow> db \<Rightarrow> unit result \<times> db" where
  "set_task_last_fired_at tid at = exec_ok (\<lambda>t. t_id t = tid) (\<lambda>now. set_last_fired now (Some at))"

definition set_task_last_fired_at_ptr :: "string \<Rightarrow> time option \<Rightarrow> db \<Rightarrow> unit result \<times> db" where
  "set_task_last_fired_at_ptr tid at = exec_ok (\<lambda>t. t_id t = tid) (\<lambda>now. set_last_fired now at)"

definition claim_recurring_fire :: "string \<Rightarrow> time option \<Rightarrow> time \<Rightarrow> db \<Rightarrow> bool result \<times> db" where
  "claim_recurring_fire tid expected at =
     exec_changed (\<lambda>t. t_id t = tid \<and> t_status t = TaskScheduled \<and>
         (t_last_fired t = None \<and> expected = None \<or>
          t_last_fired t \<noteq> None \<and> t_last_fired t = expected))
       (\<lambda>now. set_last_fired now (Some at))"

definition cancel_scheduled_task :: "string \<Rightarrow> db \<Rightarrow> bool result \<times> db" where
  "cancel_scheduled_task tid =
     exec_changed (\<lambda>t. t_id t = tid \<and> t_status t = TaskScheduled) set_canceled"

subsection \<open>The retention pass\<close>

definition terminal :: "task_status \<Rightarrow> bool" where
  "terminal st \<longleftrightarrow> st \<in> {TaskSucceeded, TaskFailed, TaskCanceled}"

definition active :: "task_status \<Rightarrow> bool" where
  "active st \<longleftrightarrow> st \<in> {TaskQueued, TaskRunning, TaskPending, TaskBlocked, TaskScheduled}"

text \<open>\<open>SELECT depends_on FROM tasks WHERE depends_on <> '' AND status IN (active)\<close>\<close>

definition referenced :: "task list \<Rightarrow> string list" where
  "referenced ts = map t_depends (filter (\<lambda>t. t_depends t \<noteq> '''' \<and> active (t_status t)) ts)"

definition expired :: "time \<Rightarrow> task \<Rightarrow> bool" where
  "expired cutoff t \<longleftrightarrow> terminal (t_status t) \<and> t_updated t < cutoff"

definition purge_victims :: "time \<Rightarrow> int \<Rightarrow> task list \<Rightarrow> task list" where
  "purge_victims cutoff limit ts = take (nat limit) (order_asc t_updated
     (filter (\<lambda>t. expired cutoff t \<and> t_id t \<notin> set (referenced ts)) ts))"

text \<open>
  The two statements of \<open>PurgeFinishedTasks\<close>. A negative age has no rendering (\<open>itoa\<close>):
  PostgreSQL rejects the interval, SQLite's cutoff is \<open>NULL\<close> and selects no row.
\<close>

definition purge_delete :: "int \<Rightarrow> int \<Rightarrow> db \<Rightarrow> int result \<times> db" where
  "purge_delete secs limit = db_call (\<lambda>s.
     if secs < 0 then (if db_pg s then Inl ErrDriver else Inr 0, s)
     else let victims = map t_id (purge_victims (db_clock s - secs * second) limit (db_tasks s))
          in (Inr (count_where (\<lambda>t. t_id t \<in> set victims) (db_tasks s)),
              s\<lparr>db_tasks := delete_where (\<lambda>t. t_id t \<in> set victims) (db_tasks s)\<rparr>))"

definition purge_kept :: "int \<Rightarrow> db \<Rightarrow> int result \<times> db" where
  "purge_kept secs = db_call (\<lambda>s.
     (if secs < 0 then (if db_pg s then Inl ErrDriver else Inr 0)
      else Inr (count_where (\<lambda>t. expired (db_clock s - secs * second) t \<and>
             t_id t \<in> set (referenced (db_tasks s))) (db_tasks s)), s))"

definition purge_finished_tasks :: "duration \<Rightarrow> int \<Rightarrow> db \<Rightarrow> (int \<times> int) result \<times> db" where
  "purge_finished_tasks older limit0 s =
     (let limit = (if limit0 \<le> 0 then 500 else limit0);
          secs = tdiv older second
      in case purge_delete secs limit s of
           (Inl e, s1) \<Rightarrow> (Inl e, s1)
         | (Inr deleted, s1) \<Rightarrow>
             (case purge_kept secs s1 of
                (Inl e, s2) \<Rightarrow> (Inl e, s2)
              | (Inr kept, s2) \<Rightarrow> (Inr (deleted, kept), s2)))"

lemmas task_methods = create_task_with_status_def create_task_def update_task_progress_def
  set_task_session_def complete_task_def set_task_ai_summary_def fail_task_def retry_task_def
  cancel_task_def promote_pending_dependents_def block_rows_def block_dependents_def
  dependent_ids_def unblock_task_def recover_stale_running_def promote_scheduled_task_def
  set_task_last_fired_at_def set_task_last_fired_at_ptr_def claim_recurring_fire_def
  cancel_scheduled_task_def

end
