(* ===== verification/TaskMachine.thy ===== *)
theory TaskMachine
  imports TaskStore
begin

text \<open>
  The task status machine that the methods of \<open>TaskStore\<close> implement, as a step relation on
  statuses; an enumeration of the methods that write the table (\<open>task_op\<close>), with the table's
  invariant and the fact that no method, under any schedule of database faults, leaves it.
\<close>

subsection \<open>The edges of the machine\<close>

text \<open>
  \<open>complete\<close> and \<open>fail\<close> start anywhere: \<open>CompleteTask\<close> and \<open>FailTask\<close> select the row by its id
  alone.
\<close>

inductive status_step :: "task_status \<Rightarrow> task_status \<Rightarrow> bool" where
  claim: "status_step TaskQueued TaskRunning"
| complete: "status_step st TaskSucceeded"
| fail: "status_step st TaskFailed"
| retry: "status_step TaskFailed TaskQueued"
| cancel: "st \<in> {TaskQueued, TaskPending, TaskRunning, TaskScheduled} \<Longrightarrow> status_step st TaskCanceled"
| release: "st \<in> {TaskPending, TaskBlocked} \<Longrightarrow> status_step st TaskQueued"
| block: "status_step TaskPending TaskBlocked"
| recover: "status_step TaskRunning TaskQueued"
| due: "status_step TaskScheduled TaskQueued"

code_pred status_step .

inductive_cases to_pendingE: "status_step st TaskPending"
inductive_cases to_blockedE: "status_step st TaskBlocked"
inductive_cases to_scheduledE: "status_step st TaskScheduled"
inductive_cases to_runningE: "status_step st TaskRunning"
inductive_simps from_succeeded: "status_step TaskSucceeded st"
inductive_simps from_canceled: "status_step TaskCanceled st"
inductive_simps from_failed: "status_step TaskFailed st"

lemma nothing_becomes_pending: "\<not> status_step st TaskPending"
  by (auto elim: to_pendingE)

lemma nothing_becomes_scheduled: "\<not> status_step st TaskScheduled"
  by (auto elim: to_scheduledE)

lemma only_queued_runs: "status_step st TaskRunning \<Longrightarrow> st = TaskQueued"
  by (auto elim: to_runningE)

lemma only_pending_blocks: "status_step st TaskBlocked \<Longrightarrow> st = TaskPending"
  by (auto elim: to_blockedE)

lemma terminal_or_active: "active st \<longleftrightarrow> \<not> terminal st"
  by (cases st) (auto simp: active_def terminal_def)

text \<open>The only way out of a terminal status that leads back to work is a retry of a failed task.\<close>

lemma terminal_step:
  "status_step st st' \<Longrightarrow> terminal st \<Longrightarrow> terminal st' \<or> st = TaskFailed \<and> st' = TaskQueued"
  by (auto elim!: status_step.cases simp: terminal_def)

subsection \<open>Updates of the task table\<close>

text \<open>What every method promises about a row it finds and leaves.\<close>

definition row_evolves :: "task \<Rightarrow> task \<Rightarrow> bool" where
  "row_evolves r r' \<longleftrightarrow> t_depends r' = t_depends r \<and>
     (t_status r' = t_status r \<or> status_step (t_status r) (t_status r'))"

definition rows_evolve :: "task list \<Rightarrow> task list \<Rightarrow> bool" where
  "rows_evolve ts ts' \<longleftrightarrow> (\<forall>k r. lookup_by t_id k ts = Some r \<longrightarrow>
     (case lookup_by t_id k ts' of None \<Rightarrow> terminal (t_status r) | Some r' \<Rightarrow> row_evolves r r'))"

lemma row_evolves_refl [simp, intro]: "row_evolves r r"
  by (simp add: row_evolves_def)

lemma rows_evolve_refl [simp, intro]: "rows_evolve ts ts"
  by (auto simp: rows_evolve_def)

text \<open>Of an update of this table: it keeps ids and dependencies and follows the machine's edges.\<close>

locale task_update = status_update t_id upd guard t_status status_step
  for upd :: "task \<Rightarrow> task" and guard :: "task \<Rightarrow> bool" +
  assumes depends_upd: "t_depends (upd t) = t_depends t"
begin

lemma evolve: "rows_evolve ts (update_where guard upd ts)"
  by (auto simp: rows_evolve_def lookup_update row_evolves_def depends_upd trans_upd)

end

text \<open>The \<open>SET\<close> clauses with their \<open>WHERE\<close> clauses.\<close>

interpretation claim_upd: row_update t_id "set_claim now" for now
  by unfold_locales (simp add: set_claim_def)

interpretation progress_upd: row_update t_id "set_progress now p" for now p
  by unfold_locales (simp add: set_progress_def)

interpretation session_upd: row_update t_id "set_session now p" for now p
  by unfold_locales (simp add: set_session_def)

interpretation summary_upd: row_update t_id "set_summary now p" for now p
  by unfold_locales (simp add: set_summary_def)

interpretation fired_upd: row_update t_id "set_last_fired now p" for now p
  by unfold_locales (simp add: set_last_fired_def)

interpretation complete_upd: task_update "set_complete now res" "\<lambda>t. t_id t = tid" for now res tid
  by unfold_locales (auto simp: set_complete_def intro: status_step.intros)

interpretation fail_upd: task_update "set_failed now e" "\<lambda>t. t_id t = tid" for now e tid
  by unfold_locales (auto simp: set_failed_def intro: status_step.intros)

interpretation retry_upd: task_update "set_retry now b"
    "\<lambda>t. t_id t = tid \<and> t_status t = TaskFailed" for now b tid
  by unfold_locales (auto simp: set_retry_def intro: status_step.intros)

interpretation cancel_upd: task_update "set_canceled now"
    "\<lambda>t. t_id t = tid \<and> t_status t \<in> {TaskQueued, TaskPending, TaskRunning}" for now tid
  by unfold_locales (auto simp: set_canceled_def intro: status_step.intros)

interpretation cancel_sched_upd: task_update "set_canceled now"
    "\<lambda>t. t_id t = tid \<and> t_status t = TaskScheduled" for now tid
  by unfold_locales (auto simp: set_canceled_def intro: status_step.intros)

interpretation promote_upd: task_update "set_promoted now"
    "\<lambda>t. t_depends t = up \<and> t_status t \<in> {TaskPending, TaskBlocked}" for now up
  by unfold_locales (auto simp: set_promoted_def intro: status_step.intros)

interpretation block_upd: task_update "set_blocked now reason"
    "\<lambda>t. t_depends t = up \<and> t_status t = TaskPending" for now reason up
  by unfold_locales (auto simp: set_blocked_def intro: status_step.intros)

interpretation unblock_upd: task_update "set_unblocked now"
    "\<lambda>t. t_id t = tid \<and> t_status t = TaskBlocked" for now tid
  by unfold_locales (auto simp: set_unblocked_def intro: status_step.intros)

interpretation recover_upd: task_update "set_recovered now" "\<lambda>t. t_status t = TaskRunning" for now
  by unfold_locales (auto simp: set_recovered_def intro: status_step.intros)

interpretation due_upd: task_update "set_due now"
    "\<lambda>t. t_id t = tid \<and> t_status t = TaskScheduled" for now tid
  by unfold_locales (auto simp: set_due_def intro: status_step.intros)

text \<open>Updates that leave the status alone.\<close>

lemma quiet_evolve:
  assumes "\<And>t. t_id (f t) = t_id t" "\<And>t. t_depends (f t) = t_depends t"
    "\<And>t. t_status (f t) = t_status t"
  shows "rows_evolve ts (update_where P f ts)"
proof -
  have "lookup_by t_id k (update_where P f ts) =
      map_option (\<lambda>r. if P r then f r else r) (lookup_by t_id k ts)" for k
    using assms(1) by (rule row_update.lookup_update [OF row_update.intro])
  then show ?thesis
    by (auto simp: rows_evolve_def row_evolves_def assms)
qed

subsection \<open>Every method at once\<close>

datatype task_op =
    OpCreate task task_status
  | OpClaim
  | OpProgress string string
  | OpSession string string
  | OpComplete string string
  | OpSummary string string
  | OpFail string string
  | OpRetry string int
  | OpCancel string
  | OpPromote string
  | OpBlock string string
  | OpUnblock string
  | OpRecover
  | OpDue string
  | OpFired string "time option"
  | OpClaimFire string "time option" time
  | OpCancelScheduled string
  | OpRead string
  | OpPurge duration int
  | OpTick nat

fun run_op :: "task_op \<Rightarrow> db \<Rightarrow> db" where
  "run_op (OpCreate t st) s = snd (create_task_with_status t st s)"
| "run_op OpClaim s = snd (claim_next_task s)"
| "run_op (OpProgress tid p) s = snd (update_task_progress tid p s)"
| "run_op (OpSession tid sid) s = snd (set_task_session tid sid s)"
| "run_op (OpComplete tid res) s = snd (complete_task tid res s)"
| "run_op (OpSummary tid x) s = snd (set_task_ai_summary tid x s)"
| "run_op (OpFail tid e) s = snd (fail_task tid e s)"
| "run_op (OpRetry tid b) s = snd (retry_task tid b s)"
| "run_op (OpCancel tid) s = snd (cancel_task tid s)"
| "run_op (OpPromote up) s = snd (promote_pending_dependents up s)"
| "run_op (OpBlock up reason) s = snd (block_dependents up reason s)"
| "run_op (OpUnblock tid) s = snd (unblock_task tid s)"
| "run_op OpRecover s = snd (recover_stale_running s)"
| "run_op (OpDue tid) s = snd (promote_scheduled_task tid s)"
| "run_op (OpFired tid at) s = snd (set_task_last_fired_at_ptr tid at s)"
| "run_op (OpClaimFire tid expected at) s = snd (claim_recurring_fire tid expected at s)"
| "run_op (OpCancelScheduled tid) s = snd (cancel_scheduled_task tid s)"
| "run_op (OpRead tid) s = snd (is_task_canceled tid s)"
| "run_op (OpPurge older limit) s = snd (purge_finished_tasks older limit s)"
| "run_op (OpTick d) s = s\<lparr>db_clock := db_clock s + int d\<rparr>"

fun run_ops :: "task_op list \<Rightarrow> db \<Rightarrow> db" where
  "run_ops [] s = s"
| "run_ops (x # xs) s = run_ops xs (run_op x s)"

subsection \<open>The table after a method\<close>

text \<open>
  Each method leaves the table as it was, appends one row, deletes terminal rows or updates rows
  in a way that follows the machine: the four shapes below. They do not mention the faults, so a
  statement that fails falls under the first.
\<close>

inductive table_step :: "task list \<Rightarrow> task list \<Rightarrow> bool" where
  same: "table_step ts ts"
| insert: "t_id t \<notin> t_id ` set ts \<Longrightarrow> table_step ts (ts @ [new_task_row now t st])"
| update: "map t_id ts' = map t_id ts \<Longrightarrow> (distinct (map t_id ts) \<Longrightarrow> rows_evolve ts ts') \<Longrightarrow>
    table_step ts ts'"
| purge: "\<forall>t \<in> set (purge_victims cutoff limit ts). t_id t \<in> V \<Longrightarrow>
    V = t_id ` set (purge_victims cutoff limit ts) \<Longrightarrow>
    table_step ts (delete_where (\<lambda>t. t_id t \<in> V) ts)"

lemma table_step_exec_ok:
  assumes "\<And>now ts. table_step ts (update_where P (f now) ts)"
  shows "table_step (db_tasks s) (db_tasks (snd (exec_ok P f s)))"
  unfolding exec_ok_def
  by (rule db_call_preserves) (auto simp: exec_tasks_def assms intro: table_step.same)

lemma table_step_exec_changed:
  assumes "\<And>now ts. table_step ts (update_where P (f now) ts)"
  shows "table_step (db_tasks s) (db_tasks (snd (exec_changed P f s)))"
  unfolding exec_changed_def
  by (rule db_call_preserves) (auto simp: exec_tasks_def assms intro: table_step.same)

lemma task_update_step:
  assumes "task_update f P"
  shows "table_step ts (update_where P f ts)"
proof (rule table_step.update)
  have "row_update t_id f"
    using assms by (simp add: task_update_def status_update_def)
  then show "map t_id (update_where P f ts) = map t_id ts"
    by (rule row_update.keys_update)
  show "rows_evolve ts (update_where P f ts)"
    using assms by (rule task_update.evolve)
qed

lemma quiet_update_step:
  assumes "\<And>t. t_id (f t) = t_id t" "\<And>t. t_depends (f t) = t_depends t"
    "\<And>t. t_status (f t) = t_status t"
  shows "table_step ts (update_where P f ts)"
proof (rule table_step.update)
  show "map t_id (update_where P f ts) = map t_id ts"
    using assms(1) by (rule row_update.keys_update [OF row_update.intro])
  show "rows_evolve ts (update_where P f ts)"
    using assms by (rule quiet_evolve)
qed

lemma purge_first_step:
  "table_step ts (delete_where (\<lambda>t. t_id t \<in> set (map t_id (purge_victims cutoff limit ts))) ts)"
proof -
  let ?V = "t_id ` set (purge_victims cutoff limit ts)"
  have "table_step ts (delete_where (\<lambda>t. t_id t \<in> ?V) ts)"
    by (rule table_step.purge [of cutoff limit]) auto
  then show ?thesis by simp
qed

lemma table_step_purge_delete:
  "table_step (db_tasks s) (db_tasks (snd (purge_delete secs limit s)))"
  unfolding purge_delete_def
  by (rule db_call_preserves)
    (auto simp: Let_def intro: table_step.same purge_first_step [simplified])

lemma purge_kept_tasks [simp]: "db_tasks (snd (purge_kept secs s)) = db_tasks s"
  unfolding purge_kept_def by (rule db_call_preserves) auto

lemma purge_finished_tasks_db:
  "db_tasks (snd (purge_finished_tasks older limit s)) =
     db_tasks (snd (purge_delete (tdiv older second) (if limit \<le> 0 then 500 else limit) s))"
proof (cases "purge_delete (tdiv older second) (if limit \<le> 0 then 500 else limit) s")
  case (Pair r1 s1)
  have "db_tasks (snd (purge_kept (tdiv older second) s1)) = db_tasks s1" by simp
  with Pair show ?thesis
    by (cases "purge_kept (tdiv older second) s1")
      (auto simp: purge_finished_tasks_def Let_def split: sum.splits)
qed

lemma table_step_purge: "table_step (db_tasks s) (db_tasks (snd (purge_finished_tasks older limit s)))"
  by (simp add: purge_finished_tasks_db table_step_purge_delete)

lemma dependent_ids_tasks [simp]: "db_tasks (snd (dependent_ids up states s)) = db_tasks s"
proof (cases "states = []")
  case False
  then show ?thesis
    unfolding dependent_ids_def by simp (rule db_call_preserves, auto)
qed (simp add: dependent_ids_def)

lemma table_step_block_rows: "table_step (db_tasks s) (db_tasks (snd (block_rows up reason s)))"
  unfolding block_rows_def
  by (rule table_step_exec_ok, rule task_update_step, rule block_upd.task_update_axioms)

lemma block_dependents_db:
  "db_tasks (snd (block_dependents up reason s)) = db_tasks s \<or>
   (\<exists>s1. db_tasks s1 = db_tasks s \<and>
      db_tasks (snd (block_dependents up reason s)) = db_tasks (snd (block_rows up reason s1)))"
proof (cases "dependent_ids up [TaskPending] s")
  case (Pair r1 s1)
  have eq: "db_tasks s1 = db_tasks s"
    using dependent_ids_tasks [of up "[TaskPending]" s] Pair by simp
  show ?thesis
  proof (cases "block_rows up reason s1")
    case (Pair r2 s2)
    with \<open>dependent_ids up [TaskPending] s = (r1, s1)\<close> eq show ?thesis
      by (cases r1; cases r2) (auto simp: block_dependents_def intro!: exI [of _ s1])
  qed
qed

lemma table_step_block: "table_step (db_tasks s) (db_tasks (snd (block_dependents up reason s)))"
  using block_dependents_db [of up reason s] table_step_block_rows
  by (metis table_step.same)

lemma claim_update_step:
  assumes t: "t \<in> set ts" "t_status t = TaskQueued"
  shows "table_step ts (update_where (\<lambda>r. t_id r = t_id t) (set_claim now) ts)"
proof (rule table_step.update)
  show "map t_id (update_where (\<lambda>r. t_id r = t_id t) (set_claim now) ts) = map t_id ts"
    by (rule claim_upd.keys_update)
  assume "distinct (map t_id ts)"
  then have found: "lookup_by t_id (t_id t) ts = Some t"
    using t(1) by (rule lookup_by_unique)
  have "row_evolves r (if t_id r = t_id t then set_claim now r else r)"
    if "lookup_by t_id k ts = Some r" for k r
  proof (cases "t_id r = t_id t")
    case True
    with that found have "r = t" by (metis lookup_by_Some option.inject)
    with t(2) show ?thesis
      by (simp add: row_evolves_def set_claim_def status_step.claim)
  qed simp
  then show "rows_evolve ts (update_where (\<lambda>r. t_id r = t_id t) (set_claim now) ts)"
    by (simp add: rows_evolve_def claim_upd.lookup_update)
qed



lemma claim_candidates_mem:
  "t \<in> set (claim_candidates now ts) \<longleftrightarrow> t \<in> set ts \<and> claimable now t"
  by (simp add: claim_candidates_def)

lemma table_step_claim: "table_step (db_tasks s) (db_tasks (snd (claim_next_task s)))"
  unfolding claim_next_task_def
proof (rule db_call_preserves)
  fix fs
  let ?s = "s\<lparr>db_faults := fs\<rparr>"
  show "table_step (db_tasks s) (db_tasks ?s)"
    by (simp add: table_step.same)
  show "table_step (db_tasks s) (db_tasks (snd (case claim_candidates (db_clock ?s) (db_tasks ?s) of
       [] \<Rightarrow> (Inl ErrNotFound, ?s)
     | t # _ \<Rightarrow> (let s' = snd (exec_tasks (\<lambda>r. t_id r = t_id t) (set_claim (db_clock ?s)) ?s)
          in (case lookup_by t_id (t_id t) (db_tasks s') of
                None \<Rightarrow> Inl ErrNotFound | Some r \<Rightarrow> Inr r, s')))))"
  proof (cases "claim_candidates (db_clock s) (db_tasks s)")
    case Nil
    then show ?thesis by (simp add: table_step.same)
  next
    case (Cons t cs)
    then have "t \<in> set (db_tasks s)" "t_status t = TaskQueued"
      using claim_candidates_mem [of t "db_clock s" "db_tasks s"] by (simp_all add: claimable_def)
    with Cons show ?thesis
      by (simp add: exec_tasks_def Let_def claim_update_step)
  qed
qed

lemma table_step_create:
  "table_step (db_tasks s) (db_tasks (snd (create_task_with_status t st s)))"
  unfolding create_task_with_status_def
  by (rule db_call_preserves) (auto intro: table_step.same table_step.insert)

lemma table_step_retry: "table_step (db_tasks s) (db_tasks (snd (retry_task tid b s)))"
  unfolding retry_task_def
  by (rule db_call_preserves)
    (auto simp: exec_tasks_def intro: table_step.same task_update_step retry_upd.task_update_axioms)

lemma table_step_promote:
  "table_step (db_tasks s) (db_tasks (snd (promote_pending_dependents up s)))"
  unfolding promote_pending_dependents_def Let_def
  by (rule db_call_preserves)
    (use task_update_step [OF promote_upd.task_update_axioms] in
      \<open>auto simp: exec_tasks_def intro: table_step.same\<close>)

lemma table_step_recover: "table_step (db_tasks s) (db_tasks (snd (recover_stale_running s)))"
  unfolding recover_stale_running_def
  by (rule db_call_preserves)
    (auto simp: exec_tasks_def intro: table_step.same task_update_step
      recover_upd.task_update_axioms)

lemma read_tasks [simp]: "db_tasks (snd (is_task_canceled tid s)) = db_tasks s"
  unfolding is_task_canceled_def
  by (rule db_call_preserves [where Q = "\<lambda>s'. db_tasks s' = db_tasks s"]) auto

theorem run_op_table_step: "table_step (db_tasks s) (db_tasks (run_op x s))"
proof (cases x)
  case (OpProgress tid p)
  then show ?thesis
    by (auto simp: update_task_progress_def set_progress_def
        intro!: table_step_exec_ok quiet_update_step)
next
  case (OpSession tid sid)
  then show ?thesis
    by (auto simp: set_task_session_def set_session_def
        intro!: table_step_exec_ok quiet_update_step)
next
  case (OpSummary tid x)
  then show ?thesis
    by (auto simp: set_task_ai_summary_def set_summary_def
        intro!: table_step_exec_ok quiet_update_step)
next
  case (OpFired tid at)
  then show ?thesis
    by (auto simp: set_task_last_fired_at_ptr_def set_last_fired_def
        intro!: table_step_exec_ok quiet_update_step)
next
  case (OpClaimFire tid expected at)
  then show ?thesis
    by (auto simp: claim_recurring_fire_def set_last_fired_def
        intro!: table_step_exec_changed quiet_update_step)
next
  case (OpComplete tid res)
  then show ?thesis
    by (auto simp: complete_task_def intro: table_step_exec_ok task_update_step
        complete_upd.task_update_axioms)
next
  case (OpFail tid e)
  then show ?thesis
    by (auto simp: fail_task_def intro: table_step_exec_ok task_update_step
        fail_upd.task_update_axioms)
next
  case (OpCancel tid)
  then show ?thesis
    using table_step_exec_changed [OF task_update_step [OF cancel_upd.task_update_axioms]]
    by (simp only: run_op.simps cancel_task_def)
next
  case (OpUnblock tid)
  then show ?thesis
    by (simp add: unblock_task_def table_step_exec_changed task_update_step
        unblock_upd.task_update_axioms)
next
  case (OpDue tid)
  then show ?thesis
    by (simp add: promote_scheduled_task_def table_step_exec_changed task_update_step
        due_upd.task_update_axioms)
next
  case (OpCancelScheduled tid)
  then show ?thesis
    by (simp add: cancel_scheduled_task_def table_step_exec_changed task_update_step
        cancel_sched_upd.task_update_axioms)
qed (auto intro: table_step.same simp: table_step_create table_step_claim table_step_retry
    table_step_promote table_step_block table_step_recover table_step_purge)

subsection \<open>The invariant of the task table\<close>

text \<open>
  Ids are distinct, and a task that waits (pending or blocked) names an upstream that is still in
  the table.
\<close>

definition waiting :: "task_status \<Rightarrow> bool" where
  "waiting st \<longleftrightarrow> st \<in> {TaskPending, TaskBlocked}"

definition upstream_present :: "task list \<Rightarrow> bool" where
  "upstream_present ts \<longleftrightarrow> (\<forall>t \<in> set ts. waiting (t_status t) \<longrightarrow>
     t_depends t \<noteq> '''' \<and> t_depends t \<in> t_id ` set ts)"

definition wf_tasks :: "task list \<Rightarrow> bool" where
  "wf_tasks ts \<longleftrightarrow> distinct (map t_id ts) \<and> upstream_present ts"

text \<open>
  The one obligation of a caller: a task is created waiting only for an upstream that exists.
  \<open>createTask\<close> checks that before it inserts a pending task.
\<close>

fun op_guard :: "task_op \<Rightarrow> db \<Rightarrow> bool" where
  "op_guard (OpCreate t st) s \<longleftrightarrow>
     (waiting st \<longrightarrow> t_depends t \<noteq> '''' \<and> t_depends t \<in> t_id ` set (db_tasks s))"
| "op_guard _ s \<longleftrightarrow> True"

lemma waiting_active: "waiting st \<Longrightarrow> active st"
  by (auto simp: waiting_def active_def)

lemma row_evolves_waiting: "row_evolves r r' \<Longrightarrow> waiting (t_status r') \<Longrightarrow> waiting (t_status r)"
  by (auto simp: row_evolves_def waiting_def nothing_becomes_pending dest: only_pending_blocks)

lemma evolve_upstream_present:
  assumes ids: "map t_id ts' = map t_id ts" and dist: "distinct (map t_id ts)"
    and ev: "rows_evolve ts ts'" and up: "upstream_present ts"
  shows "upstream_present ts'"
  unfolding upstream_present_def
proof (intro ballI impI)
  fix t' assume t': "t' \<in> set ts'" and w: "waiting (t_status t')"
  have ids_set: "t_id ` set ts' = t_id ` set ts"
    using ids by (metis list.set_map)
  with t' obtain t where t: "t \<in> set ts" "t_id t = t_id t'" by (metis imageE imageI)
  have "lookup_by t_id (t_id t') ts = Some t"
    using dist t by (metis lookup_by_unique)
  moreover have "lookup_by t_id (t_id t') ts' = Some t'"
    using dist ids t' by (metis lookup_by_unique)
  ultimately have "row_evolves t t'"
    using ev by (auto simp: rows_evolve_def split: option.splits)
  with w have "waiting (t_status t)" and "t_depends t' = t_depends t"
    by (auto intro: row_evolves_waiting) (simp add: row_evolves_def)
  with up t(1) ids_set show "t_depends t' \<noteq> '''' \<and> t_depends t' \<in> t_id ` set ts'"
    by (auto simp: upstream_present_def)
qed

lemma victim_unreferenced:
  "v \<in> set (purge_victims cutoff limit ts) \<Longrightarrow>
     v \<in> set ts \<and> expired cutoff v \<and> t_id v \<notin> set (referenced ts)"
  by (auto simp: purge_victims_def dest!: in_set_takeD)

lemma purge_upstream_present:
  assumes "upstream_present ts"
  shows "upstream_present (delete_where (\<lambda>t. t_id t \<in> t_id ` set (purge_victims cutoff limit ts)) ts)"
  unfolding upstream_present_def
proof (intro ballI impI)
  let ?V = "t_id ` set (purge_victims cutoff limit ts)"
  fix t assume t: "t \<in> set (delete_where (\<lambda>t. t_id t \<in> ?V) ts)" and w: "waiting (t_status t)"
  then have ne: "t_depends t \<noteq> ''''" and pres: "t_depends t \<in> t_id ` set ts"
    using assms by (auto simp: upstream_present_def)
  from t w ne have "t_depends t \<in> set (referenced ts)"
    by (auto simp: referenced_def dest: waiting_active)
  then have "t_depends t \<notin> ?V" by (auto dest: victim_unreferenced)
  with pres show "t_depends t \<noteq> '''' \<and>
      t_depends t \<in> t_id ` set (delete_where (\<lambda>t. t_id t \<in> ?V) ts)"
    using ne by (auto simp: image_iff)
qed

lemma insert_upstream_present:
  assumes "upstream_present ts"
    and "waiting st \<longrightarrow> t_depends t \<noteq> '''' \<and> t_depends t \<in> t_id ` set ts"
  shows "upstream_present (ts @ [new_task_row now t st])"
  using assms by (auto simp: upstream_present_def new_task_row_def)

lemma create_guarded:
  assumes "wf_tasks (db_tasks s)" and "op_guard (OpCreate t st) s"
  shows "wf_tasks (db_tasks (run_op (OpCreate t st) s))"
  unfolding run_op.simps create_task_with_status_def
  by (rule db_call_preserves)
    (use assms in \<open>auto simp: wf_tasks_def insert_upstream_present\<close>,
     auto simp: new_task_row_def)

lemma table_step_wf:
  assumes "table_step ts ts'" and "wf_tasks ts" and "length ts' \<le> length ts"
  shows "wf_tasks ts'"
  using assms
proof (induction rule: table_step.induct)
  case (update ts' ts)
  then show ?case
    by (metis wf_tasks_def evolve_upstream_present)
next
  case (purge cutoff limit ts V)
  then show ?case
    by (simp add: wf_tasks_def distinct_delete_where purge_upstream_present)
qed simp_all

text \<open>Rows disappear only when terminal, and keep their dependency.\<close>

lemma table_step_evolves: "table_step ts ts' \<Longrightarrow> distinct (map t_id ts) \<Longrightarrow> rows_evolve ts ts'"
proof (induction rule: table_step.induct)
  case (insert t ts now st)
  then show ?case
    by (auto simp: rows_evolve_def lookup_by_append)
next
  case (purge cutoff limit ts V)
  have "terminal (t_status r)" if "lookup_by t_id k ts = Some r" "t_id r \<in> V" for k r
  proof -
    from that(2) purge obtain v where v: "v \<in> set (purge_victims cutoff limit ts)" "t_id v = t_id r"
      by auto
    then have "v \<in> set ts" "terminal (t_status v)"
      by (auto dest: victim_unreferenced simp: expired_def)
    moreover have "v = r"
      using lookup_by_unique [OF purge.prems \<open>v \<in> set ts\<close>] v(2) that(1)
      by (metis lookup_by_Some option.inject)
    ultimately show ?thesis by simp
  qed
  then show ?case
    using purge.prems by (auto simp: rows_evolve_def lookup_by_delete_where split: option.splits)
qed auto

lemma run_op_shrinks:
  assumes "\<forall>t st. x \<noteq> OpCreate t st"
  shows "length (db_tasks (run_op x s)) \<le> length (db_tasks s)"
proof -
  have ok: "length (db_tasks (snd (exec_ok P f s))) = length (db_tasks s)" for P f s
    unfolding exec_ok_def by (rule db_call_preserves) (auto simp: exec_tasks_def)
  have changed: "length (db_tasks (snd (exec_changed P f s))) = length (db_tasks s)" for P f s
    unfolding exec_changed_def by (rule db_call_preserves) (auto simp: exec_tasks_def)
  have claim: "length (db_tasks (snd (claim_next_task s))) = length (db_tasks s)"
    unfolding claim_next_task_def
    by (rule db_call_preserves) (auto simp: exec_tasks_def Let_def split: list.splits)
  have retry: "length (db_tasks (snd (retry_task tid b s))) = length (db_tasks s)" for tid b
    unfolding retry_task_def by (rule db_call_preserves) (auto simp: exec_tasks_def)
  have promote: "length (db_tasks (snd (promote_pending_dependents up s))) = length (db_tasks s)" for up
    unfolding promote_pending_dependents_def
    by (rule db_call_preserves) (auto simp: exec_tasks_def Let_def)
  have recover: "length (db_tasks (snd (recover_stale_running s))) = length (db_tasks s)"
    unfolding recover_stale_running_def by (rule db_call_preserves) (auto simp: exec_tasks_def)
  have block: "length (db_tasks (snd (block_dependents up reason s))) = length (db_tasks s)" for up reason
    using block_dependents_db [of up reason s] ok by (metis block_rows_def)
  have del: "length (db_tasks (snd (purge_delete secs limit s))) \<le> length (db_tasks s)" for secs limit
    unfolding purge_delete_def
    by (rule db_call_preserves) (auto simp: delete_where_def Let_def)
  show ?thesis
    using assms
    by (cases x) (simp_all add: ok changed claim retry promote recover block del
        purge_finished_tasks_db update_task_progress_def set_task_session_def complete_task_def
        set_task_ai_summary_def fail_task_def cancel_task_def unblock_task_def
        promote_scheduled_task_def set_task_last_fired_at_ptr_def claim_recurring_fire_def
        cancel_scheduled_task_def)
qed

lemma run_op_wf:
  assumes "wf_tasks (db_tasks s)" and "op_guard x s"
  shows "wf_tasks (db_tasks (run_op x s))"
proof (cases "\<exists>t st. x = OpCreate t st")
  case True
  then show ?thesis using assms create_guarded by blast
next
  case False
  then show ?thesis
    using assms(1) table_step_wf [OF run_op_table_step] run_op_shrinks by blast
qed

fun ops_guarded :: "task_op list \<Rightarrow> db \<Rightarrow> bool" where
  "ops_guarded [] s \<longleftrightarrow> True"
| "ops_guarded (x # xs) s \<longleftrightarrow> op_guard x s \<and> ops_guarded xs (run_op x s)"

lemma run_ops_wf: "wf_tasks (db_tasks s) \<Longrightarrow> ops_guarded xs s \<Longrightarrow> wf_tasks (db_tasks (run_ops xs s))"
  by (induction xs arbitrary: s) (auto simp: run_op_wf)

end
