(* ===== verification/Json.thy ===== *)
theory Json
  imports GoStrings
begin

text \<open>
  JSON documents, and what \<open>encoding/json\<close> does when it stores one in a Go value: object keys
  match a field's name regardless of case, a later key overrides an earlier one, \<open>null\<close> leaves a
  field alone, unknown keys are ignored and a value of the wrong kind is an error. The reading of
  a document from bytes is in \<open>JsonText\<close>, its writing in \<open>JsonPrint\<close>.
\<close>

datatype json =
    JNull
  | JBool bool
  | JNum string
  | JStr string
  | JArr "json list"
  | JObj "(string \<times> json) list"

text \<open>The text of a type error is abbreviated: the names of the Go types are left out.\<close>

definition type_error :: string where
  "type_error = ''json: cannot unmarshal''"

definition field_vals :: "string \<Rightarrow> (string \<times> json) list \<Rightarrow> json list" where
  "field_vals key kvs = filter (\<lambda>v. v \<noteq> JNull) (map snd (filter (\<lambda>(k, _). equal_fold k key) kvs))"

fun as_str :: "json \<Rightarrow> string option" where
  "as_str (JStr s) = Some s"
| "as_str _ = None"

fun as_bool :: "json \<Rightarrow> bool option" where
  "as_bool (JBool b) = Some b"
| "as_bool _ = None"

fun as_int :: "json \<Rightarrow> int option" where
  "as_int (JNum s) = atoi s"
| "as_int _ = None"

text \<open>Stores into a field of an elementary type: every value must fit, the last one stays.\<close>

fun store_vals :: "(json \<Rightarrow> 'a option) \<Rightarrow> 'a \<Rightarrow> json list \<Rightarrow> 'a option" where
  "store_vals dec acc [] = Some acc"
| "store_vals dec acc (v # vs) =
     (case dec v of None \<Rightarrow> None | Some x \<Rightarrow> store_vals dec x vs)"

definition str_field :: "string \<Rightarrow> (string \<times> json) list \<Rightarrow> string option" where
  "str_field key kvs = store_vals as_str '''' (field_vals key kvs)"

definition bool_field :: "string \<Rightarrow> (string \<times> json) list \<Rightarrow> bool option" where
  "bool_field key kvs = store_vals as_bool False (field_vals key kvs)"

definition int_field :: "string \<Rightarrow> (string \<times> json) list \<Rightarrow> int option" where
  "int_field key kvs = store_vals as_int 0 (field_vals key kvs)"

text \<open>A pointer field: \<open>None\<close> inside when the key is absent or \<open>null\<close>.\<close>

definition ptr_field :: "(json \<Rightarrow> 'a option) \<Rightarrow> string \<Rightarrow> (string \<times> json) list \<Rightarrow> 'a option option" where
  "ptr_field dec key kvs = store_vals (\<lambda>v. map_option Some (dec v)) None (field_vals key kvs)"

text \<open>A slice whose elements are stored with \<open>dec\<close>; \<open>null\<close> is the nil slice.\<close>

fun as_list :: "(json \<Rightarrow> 'a option) \<Rightarrow> json \<Rightarrow> 'a list option" where
  "as_list dec (JArr vs) = those (map dec vs)"
| "as_list dec JNull = Some []"
| "as_list dec _ = None"

definition list_field :: "(json \<Rightarrow> 'a option) \<Rightarrow> string \<Rightarrow> (string \<times> json) list \<Rightarrow> 'a list option" where
  "list_field dec key kvs = store_vals (as_list dec) [] (field_vals key kvs)"

text \<open>A struct: an object, or \<open>null\<close>, which stores nothing.\<close>

fun as_obj :: "((string \<times> json) list \<Rightarrow> 'a option) \<Rightarrow> json \<Rightarrow> 'a option" where
  "as_obj dec (JObj kvs) = dec kvs"
| "as_obj dec JNull = dec []"
| "as_obj dec _ = None"

text \<open>A map from strings: the last entry of a key stays.\<close>

definition map_entry :: "string \<Rightarrow> (string \<times> json) list \<Rightarrow> json option" where
  "map_entry key kvs = map_of (rev kvs) key"

lemma store_vals_last:
  "store_vals dec acc vs = Some x \<Longrightarrow> vs \<noteq> [] \<Longrightarrow> dec (last vs) = Some x"
  by (induction vs arbitrary: acc) (auto split: option.splits if_splits)

lemma field_vals_Nil [simp]: "field_vals key [] = []"
  by (simp add: field_vals_def)

end
