(* ===== verification/Hub.thy ===== *)
theory Hub
  imports Json
begin

text \<open>
  The push hub of \<open>internal/push\<close>: messages, their severity, the set of connected clients and the
  fan-out of a broadcast. Connections are numbers; a write to a connection is a call into the
  websocket library, so whether it succeeds is an argument (\<open>ok\<close>). Go iterates over a map of
  clients in an unspecified order; the model takes the order of the list \<open>h_clients\<close>.
  The mutex makes each operation on the client set atomic, so operations are functions on the
  state.
\<close>

record message =
  m_type :: string
  m_payload :: json
  m_severity :: string

abbreviation Info :: string where "Info \<equiv> ''info''"

abbreviation Warning :: string where "Warning \<equiv> ''warning''"

abbreviation Critical :: string where "Critical \<equiv> ''critical''"

definition severity_for :: "string \<Rightarrow> string" where
  "severity_for status =
     (if status = ''failed'' then Critical
      else if status = ''retrying'' \<or> status = ''blocked'' then Warning
      else Info)"

type_synonym conn = nat

record hub =
  h_clients :: "conn list"
  h_closed :: "conn list"
  h_sent :: "(conn \<times> message) list"
  h_done :: bool

definition new_hub :: hub where
  "new_hub = \<lparr>h_clients = [], h_closed = [], h_sent = [], h_done = False\<rparr>"

definition register :: "conn \<Rightarrow> hub \<Rightarrow> hub" where
  "register c h = h\<lparr>h_clients := (if c \<in> set (h_clients h) then h_clients h else h_clients h @ [c])\<rparr>"

definition unregister :: "conn \<Rightarrow> hub \<Rightarrow> hub" where
  "unregister c h =
     (if c \<notin> set (h_clients h) then h
      else h\<lparr>h_clients := filter (\<lambda>x. x \<noteq> c) (h_clients h), h_closed := h_closed h @ [c]\<rparr>)"

definition client_count :: "hub \<Rightarrow> nat" where
  "client_count h = length (h_clients h)"

text \<open>\<open>Write\<close>: the connection takes the message, or reports an error.\<close>

definition write_msg :: "(conn \<Rightarrow> message \<Rightarrow> bool) \<Rightarrow> conn \<Rightarrow> message \<Rightarrow> hub \<Rightarrow> bool \<times> hub" where
  "write_msg ok c m h = (if ok c m then (True, h\<lparr>h_sent := h_sent h @ [(c, m)]\<rparr>) else (False, h))"

fun fan_out :: "(conn \<Rightarrow> message \<Rightarrow> bool) \<Rightarrow> message \<Rightarrow> conn list \<Rightarrow> hub \<Rightarrow> hub" where
  "fan_out ok m [] h = h"
| "fan_out ok m (c # cs) h =
     (case write_msg ok c m h of
        (True, h') \<Rightarrow> fan_out ok m cs h'
      | (False, h') \<Rightarrow> fan_out ok m cs (unregister c h'))"

definition broadcast :: "(conn \<Rightarrow> message \<Rightarrow> bool) \<Rightarrow> message \<Rightarrow> hub \<Rightarrow> hub" where
  "broadcast ok m h = fan_out ok m (h_clients h) h"

text \<open>\<open>Stop\<close> lets \<open>Run\<close> go on, which closes what is left.\<close>

definition stop :: "hub \<Rightarrow> hub" where
  "stop h = h\<lparr>h_done := True\<rparr>"

definition run_hub :: "hub \<Rightarrow> hub" where
  "run_hub h = (if h_done h then h\<lparr>h_clients := [], h_closed := h_closed h @ h_clients h\<rparr> else h)"

definition received :: "conn \<Rightarrow> hub \<Rightarrow> message list" where
  "received c h = map snd (filter (\<lambda>(x, _). x = c) (h_sent h))"

definition hub_invar :: "hub \<Rightarrow> bool" where
  "hub_invar h \<longleftrightarrow> distinct (h_clients h) \<and> set (h_clients h) \<inter> set (h_closed h) = {}"

lemma unregister_invar: "hub_invar h \<Longrightarrow> hub_invar (unregister c h)"
  by (auto simp: hub_invar_def unregister_def)

lemma fan_out_shape:
  assumes "distinct cs" and "set cs \<subseteq> set (h_clients h)"
  shows "h_clients (fan_out ok m cs h) = filter (\<lambda>c. c \<in> set cs \<longrightarrow> ok c m) (h_clients h)
     \<and> h_sent (fan_out ok m cs h) = h_sent h @ map (\<lambda>c. (c, m)) (filter (\<lambda>c. ok c m) cs)
     \<and> h_closed (fan_out ok m cs h) = h_closed h @ filter (\<lambda>c. \<not> ok c m) cs"
  using assms
proof (induction cs arbitrary: h)
  case Nil
  then show ?case by simp
next
  case (Cons c cs)
  show ?case
  proof (cases "ok c m")
    case True
    then show ?thesis
      using Cons.IH[of "h\<lparr>h_sent := h_sent h @ [(c, m)]\<rparr>"] Cons.prems
      by (auto simp: write_msg_def intro!: filter_cong)
  next
    case False
    have sub: "set cs \<subseteq> set (h_clients (unregister c h))"
      using Cons.prems by (auto simp: unregister_def)
    show ?thesis
      using Cons.IH[OF _ sub] Cons.prems False
      by (auto simp: write_msg_def unregister_def intro!: filter_cong)
  qed
qed

lemma fan_out_done [simp]: "h_done (fan_out ok m cs h) = h_done h"
  by (induction cs arbitrary: h) (auto simp: write_msg_def unregister_def)

lemma broadcast_shape:
  assumes "hub_invar h"
  shows "h_clients (broadcast ok m h) = filter (\<lambda>c. ok c m) (h_clients h)"
    and "h_sent (broadcast ok m h) = h_sent h @ map (\<lambda>c. (c, m)) (filter (\<lambda>c. ok c m) (h_clients h))"
    and "h_closed (broadcast ok m h) = h_closed h @ filter (\<lambda>c. \<not> ok c m) (h_clients h)"
  using fan_out_shape[of "h_clients h" h ok m] assms
  by (auto simp: broadcast_def hub_invar_def intro!: filter_cong)

lemma broadcast_invar: "hub_invar h \<Longrightarrow> hub_invar (broadcast ok m h)"
  by (auto simp: broadcast_shape hub_invar_def)

lemma received_broadcast:
  assumes "hub_invar h"
  shows "received c (broadcast ok m h) =
     received c h @ (if c \<in> set (h_clients h) \<and> ok c m then [m] else [])"
proof -
  have d: "distinct (filter (\<lambda>c. ok c m) (h_clients h))"
    using assms by (simp add: hub_invar_def)
  have aux: "distinct xs \<Longrightarrow> map snd (filter (\<lambda>(x, _). x = c) (map (\<lambda>c. (c, m)) xs)) =
     (if c \<in> set xs then [m] else [])" for xs
    by (induction xs) auto
  show ?thesis
    using aux[OF d] by (simp add: received_def broadcast_shape[OF assms])
qed

fun broadcasts :: "(conn \<Rightarrow> message \<Rightarrow> bool) \<Rightarrow> message list \<Rightarrow> hub \<Rightarrow> hub" where
  "broadcasts ok [] h = h"
| "broadcasts ok (m # ms) h = broadcasts ok ms (broadcast ok m h)"

text \<open>
  Delivery. Every client connected when a sequence of messages is broadcast receives exactly
  the messages up to the first one it fails to take, in the order of the broadcasts and after
  what it had received before: nothing is lost, repeated or reordered for a client that stays
  healthy, and a client that fails once is sent nothing afterwards.
\<close>
lemma broadcasts_deliver_in_order:
  assumes "hub_invar h" and "c \<in> set (h_clients h)"
  shows "received c (broadcasts ok ms h) = received c h @ takeWhile (ok c) ms"
  using assms
proof (induction ms arbitrary: h)
  case Nil
  then show ?case by simp
next
  case (Cons m ms)
  have inv: "hub_invar (broadcast ok m h)" by (rule broadcast_invar) fact
  have gone: "hub_invar h' \<Longrightarrow> c \<notin> set (h_clients h') \<Longrightarrow> received c (broadcasts ok xs h') = received c h'"
    for h' xs
    by (induction xs arbitrary: h') (auto simp: broadcast_invar broadcast_shape received_broadcast)
  show ?case
  proof (cases "ok c m")
    case True
    then show ?thesis
      using Cons.IH[OF inv] Cons.prems by (simp add: broadcast_shape received_broadcast)
  next
    case False
    then show ?thesis
      using gone[OF inv] Cons.prems by (simp add: broadcast_shape received_broadcast)
  qed
qed

lemma broadcasts_deliver_in_order_witness:
  "received 1 (broadcasts (\<lambda>c m. c = 1 \<longrightarrow> m_type m \<noteq> ''x'')
      [\<lparr>m_type = ''a'', m_payload = JNull, m_severity = Info\<rparr>,
       \<lparr>m_type = ''x'', m_payload = JNull, m_severity = Info\<rparr>,
       \<lparr>m_type = ''b'', m_payload = JNull, m_severity = Info\<rparr>] (register 2 (register 1 new_hub)))
    = [\<lparr>m_type = ''a'', m_payload = JNull, m_severity = Info\<rparr>]"
  by (subst broadcasts_deliver_in_order)
    (simp_all add: hub_invar_def register_def new_hub_def received_def)

end
