(* ===== verification/Executor.thy ===== *)
theory Executor
  imports TaskMachine Hub
begin

text \<open>
  The task executor of \<open>internal/tasks/executor.go\<close>. A worker shares the database with the other
  workers, the HTTP handlers and the scheduler, so the state it runs in (\<open>world\<close>) has a schedule of
  what those do: before each call of a store method, the head of \<open>w_sched\<close> runs. The messages it
  broadcasts are collected in \<open>w_out\<close>, the goroutines it starts for the language model in
  \<open>w_jobs\<close>. The OpenCode server and the language model are not part of the program: their answers
  are the fields of \<open>env\<close>, which say nothing of what the answers are.
\<close>

subsection \<open>The state and the environment\<close>

datatype job = SummaryJob string string string | FailureJob string string string

record world =
  w_db :: db
  w_out :: "message list"
  w_jobs :: "job list"
  w_sched :: "task_op list list"

text \<open>One call of a store method, after what others did meanwhile.\<close>

definition others :: "world \<Rightarrow> world" where
  "others w = (case w_sched w of
     [] \<Rightarrow> w
   | xs # rest \<Rightarrow> w\<lparr>w_db := run_ops xs (w_db w), w_sched := rest\<rparr>)"

definition call :: "(db \<Rightarrow> 'r \<times> db) \<Rightarrow> world \<Rightarrow> 'r \<times> world" where
  "call f w = (case f (w_db (others w)) of (r, s) \<Rightarrow> (r, (others w)\<lparr>w_db := s\<rparr>))"

text \<open>\<open>_ = e.store.F(...)\<close>\<close>

definition run_call :: "(db \<Rightarrow> 'r \<times> db) \<Rightarrow> world \<Rightarrow> world" where
  "run_call f w = snd (call f w)"

definition advance :: "duration \<Rightarrow> world \<Rightarrow> world" where
  "advance d w = w\<lparr>w_db := (w_db w)\<lparr>db_clock := db_clock (w_db w) + d\<rparr>\<rparr>"

definition now :: "world \<Rightarrow> time" where
  "now w = db_clock (w_db w)"

text \<open>An HTTP response: status code and text, body, and the body read as JSON.\<close>

record response =
  h_code :: int
  h_status :: string
  h_raw :: string
  h_json :: "string + json"

datatype system_prompt = SummarySystem | FailureDecisionSystem | AnalyzeFailureSystem

record env =
  v_create :: "string \<Rightarrow> string + response"
  v_prompt :: "string \<Rightarrow> string \<Rightarrow> string \<Rightarrow> string + response"
  v_ctx :: "nat \<Rightarrow> string option"
  v_status :: "nat \<Rightarrow> string + response"
  v_messages :: "string \<Rightarrow> string + response"
  v_llm_json :: "system_prompt \<Rightarrow> string \<Rightarrow> string + json"

record executor =
  x_llm :: bool
  x_max_retries :: int
  x_workers :: int
  x_retention :: duration

definition new_executor :: executor where
  "new_executor = \<lparr>x_llm = False, x_max_retries = 2, x_workers = 4, x_retention = 0\<rparr>"

definition with_max_retries :: "int \<Rightarrow> executor \<Rightarrow> executor" where
  "with_max_retries n e = e\<lparr>x_max_retries := (if n < 0 then 0 else n)\<rparr>"

definition with_workers :: "int \<Rightarrow> executor \<Rightarrow> executor" where
  "with_workers n e = e\<lparr>x_workers := (if n < 1 then 1 else n)\<rparr>"

definition with_retention :: "duration \<Rightarrow> executor \<Rightarrow> executor" where
  "with_retention d e = e\<lparr>x_retention := (if d < 0 then 0 else d)\<rparr>"

definition with_llm :: "bool \<Rightarrow> executor \<Rightarrow> executor" where
  "with_llm enabled e = e\<lparr>x_llm := enabled\<rparr>"

subsection \<open>Events\<close>

definition broadcast_msg :: "message \<Rightarrow> world \<Rightarrow> world" where
  "broadcast_msg m w = w\<lparr>w_out := w_out w @ [m]\<rparr>"

definition push_task_event :: "string \<Rightarrow> (string \<times> json) list \<Rightarrow> world \<Rightarrow> world" where
  "push_task_event status payload = broadcast_msg \<lparr>m_type = ''task.event'', m_payload = JObj payload,
     m_severity = severity_for status\<rparr>"

definition push_task :: "string \<Rightarrow> string \<Rightarrow> world \<Rightarrow> world" where
  "push_task status tid = push_task_event status [(''id'', JStr tid), (''status'', JStr status)]"

definition truncate_str :: "string \<Rightarrow> nat \<Rightarrow> string" where
  "truncate_str s n = (if length s \<le> n then s else take n s @ ''...'')"

text \<open>The labels of the prompts for the language model, in UTF-8.\<close>

definition label_prompt :: string where
  "label_prompt = map (char_of :: nat \<Rightarrow> char)
     [228, 187, 187, 229, 138, 161, 230, 140, 135, 228, 187, 164, 239, 188, 154]"

definition label_failure :: string where
  "label_failure = map (char_of :: nat \<Rightarrow> char)
     [10, 10, 229, 164, 177, 232, 180, 165, 228, 191, 161, 230, 129, 175, 239, 188, 154]"

definition label_result :: string where
  "label_result = map (char_of :: nat \<Rightarrow> char)
     [10, 10, 230, 137, 167, 232, 161, 140, 231, 187, 147, 230, 158, 156, 239, 188, 154, 10]"

definition push_summary :: "executor \<Rightarrow> task \<Rightarrow> string \<Rightarrow> world \<Rightarrow> world" where
  "push_summary e t res w =
     (if x_llm e then w\<lparr>w_jobs := w_jobs w @ [SummaryJob (t_id t) (t_prompt t) res]\<rparr> else w)"

definition push_failure_analysis :: "executor \<Rightarrow> task \<Rightarrow> string \<Rightarrow> world \<Rightarrow> world" where
  "push_failure_analysis e t err w =
     (if x_llm e then w\<lparr>w_jobs := w_jobs w @ [FailureJob (t_id t) (t_prompt t) err]\<rparr> else w)"

text \<open>The bodies of the two goroutines, given how the language model answers.\<close>

fun job_prompt :: "job \<Rightarrow> system_prompt \<times> string" where
  "job_prompt (SummaryJob tid p res) =
     (SummarySystem, label_prompt @ p @ label_result @ truncate_str res 4000)"
| "job_prompt (FailureJob tid p err) =
     (AnalyzeFailureSystem, label_prompt @ p @ label_failure @ truncate_str err 4000)"

fun run_job :: "(system_prompt \<Rightarrow> string \<Rightarrow> string + string) \<Rightarrow> job \<Rightarrow> world \<Rightarrow> world" where
  "run_job complete (SummaryJob tid p res) w =
     (case complete (fst (job_prompt (SummaryJob tid p res))) (snd (job_prompt (SummaryJob tid p res))) of
        Inl _ \<Rightarrow> w
      | Inr summ \<Rightarrow> broadcast_msg \<lparr>m_type = ''task.summary'',
            m_payload = JObj [(''id'', JStr tid), (''summary'', JStr summ)], m_severity = Info\<rparr>
          (run_call (set_task_ai_summary tid summ) w))"
| "run_job complete (FailureJob tid p err) w =
     (case complete (fst (job_prompt (FailureJob tid p err))) (snd (job_prompt (FailureJob tid p err))) of
        Inl _ \<Rightarrow> w
      | Inr txt \<Rightarrow> broadcast_msg \<lparr>m_type = ''task.failure'',
            m_payload = JObj [(''id'', JStr tid), (''analysis'', JStr txt)], m_severity = Critical\<rparr>
          (run_call (set_task_ai_summary tid txt) w))"

fun push_each :: "string \<Rightarrow> (string \<Rightarrow> (string \<times> json) list) \<Rightarrow> string list \<Rightarrow> world \<Rightarrow> world" where
  "push_each status payload [] w = w"
| "push_each status payload (d # ds) w =
     push_each status payload ds (push_task_event status (payload d) w)"

definition resolve_dependents :: "string \<Rightarrow> bool \<Rightarrow> string \<Rightarrow> world \<Rightarrow> world" where
  "resolve_dependents tid succeed reason0 w =
     (if succeed then
        (case call (promote_pending_dependents tid) w of
           (Inl _, w1) \<Rightarrow> w1
         | (Inr ids, w1) \<Rightarrow> push_each ''queued'' (\<lambda>d. [(''id'', JStr d), (''status'', JStr ''queued''),
               (''upstream'', JStr tid)]) ids w1)
      else
        (let reason = (if reason0 = '''' then ''upstream task failed'' else reason0)
         in case call (block_dependents tid reason) w of
           (Inl _, w1) \<Rightarrow> w1
         | (Inr ids, w1) \<Rightarrow> push_each ''blocked'' (\<lambda>d. [(''id'', JStr d), (''status'', JStr ''blocked''),
               (''upstream'', JStr tid), (''reason'', JStr reason)]) ids w1))"

subsection \<open>The clock\<close>

lemma db_call_clock:
  "(\<And>s. db_clock (snd (f s)) = db_clock s) \<Longrightarrow> db_clock (snd (db_call f s)) = db_clock s"
  by (rule db_call_preserves[where Q = "\<lambda>s'. db_clock s' = db_clock s"]) simp_all

lemma exec_clock [simp]:
  "db_clock (snd (exec_ok P f s)) = db_clock s"
  "db_clock (snd (exec_changed P g s)) = db_clock s"
  unfolding exec_ok_def exec_changed_def
  by (rule db_call_clock; simp add: exec_tasks_def)+

lemma method_clock [simp]:
  "db_clock (snd (create_task_with_status t st s)) = db_clock s"
  "db_clock (snd (claim_next_task s)) = db_clock s"
  "db_clock (snd (retry_task tid b s)) = db_clock s"
  "db_clock (snd (promote_pending_dependents tid s)) = db_clock s"
  "db_clock (snd (dependent_ids tid sts s)) = db_clock s"
  "db_clock (snd (recover_stale_running s)) = db_clock s"
  "db_clock (snd (is_task_canceled tid s)) = db_clock s"
  "db_clock (snd (purge_delete secs limit s)) = db_clock s"
  "db_clock (snd (purge_kept secs s)) = db_clock s"
  unfolding create_task_with_status_def claim_next_task_def retry_task_def dependent_ids_def
    promote_pending_dependents_def recover_stale_running_def is_task_canceled_def
    purge_delete_def purge_kept_def
  by (auto intro!: db_call_clock simp: exec_tasks_def Let_def split: list.splits)

lemma block_dependents_clock [simp]: "db_clock (snd (block_dependents tid reason s)) = db_clock s"
proof -
  have 1: "dependent_ids tid [TaskPending] s = (r, s1) \<Longrightarrow> db_clock s1 = db_clock s" for r s1
    by (metis method_clock(5) snd_conv)
  have 2: "block_rows tid reason s1 = (r, s2) \<Longrightarrow> db_clock s2 = db_clock s1" for r s1 s2
    by (metis block_rows_def exec_clock(1) snd_conv)
  show ?thesis
    unfolding block_dependents_def by (auto split: prod.splits sum.splits dest!: 1 2)
qed

lemma purge_clock [simp]: "db_clock (snd (purge_finished_tasks older limit s)) = db_clock s"
proof -
  have 1: "purge_delete secs l s = (r, s1) \<Longrightarrow> db_clock s1 = db_clock s" for secs l r s1
    by (metis method_clock(8) snd_conv)
  have 2: "purge_kept secs s1 = (r, s2) \<Longrightarrow> db_clock s2 = db_clock s1" for secs r s1 s2
    by (metis method_clock(9) snd_conv)
  show ?thesis
    unfolding purge_finished_tasks_def by (auto simp: Let_def split: prod.splits sum.splits dest!: 1 2)
qed

lemma run_op_clock: "db_clock s \<le> db_clock (run_op x s)"
  by (cases x) (simp_all add: update_task_progress_def set_task_session_def complete_task_def
      set_task_ai_summary_def fail_task_def cancel_task_def unblock_task_def
      promote_scheduled_task_def set_task_last_fired_at_ptr_def claim_recurring_fire_def
      cancel_scheduled_task_def)

lemma run_ops_clock: "db_clock s \<le> db_clock (run_ops xs s)"
  by (induction xs arbitrary: s) (auto intro: order_trans[OF run_op_clock])

lemma others_clock: "now w \<le> now (others w)"
  by (auto simp: others_def now_def run_ops_clock split: list.splits)

lemma run_call_clock:
  assumes "\<And>s. db_clock (snd (f s)) = db_clock s"
  shows "now w \<le> now (run_call f w)"
  using assms[of "w_db (others w)"] others_clock[of w]
  by (auto simp: run_call_def call_def now_def split: prod.splits)

lemma now_advance [simp]: "now (advance d w) = now w + d"
  by (simp add: now_def advance_def)

subsection \<open>Talking to the OpenCode server\<close>

datatype exec_error = ErrCanceled | ExecErr string

definition create_session :: "env \<Rightarrow> string \<Rightarrow> string + string" where
  "create_session v dir =
     (case v_create v dir of
        Inl e \<Rightarrow> Inl e
      | Inr r \<Rightarrow>
          if 300 \<le> h_code r then Inl (''create session: '' @ h_status r)
          else case h_json r of
            Inl e \<Rightarrow> Inl (''create session: parse: '' @ e)
          | Inr doc \<Rightarrow>
              (case as_obj (str_field ''id'') doc of
                 None \<Rightarrow> Inl (''create session: parse: '' @ type_error)
               | Some sid \<Rightarrow> if sid = '''' then Inl ''create session: empty id in response''
                             else Inr sid))"

definition is_session_busy :: "string + response \<Rightarrow> string \<Rightarrow> string + bool" where
  "is_session_busy resp sid =
     (case resp of
        Inl e \<Rightarrow> Inl e
      | Inr r \<Rightarrow>
          (case h_json r of
             Inl e \<Rightarrow> Inl e
           | Inr JNull \<Rightarrow> Inr False
           | Inr (JObj kvs) \<Rightarrow>
               if \<exists>kv \<in> set kvs. as_obj (str_field ''type'') (snd kv) = None then Inl type_error
               else (case map_entry sid kvs of
                       None \<Rightarrow> Inr False
                     | Some st \<Rightarrow> Inr (as_obj (str_field ''type'') st = Some ''busy''))
           | Inr _ \<Rightarrow> Inl type_error))"

definition content_block :: "(string \<times> json) list \<Rightarrow> (string \<times> string) option" where
  "content_block kvs =
     (case (str_field ''type'' kvs, str_field ''text'' kvs) of
        (Some ty, Some tx) \<Rightarrow> Some (ty, tx)
      | _ \<Rightarrow> None)"

definition chat_message :: "(string \<times> json) list \<Rightarrow> (string \<times> (string \<times> string) list) option" where
  "chat_message kvs =
     (case (str_field ''role'' kvs, list_field (as_obj content_block) ''content'' kvs) of
        (Some role, Some blocks) \<Rightarrow> Some (role, blocks)
      | _ \<Rightarrow> None)"

text \<open>The scan from the last message to the first for an assistant message with text in it.\<close>

definition block_texts :: "(string \<times> string) list \<Rightarrow> string list" where
  "block_texts bs = map snd (filter (\<lambda>(ty, tx). ty = ''text'' \<and> tx \<noteq> '''') bs)"

fun scan_messages :: "(string \<times> (string \<times> string) list) list \<Rightarrow> string" where
  "scan_messages [] = ''(no assistant text)''"
| "scan_messages ((role, bs) # ms) =
     (if role \<noteq> ''assistant'' then scan_messages ms
      else if block_texts bs \<noteq> [] then join ''\<newline>'' (block_texts bs)
      else scan_messages ms)"

definition last_assistant_text :: "string + response \<Rightarrow> string + string" where
  "last_assistant_text resp =
     (case resp of
        Inl e \<Rightarrow> Inl e
      | Inr r \<Rightarrow>
          if 300 \<le> h_code r then Inl (''get session messages: '' @ h_status r)
          else case h_json r of
            Inl e \<Rightarrow> Inl (''parse session messages: '' @ e)
          | Inr doc \<Rightarrow>
              (case as_list (as_obj chat_message) doc of
                 None \<Rightarrow> Inl (''parse session messages: '' @ type_error)
               | Some ms \<Rightarrow> Inr (scan_messages (rev ms))))"

text \<open>\<open>canceled\<close>: an error of the store counts as not canceled.\<close>

definition check_canceled :: "string \<Rightarrow> world \<Rightarrow> bool \<times> world" where
  "check_canceled tid w =
     (case call (is_task_canceled tid) w of (r, w1) \<Rightarrow> (r = Inr True, w1))"

lemma check_canceled_clock: "check_canceled tid w = (b, w1) \<Longrightarrow> now w \<le> now w1"
  using run_call_clock[of "is_task_canceled tid" w]
  by (auto simp: check_canceled_def run_call_def split: prod.splits)

lemma progress_clock: "now w \<le> now (run_call (update_task_progress tid p) w)"
  by (rule run_call_clock) (simp add: update_task_progress_def)

text \<open>
  The wait for the session to become idle. Every round sleeps three seconds and the deadline is
  fixed, so the loop ends: the measure is the time left.
\<close>

function wait_idle :: "env \<Rightarrow> string \<Rightarrow> string \<Rightarrow> time \<Rightarrow> nat \<Rightarrow> world \<Rightarrow> (exec_error + unit) \<times> world" where
  "wait_idle v sid tid deadline i w =
     (if \<not> now w < deadline then (Inr (), w)
      else case v_ctx v i of
        Some e \<Rightarrow> (Inl (ExecErr e), w)
      | None \<Rightarrow>
          (case check_canceled tid w of (stopped, w1) \<Rightarrow>
             if stopped then (Inl ErrCanceled, w1)
             else (case is_session_busy (v_status v i) sid of
                     Inl e \<Rightarrow> (Inl (ExecErr e), advance (3 * second) w1)
                   | Inr busy \<Rightarrow>
                       if \<not> busy then (Inr (), advance (3 * second) w1)
                       else wait_idle v sid tid deadline (Suc i)
                              (run_call (update_task_progress tid ''agent working...'')
                                 (advance (3 * second) w1)))))"
  by pat_completeness auto

termination
proof (relation "measure (\<lambda>(v, sid, tid, deadline, i, w). nat (deadline - now w))", simp)
  fix v sid tid deadline i w x stopped w1 busy
  assume lt: "\<not> \<not> now w < deadline" and c: "(stopped, w1) = check_canceled tid w"
  from check_canceled_clock[OF c[symmetric]]
    progress_clock[of "advance (3 * second) w1" tid "''agent working...''"]
  have "now w < now (run_call (update_task_progress tid ''agent working...'') (advance (3 * second) w1))"
    by simp
  with lt show "((v, sid, tid, deadline, Suc i,
        run_call (update_task_progress tid ''agent working...'') (advance (3 * second) w1)),
      (v, sid, tid, deadline, i, w)) \<in> measure (\<lambda>(v, sid, tid, deadline, i, w). nat (deadline - now w))"
    by simp
qed

declare wait_idle.simps [simp del]

definition prompt_session :: "env \<Rightarrow> string \<Rightarrow> task \<Rightarrow> world \<Rightarrow> (exec_error + string) \<times> world" where
  "prompt_session v sid t w =
     (case v_prompt v sid (t_prompt t) (t_dir t) of
        Inl e \<Rightarrow> (Inl (ExecErr e), w)
      | Inr r \<Rightarrow>
          if 300 \<le> h_code r then (Inl (ExecErr (''prompt: '' @ h_status r @ '': '' @ h_raw r)), w)
          else
            (let w1 = run_call (update_task_progress (t_id t) ''prompt admitted'') w;
                 deadline = now w1 + 10 * minute
             in case wait_idle v sid (t_id t) deadline 0 w1 of
                  (Inl e, w2) \<Rightarrow> (Inl e, w2)
                | (Inr _, w2) \<Rightarrow>
                    (case last_assistant_text (v_messages v sid) of
                       Inl e \<Rightarrow> (Inl (ExecErr e), w2)
                     | Inr txt \<Rightarrow> (Inr txt, w2))))"

subsection \<open>Failures\<close>

datatype outcome = Returned | Panicked string

text \<open>\<open>5 * (1 << (attempts - 1))\<close> in 64 bits, cut off at 120; a negative shift count panics.\<close>

definition backoff :: "int \<Rightarrow> int option" where
  "backoff attempts =
     (if attempts < 1 then None
      else (let b = wrap64 (5 * wrap64 (2 ^ nat (attempts - 1))) in Some (if 120 < b then 120 else b)))"

definition decide_failure :: "env \<Rightarrow> string \<Rightarrow> string \<Rightarrow> string + (string \<times> string)" where
  "decide_failure v p err =
     (case v_llm_json v FailureDecisionSystem (label_prompt @ p @ label_failure @ truncate_str err 4000) of
        Inl e \<Rightarrow> Inl e
      | Inr doc \<Rightarrow>
          (case as_obj (\<lambda>kvs. case (str_field ''action'' kvs, str_field ''reason'' kvs) of
                   (Some a, Some r) \<Rightarrow> Some (a, r) | _ \<Rightarrow> None) doc of
             None \<Rightarrow> Inl type_error
           | Some d \<Rightarrow> Inr d))"

text \<open>The end of a task that will not be tried again.\<close>

definition give_up :: "task \<Rightarrow> string \<Rightarrow> world \<Rightarrow> world" where
  "give_up t err w =
     push_task ''failed'' (t_id t)
       (resolve_dependents (t_id t) False err (run_call (fail_task (t_id t) err) w))"

definition fail_with_retry :: "executor \<Rightarrow> env \<Rightarrow> task \<Rightarrow> string \<Rightarrow> world \<Rightarrow> outcome \<times> world" where
  "fail_with_retry e v t err w =
     (if x_max_retries e < t_attempts t then
        (let verdict = (if \<not> contains (t_progress t) ''llm-retry'' \<and> x_llm e
                        then decide_failure v (t_prompt t) err else Inl '''')
         in case verdict of
              Inr (action, reason) \<Rightarrow>
                if action = ''retry'' then
                  (Returned, push_task ''retrying'' (t_id t)
                     (run_call (update_task_progress (t_id t) (''llm-retry: '' @ reason))
                       (run_call (retry_task (t_id t) 60) w)))
                else
                  (let err' = (if reason \<noteq> '''' then err @ '' | '' @ reason else err)
                   in (Returned, push_failure_analysis e t err' (give_up t err' w)))
            | Inl _ \<Rightarrow> (Returned, push_failure_analysis e t err (give_up t err w)))
      else
        (case backoff (t_attempts t) of
           None \<Rightarrow> (Panicked ''runtime error: negative shift amount'', w)
         | Some b \<Rightarrow>
             (case call (retry_task (t_id t) b) w of
                (Inl _, w1) \<Rightarrow> (Returned, give_up t err w1)
              | (Inr _, w1) \<Rightarrow> (Returned, push_task ''retrying'' (t_id t) w1))))"

subsection \<open>One task\<close>

definition settle_canceled :: "string \<Rightarrow> world \<Rightarrow> world" where
  "settle_canceled tid w =
     push_task ''canceled'' tid (resolve_dependents tid False ''upstream task canceled'' w)"

text \<open>Step 2 of \<open>execute\<close>: prompt the session and settle the task.\<close>

definition run_prompt :: "executor \<Rightarrow> env \<Rightarrow> task \<Rightarrow> string \<Rightarrow> world \<Rightarrow> outcome \<times> world" where
  "run_prompt e v t sid w =
     (case prompt_session v sid t w of
        (Inl ErrCanceled, w1) \<Rightarrow> (Returned, settle_canceled (t_id t) w1)
      | (Inl (ExecErr err), w1) \<Rightarrow> fail_with_retry e v t err w1
      | (Inr res, w1) \<Rightarrow>
          (Returned, push_summary e t res (push_task ''succeeded'' (t_id t)
             (resolve_dependents (t_id t) True '''' (run_call (complete_task (t_id t) res) w1)))))"

definition execute :: "executor \<Rightarrow> env \<Rightarrow> task \<Rightarrow> world \<Rightarrow> outcome \<times> world" where
  "execute e v t w0 =
     (let w = push_task ''running'' (t_id t) w0
      in if t_session t \<noteq> '''' then run_prompt e v t (t_session t) w
         else (case check_canceled (t_id t) w of (stopped, w1) \<Rightarrow>
           if stopped then (Returned, settle_canceled (t_id t) w1)
           else (case create_session v (t_dir t) of
             Inl err \<Rightarrow> fail_with_retry e v t (''create session: '' @ err) w1
           | Inr sid \<Rightarrow> run_prompt e v t sid
               (run_call (update_task_progress (t_id t) ''session created'')
                 (run_call (set_task_session (t_id t) sid) w1)))))"

text \<open>\<open>runClaimed\<close>, inside the session's gate: a panic marks the task failed.\<close>

definition run_claimed :: "executor \<Rightarrow> env \<Rightarrow> task \<Rightarrow> world \<Rightarrow> world" where
  "run_claimed e v t w =
     (case execute e v t w of
        (Returned, w1) \<Rightarrow> w1
      | (Panicked r, w1) \<Rightarrow> run_call (fail_task (t_id t) (''panic: '' @ r)) w1)"

text \<open>
  One round of \<open>worker\<close>: claim and run, or wait two seconds. The loop itself ends only when the
  context is canceled; \<open>worker\<close> runs the rounds before that.
\<close>

definition worker_round :: "executor \<Rightarrow> env \<Rightarrow> world \<Rightarrow> world" where
  "worker_round e v w =
     (case call claim_next_task w of
        (Inl _, w1) \<Rightarrow> advance (2 * second) w1
      | (Inr t, w1) \<Rightarrow> run_claimed e v t w1)"

fun worker :: "executor \<Rightarrow> env list \<Rightarrow> world \<Rightarrow> world" where
  "worker e [] w = w"
| "worker e (v # vs) w = worker e vs (worker_round e v w)"

text \<open>\<open>Run\<close> starts by taking back what a crash left running.\<close>

definition start_workers :: "world \<Rightarrow> world" where
  "start_workers w = run_call recover_stale_running w"

subsection \<open>The janitor\<close>

definition purge_batch :: int where
  "purge_batch = 500"

definition purge_once :: "executor \<Rightarrow> world \<Rightarrow> (int \<times> int) \<times> world" where
  "purge_once e w =
     (case call (purge_finished_tasks (x_retention e) purge_batch) w of
        (Inl _, w1) \<Rightarrow> ((0, 0), w1)
      | (Inr r, w1) \<Rightarrow> (r, w1))"

fun purge_loop :: "executor \<Rightarrow> nat \<Rightarrow> world \<Rightarrow> world" where
  "purge_loop e 0 w = snd (purge_once e w)"
| "purge_loop e (Suc n) w = purge_loop e n (advance hour (snd (purge_once e w)))"

end
