(* ===== verification/ExecutorTrace.thy ===== *)
theory ExecutorTrace
  imports Executor
begin

text \<open>
  Whatever the executor does to the database is a run of store methods: its own calls, each of
  them about its task, interleaved with what the schedule of the other goroutines says. The
  invariants of the task table and its status machine carry over from the methods to the executor
  by this alone, under every interleaving, every fault of the database and every answer of the
  OpenCode server and the language model.
\<close>

lemma run_ops_append: "run_ops (xs @ ys) s = run_ops ys (run_ops xs s)"
  by (induction xs arbitrary: s) auto

definition ran :: "(task_op \<Rightarrow> bool) \<Rightarrow> world \<Rightarrow> world \<Rightarrow> bool" where
  "ran P w w' \<longleftrightarrow> set (w_sched w') \<subseteq> set (w_sched w) \<and>
     (\<exists>xs. w_db w' = run_ops xs (w_db w) \<and> (\<forall>x \<in> set xs. P x \<or> x \<in> set (concat (w_sched w))))"

lemma ran_refl [simp, intro]: "ran P w w"
  unfolding ran_def by (intro conjI exI[of _ "[]"]) auto

lemma ran_trans [trans]:
  assumes "ran P w w1" and "ran P w1 w2"
  shows "ran P w w2"
proof -
  from assms(1) obtain xs where xs: "w_db w1 = run_ops xs (w_db w)"
    "\<forall>x \<in> set xs. P x \<or> x \<in> set (concat (w_sched w))" and s1: "set (w_sched w1) \<subseteq> set (w_sched w)"
    by (auto simp: ran_def)
  from assms(2) obtain ys where ys: "w_db w2 = run_ops ys (w_db w1)"
    "\<forall>x \<in> set ys. P x \<or> x \<in> set (concat (w_sched w1))" and s2: "set (w_sched w2) \<subseteq> set (w_sched w1)"
    by (auto simp: ran_def)
  have "\<forall>x \<in> set (xs @ ys). P x \<or> x \<in> set (concat (w_sched w))"
    using xs(2) ys(2) s1 by auto
  then show ?thesis
    using xs(1) ys(1) s1 s2 unfolding ran_def
    by (intro conjI exI[of _ "xs @ ys"]) (auto simp: run_ops_append)
qed

lemma ran_mono: "ran P w w' \<Longrightarrow> (\<And>x. P x \<Longrightarrow> Q x) \<Longrightarrow> ran Q w w'"
  unfolding ran_def by blast

lemma ran_same: "w_db w' = w_db w \<Longrightarrow> w_sched w' = w_sched w \<Longrightarrow> ran P w w'"
  unfolding ran_def by (intro conjI exI[of _ "[]"]) auto

lemma ran_others: "ran P w (others w)"
proof (cases "w_sched w")
  case Nil
  then show ?thesis by (simp add: others_def)
next
  case (Cons xs rest)
  then show ?thesis
    unfolding ran_def others_def by (intro conjI exI[of _ xs]) auto
qed

lemma ran_call:
  assumes "\<And>s. snd (f s) = run_op x s" and "P x"
  shows "ran P w (snd (call f w))"
proof -
  have "ran P (others w) (snd (call f w))"
    unfolding ran_def call_def using assms
    by (intro conjI exI[of _ "[x]"]) (auto split: prod.splits, metis snd_conv)
  with ran_others show ?thesis by (rule ran_trans)
qed

lemma ran_advance: "0 \<le> d \<Longrightarrow> P (OpTick (nat d)) \<Longrightarrow> ran P w (advance d w)"
  unfolding ran_def advance_def by (intro conjI exI[of _ "[OpTick (nat d)]"]) auto

text \<open>
  The rules below add one step at the end of a run; their collection proves what an operation
  composed of such steps does.
\<close>

named_theorems ran_steps

lemma ran_push_event [ran_steps]: "ran P w0 w \<Longrightarrow> ran P w0 (push_task_event st p w)"
  by (erule ran_trans) (auto simp: push_task_event_def broadcast_msg_def intro: ran_same)

lemma ran_push_task [ran_steps]: "ran P w0 w \<Longrightarrow> ran P w0 (push_task st tid w)"
  by (simp add: push_task_def ran_push_event)

lemma ran_push_each [ran_steps]: "ran P w0 w \<Longrightarrow> ran P w0 (push_each st p ds w)"
  by (induction ds arbitrary: w) (auto intro: ran_push_event)

lemma ran_summary [ran_steps]: "ran P w0 w \<Longrightarrow> ran P w0 (push_summary e t r w)"
  by (erule ran_trans) (auto simp: push_summary_def intro: ran_same)

lemma ran_analysis [ran_steps]: "ran P w0 w \<Longrightarrow> ran P w0 (push_failure_analysis e t r w)"
  by (erule ran_trans) (auto simp: push_failure_analysis_def intro: ran_same)

text \<open>The calls an execution of task \<open>tid\<close> makes.\<close>

fun own_op :: "string \<Rightarrow> task_op \<Rightarrow> bool" where
  "own_op tid (OpProgress k _) \<longleftrightarrow> k = tid"
| "own_op tid (OpSession k _) \<longleftrightarrow> k = tid"
| "own_op tid (OpComplete k _) \<longleftrightarrow> k = tid"
| "own_op tid (OpFail k _) \<longleftrightarrow> k = tid"
| "own_op tid (OpRetry k _) \<longleftrightarrow> k = tid"
| "own_op tid (OpRead k) \<longleftrightarrow> k = tid"
| "own_op tid (OpPromote k) \<longleftrightarrow> k = tid"
| "own_op tid (OpBlock k _) \<longleftrightarrow> k = tid"
| "own_op tid (OpTick _) \<longleftrightarrow> True"
| "own_op tid _ \<longleftrightarrow> False"

lemma ran_own_calls:
  "ran (own_op tid) w (snd (call (update_task_progress tid p) w))"
  "ran (own_op tid) w (snd (call (set_task_session tid p) w))"
  "ran (own_op tid) w (snd (call (complete_task tid p) w))"
  "ran (own_op tid) w (snd (call (fail_task tid p) w))"
  "ran (own_op tid) w (snd (call (retry_task tid b) w))"
  "ran (own_op tid) w (snd (call (is_task_canceled tid) w))"
  "ran (own_op tid) w (snd (call (promote_pending_dependents tid) w))"
  "ran (own_op tid) w (snd (call (block_dependents tid p) w))"
  by (rule ran_call[where x = "OpProgress tid p"], simp, simp,
      rule ran_call[where x = "OpSession tid p"], simp, simp,
      rule ran_call[where x = "OpComplete tid p"], simp, simp,
      rule ran_call[where x = "OpFail tid p"], simp, simp,
      rule ran_call[where x = "OpRetry tid b"], simp, simp,
      rule ran_call[where x = "OpRead tid"], simp, simp,
      rule ran_call[where x = "OpPromote tid"], simp, simp,
      rule ran_call[where x = "OpBlock tid p"], simp, simp)

lemmas ran_run_calls [ran_steps] = ran_own_calls[folded run_call_def, THEN ran_trans[rotated]]

lemma ran_check_canceled: "check_canceled tid w = (b, w1) \<Longrightarrow> ran (own_op tid) w w1"
  using ran_own_calls(6)[of tid w] by (auto simp: check_canceled_def split: prod.splits)

lemma ran_resolve [ran_steps]:
  assumes "ran (own_op tid) w0 w"
  shows "ran (own_op tid) w0 (resolve_dependents tid ok reason w)"
proof -
  have 1: "call (promote_pending_dependents tid) w = (r, w1) \<Longrightarrow> ran (own_op tid) w0 w1" for r w1
    using ran_trans[OF assms ran_own_calls(7)] by (metis snd_conv)
  have 2: "call (block_dependents tid p) w = (r, w1) \<Longrightarrow> ran (own_op tid) w0 w1" for p r w1
    using ran_trans[OF assms ran_own_calls(8)] by (metis snd_conv)
  show ?thesis
    by (auto simp: resolve_dependents_def Let_def split: prod.splits sum.splits
        intro: ran_push_each dest: 1 2)
qed

lemma ran_give_up [ran_steps]: "ran (own_op (t_id t)) w0 w \<Longrightarrow> ran (own_op (t_id t)) w0 (give_up t err w)"
  unfolding give_up_def by (intro ran_steps)

lemma ran_settle_canceled [ran_steps]:
  "ran (own_op tid) w0 w \<Longrightarrow> ran (own_op tid) w0 (settle_canceled tid w)"
  unfolding settle_canceled_def by (intro ran_steps)

lemma ran_fail_with_retry:
  assumes "ran (own_op (t_id t)) w0 w"
  shows "ran (own_op (t_id t)) w0 (snd (fail_with_retry e v t err w))"
proof -
  have retried: "call (retry_task (t_id t) b) w = (r, w1) \<Longrightarrow> ran (own_op (t_id t)) w0 w1" for b r w1
    using ran_trans[OF assms ran_own_calls(5)] by (metis snd_conv)
  show ?thesis
    unfolding fail_with_retry_def Let_def
    by (simp split: sum.split option.split prod.split, intro conjI impI allI ran_steps)
      (auto intro!: ran_steps assms dest: retried)
qed

lemma ran_wait_idle: "ran (own_op tid) w (snd (wait_idle v sid tid deadline i w))"
proof (induction v sid tid deadline i w rule: wait_idle.induct)
  case (1 v sid tid deadline i w)
  obtain b w1 where c: "check_canceled tid w = (b, w1)" by fastforce
  have adv: "ran (own_op tid) w (advance (3 * second) w1)"
    by (rule ran_trans[OF ran_check_canceled[OF c] ran_advance]) simp_all
  let ?w2 = "run_call (update_task_progress tid ''agent working...'') (advance (3 * second) w1)"
  show ?case
  proof (cases "now w < deadline \<and> v_ctx v i = None \<and> \<not> b \<and> is_session_busy (v_status v i) sid = Inr True")
    case True
    have "ran (own_op tid) ?w2 (snd (wait_idle v sid tid deadline (Suc i) ?w2))"
      by (rule 1[OF _ _ c[symmetric]]) (use True in auto)
    moreover have "ran (own_op tid) w ?w2"
      using adv by (rule ran_run_calls(1))
    ultimately have "ran (own_op tid) w (snd (wait_idle v sid tid deadline (Suc i) ?w2))"
      by (rule ran_trans[rotated])
    then show ?thesis
      using True c by (subst wait_idle.simps) simp
  next
    case False
    then show ?thesis
      using c adv ran_check_canceled[OF c]
      by (subst wait_idle.simps) (auto split: option.splits sum.splits)
  qed
qed

lemma ran_prompt_session: "ran (own_op (t_id t)) w (snd (prompt_session v sid t w))"
proof -
  let ?w1 = "run_call (update_task_progress (t_id t) ''prompt admitted'') w"
  have "wait_idle v sid (t_id t) deadline 0 ?w1 = (r, w2) \<Longrightarrow> ran (own_op (t_id t)) w w2" for deadline r w2
    using ran_trans[OF ran_run_calls(1)[OF ran_refl] ran_wait_idle] by (metis snd_conv)
  then show ?thesis
    by (auto simp: prompt_session_def Let_def split: sum.splits prod.splits intro: ran_run_calls)
qed

lemma ran_run_prompt:
  assumes "ran (own_op (t_id t)) w0 w"
  shows "ran (own_op (t_id t)) w0 (snd (run_prompt e v t sid w))"
proof -
  have p: "prompt_session v sid t w = (r, w1) \<Longrightarrow> ran (own_op (t_id t)) w0 w1" for r w1
    using ran_trans[OF assms ran_prompt_session] by (metis snd_conv)
  show ?thesis
    unfolding run_prompt_def
    by (auto split: prod.split sum.split exec_error.split dest!: p intro!: ran_steps ran_fail_with_retry)
qed

lemma ran_execute: "ran (own_op (t_id t)) w (snd (execute e v t w))"
proof -
  let ?w = "push_task ''running'' (t_id t) w"
  have w: "ran (own_op (t_id t)) w ?w" by (intro ran_steps ran_refl)
  have c: "check_canceled (t_id t) ?w = (b, w1) \<Longrightarrow> ran (own_op (t_id t)) w w1" for b w1
    using ran_trans[OF w ran_check_canceled] .
  show ?thesis
    unfolding execute_def Let_def
    by (auto split: prod.split sum.split dest!: c
        intro!: ran_steps ran_fail_with_retry ran_run_prompt)
qed

lemma ran_run_claimed: "ran (own_op (t_id t)) w (run_claimed e v t w)"
proof -
  have "execute e v t w = (r, w1) \<Longrightarrow> ran (own_op (t_id t)) w w1" for r w1
    using ran_execute[of t w e v] by simp
  then show ?thesis
    by (auto simp: run_claimed_def split: prod.splits outcome.splits intro!: ran_steps)
qed

text \<open>The calls of the worker pool: no task is created, canceled, scheduled or deleted by them.\<close>

definition pool_op :: "task_op \<Rightarrow> bool" where
  "pool_op x \<longleftrightarrow> x = OpClaim \<or> x = OpRecover \<or> (\<exists>tid. own_op tid x)"

lemma ran_worker_round: "ran pool_op w (worker_round e v w)"
proof -
  have cl: "call claim_next_task w = (r, w1) \<Longrightarrow> ran pool_op w w1" for r w1
    using ran_call[of claim_next_task OpClaim pool_op w] by (simp add: pool_op_def)
  have ex: "ran pool_op w1 (run_claimed e v t w1)" for t w1
    by (rule ran_mono[OF ran_run_claimed]) (auto simp: pool_op_def)
  have ad: "ran pool_op w0 w1 \<Longrightarrow> ran pool_op w0 (advance 2000000000 w1)" for w0 w1
    by (erule ran_trans, rule ran_advance) (auto simp: pool_op_def)
  show ?thesis
    by (auto simp: worker_round_def split: prod.split sum.split dest!: cl
        intro: ran_trans[OF _ ex] ad)
qed

lemma ran_worker: "ran pool_op w (worker e vs w)"
  by (induction vs arbitrary: w) (auto intro: ran_trans[OF ran_worker_round])

lemma ran_start_workers: "ran pool_op w (start_workers w)"
  unfolding start_workers_def run_call_def
  by (rule ran_call[where x = OpRecover]) (auto simp: pool_op_def)

text \<open>The janitor only purges.\<close>

lemma ran_purge_once: "ran (\<lambda>x. x = OpPurge (x_retention e) purge_batch) w (snd (purge_once e w))"
  using ran_call[of "purge_finished_tasks (x_retention e) purge_batch"
      "OpPurge (x_retention e) purge_batch" "\<lambda>x. x = OpPurge (x_retention e) purge_batch" w]
  by (auto simp: purge_once_def split: prod.splits sum.splits)

end
