(* ===== verification/TaskQueue.thy ===== *)
theory TaskQueue
  imports TaskMachine
begin

text \<open>
  What the executor and the HTTP layer rely on when they use the task table as a queue: claims
  hand the oldest available task out and never hand one out twice, dependents are released and
  blocked as a whole, and the retention pass removes finished work only.
\<close>

subsection \<open>The work queue as an interface\<close>

text \<open>
  \<open>pending\<close> is the abstract queue: the tasks the next claims will return, in order. \<open>ident\<close> tells
  tasks apart. A worker needs to know two things of \<open>claim\<close>: it takes the head off a queue that
  has one, and reports an empty queue without touching it.
\<close>

locale work_queue =
  fixes claim :: "'s \<Rightarrow> ('e + 't) \<times> 's"
    and pending :: "'s \<Rightarrow> 't list"
    and ident :: "'t \<Rightarrow> 'k"
    and invar :: "'s \<Rightarrow> bool"
  assumes claim_empty: "invar s \<Longrightarrow> pending s = [] \<Longrightarrow> \<exists>e. claim s = (Inl e, s)"
    and claim_head: "invar s \<Longrightarrow> pending s = t # ts \<Longrightarrow>
      \<exists>r s'. claim s = (Inr r, s') \<and> ident r = ident t \<and> pending s' = ts \<and> invar s'"
    and pending_distinct: "invar s \<Longrightarrow> distinct (map ident (pending s))"
begin

text \<open>Any number of workers claiming in turn, each stopping at an empty queue.\<close>

primrec drain :: "nat \<Rightarrow> 's \<Rightarrow> 'k list \<times> 's" where
  "drain 0 s = ([], s)"
| "drain (Suc n) s =
     (case claim s of
        (Inl e, s') \<Rightarrow> ([], s')
      | (Inr r, s') \<Rightarrow> (case drain n s' of (ks, s'') \<Rightarrow> (ident r # ks, s'')))"

lemma drain_fifo:
  "invar s \<Longrightarrow> fst (drain n s) = take n (map ident (pending s))"
proof (induction n arbitrary: s)
  case 0
  then show ?case by simp
next
  case (Suc n)
  show ?case
  proof (cases "pending s")
    case Nil
    then show ?thesis using claim_empty [OF Suc.prems] by auto
  next
    case (Cons t ts)
    then obtain r s' where "claim s = (Inr r, s')" "ident r = ident t" "pending s' = ts" "invar s'"
      using claim_head [OF Suc.prems] by blast
    with Suc.IH [of s'] Cons show ?thesis
      by (cases "drain n s'") simp
  qed
qed

lemma drain_distinct: "invar s \<Longrightarrow> distinct (fst (drain n s))"
  by (simp add: drain_fifo pending_distinct distinct_take)

end

subsection \<open>The task table is such a queue\<close>

definition queue_pending :: "db \<Rightarrow> task list" where
  "queue_pending s = claim_candidates (db_clock s) (db_tasks s)"

definition queue_invar :: "db \<Rightarrow> bool" where
  "queue_invar s \<longleftrightarrow> db_faults s = [] \<and> distinct (map t_id (db_tasks s))"

lemma claim_candidates_update:
  assumes "claim_candidates now ts = t # cs" and "distinct (map t_id ts)"
  shows "claim_candidates now (update_where (\<lambda>r. t_id r = t_id t) (set_claim now) ts) = cs"
proof -
  have rows: "filter (claimable now) (update_where (\<lambda>r. t_id r = t_id t) (set_claim now) ts) =
      filter (\<lambda>r. t_id r \<noteq> t_id t) (filter (claimable now) ts)"
    by (induction ts) (auto simp: claimable_def set_claim_def)
  have dist: "distinct (map t_id (claim_candidates now ts))"
    using assms(2) by (simp add: claim_candidates_def order_asc_def distinct_map_filter
        distinct_map inj_on_def)
  have "claim_candidates now (update_where (\<lambda>r. t_id r = t_id t) (set_claim now) ts) =
      filter (\<lambda>r. t_id r \<noteq> t_id t) (claim_candidates now ts)"
    by (simp add: claim_candidates_def order_asc_def rows filter_sort)
  also have "\<dots> = cs"
  proof -
    have "t_id t \<notin> t_id ` set cs" using assms(1) dist by simp
    then have "\<forall>r \<in> set cs. t_id r \<noteq> t_id t" by (metis imageI)
    with assms(1) show ?thesis by simp
  qed
  finally show ?thesis .
qed

lemma claim_next_task_empty:
  assumes "db_faults s = []" and "queue_pending s = []"
  shows "claim_next_task s = (Inl ErrNotFound, s)"
  using assms by (simp add: claim_next_task_def queue_pending_def)

lemma claim_next_task_head:
  assumes inv: "queue_invar s" and head: "queue_pending s = t # cs"
  shows "claim_next_task s = (Inr (set_claim (db_clock s) t),
      s\<lparr>db_tasks := update_where (\<lambda>r. t_id r = t_id t) (set_claim (db_clock s)) (db_tasks s)\<rparr>)"
proof -
  have "t \<in> set (db_tasks s)"
    using head claim_candidates_mem [of t "db_clock s" "db_tasks s"] by (simp add: queue_pending_def)
  then have "lookup_by t_id (t_id t) (db_tasks s) = Some t"
    using inv by (simp add: queue_invar_def lookup_by_unique)
  with inv head show ?thesis
    by (simp add: claim_next_task_def queue_pending_def queue_invar_def exec_tasks_def Let_def
        claim_upd.lookup_update)
qed

interpretation tq: work_queue claim_next_task queue_pending t_id queue_invar
proof
  fix s t ts
  show "queue_invar s \<Longrightarrow> queue_pending s = [] \<Longrightarrow> \<exists>e. claim_next_task s = (Inl e, s)"
    by (simp add: claim_next_task_empty queue_invar_def)
  assume inv: "queue_invar s"
  then show "distinct (map t_id (queue_pending s))"
    by (simp add: queue_invar_def queue_pending_def claim_candidates_def order_asc_def
        distinct_map inj_on_def distinct_map_filter)
  assume head: "queue_pending s = t # ts"
  show "\<exists>r s'. claim_next_task s = (Inr r, s') \<and> t_id r = t_id t \<and> queue_pending s' = ts \<and>
      queue_invar s'"
    using inv head claim_next_task_head [OF inv head]
      claim_candidates_update [of "db_clock s" "db_tasks s" t ts]
    by (simp add: queue_invar_def queue_pending_def claim_upd.keys_update claim_upd.key_upd)
qed

definition claim_all :: "nat \<Rightarrow> db \<Rightarrow> string list \<times> db" where
  "claim_all = tq.drain"

text \<open>Concrete tasks for the witnesses.\<close>

definition mk_task :: "string \<Rightarrow> string \<Rightarrow> task_status \<Rightarrow> time \<Rightarrow> task" where
  "mk_task tid dep st created = \<lparr>t_id = tid, t_session = '''', t_dir = '''', t_name = '''',
     t_prompt = ''p'', t_depends = dep, t_status = st, t_error = '''', t_result = '''',
     t_progress = '''', t_summary = '''', t_attempts = 0, t_created = created, t_updated = created,
     t_started = None, t_finished = None, t_available = created, t_scheduled = None, t_cron = '''',
     t_last_fired = None\<rparr>"

definition db_of :: "task list \<Rightarrow> time \<Rightarrow> db" where
  "db_of ts now = (empty_db now)\<lparr>db_tasks := ts\<rparr>"

lemma db_of_simps [simp]:
  "db_tasks (db_of ts now) = ts" "db_clock (db_of ts now) = now" "db_faults (db_of ts now) = []"
  "db_pg (db_of ts now) = False"
  by (simp_all add: db_of_def empty_db_def)

text \<open>C1. Claiming is first come, first served: with the clock standing still, \<open>n\<close> successive
  claims (by any workers) return exactly the first \<open>n\<close> available queued tasks in the order of
  their creation, and an available task is never passed over or returned twice.\<close>

theorem claims_are_fifo:
  assumes "db_faults s = []" and "distinct (map t_id (db_tasks s))"
  shows "fst (claim_all n s) =
      take n (map t_id (sort_key t_created
        (filter (\<lambda>t. t_status t = TaskQueued \<and> t_available t \<le> db_clock s) (db_tasks s)))) \<and>
    distinct (fst (claim_all n s))"
proof (intro conjI)
  have inv: "queue_invar s" using assms by (simp add: queue_invar_def)
  have "claimable (db_clock s) = (\<lambda>t. t_status t = TaskQueued \<and> t_available t \<le> db_clock s)"
    by (auto simp: claimable_def)
  then show "fst (claim_all n s) =
      take n (map t_id (sort_key t_created
        (filter (\<lambda>t. t_status t = TaskQueued \<and> t_available t \<le> db_clock s) (db_tasks s))))"
    using tq.drain_fifo [OF inv]
    by (simp add: claim_all_def queue_pending_def claim_candidates_def order_asc_def)
  show "distinct (fst (claim_all n s))"
    using tq.drain_distinct [OF inv] by (simp add: claim_all_def)
qed

theorem claims_are_fifo_witness:
  "fst (claim_all 5 (db_of [mk_task ''b'' '''' TaskQueued 20, mk_task ''a'' '''' TaskQueued 10,
      mk_task ''c'' '''' TaskRunning 5] 30)) = [''a'', ''b'']"
  by (subst claims_are_fifo [THEN conjunct1]) (simp_all add: mk_task_def)

text \<open>C2. A claim takes an available queued task of least creation time, marks exactly that row
  running with one more attempt, and leaves every other row alone; it reports not found exactly
  when no queued task is available.\<close>

theorem claim_next_task_spec:
  assumes "db_faults s = []" and "distinct (map t_id (db_tasks s))"
  shows "case claim_next_task s of
      (Inl e, s') \<Rightarrow> e = ErrNotFound \<and> s' = s \<and> (\<forall>t \<in> set (db_tasks s). \<not> claimable (db_clock s) t)
    | (Inr r, s') \<Rightarrow> (\<exists>t \<in> set (db_tasks s). claimable (db_clock s) t \<and>
        (\<forall>u \<in> set (db_tasks s). claimable (db_clock s) u \<longrightarrow> t_created t \<le> t_created u) \<and>
        r = t\<lparr>t_status := TaskRunning, t_attempts := t_attempts t + 1,
              t_started := Some (db_clock s), t_updated := db_clock s\<rparr> \<and>
        db_tasks s' = map (\<lambda>u. if t_id u = t_id t then r else u) (db_tasks s))"
proof (cases "queue_pending s")
  case Nil
  then have "\<forall>t \<in> set (db_tasks s). \<not> claimable (db_clock s) t"
    by (simp add: queue_pending_def claim_candidates_def filter_empty_conv)
  with Nil assms show ?thesis by (simp add: claim_next_task_empty)
next
  case (Cons t cs)
  have inv: "queue_invar s" using assms by (simp add: queue_invar_def)
  have t: "t \<in> set (db_tasks s)" "claimable (db_clock s) t"
    using Cons claim_candidates_mem [of t "db_clock s" "db_tasks s"] by (simp_all add: queue_pending_def)
  have least: "t_created t \<le> t_created u" if "u \<in> set (db_tasks s)" "claimable (db_clock s) u" for u
    using that hd_order_asc_min [of u "filter (claimable (db_clock s)) (db_tasks s)" t_created] Cons
    by (simp add: queue_pending_def claim_candidates_def)
  have same: "u = t" if "u \<in> set (db_tasks s)" "t_id u = t_id t" for u
    using that t(1) assms(2) by (metis lookup_by_unique option.inject)
  have "update_where (\<lambda>r. t_id r = t_id t) (set_claim (db_clock s)) (db_tasks s) =
      map (\<lambda>u. if t_id u = t_id t then set_claim (db_clock s) t else u) (db_tasks s)"
    using same by (auto simp: update_where_def)
  then show ?thesis
    using t least claim_next_task_head [OF inv Cons] by (auto simp: set_claim_def intro!: bexI [of _ t])
qed

theorem claim_next_task_spec_witness:
  "\<exists>r s'. claim_next_task (db_of [mk_task ''a'' '''' TaskQueued 10] 30) = (Inr r, s') \<and>
     t_id r = ''a'' \<and> t_attempts r = 1"
proof -
  let ?s = "db_of [mk_task ''a'' '''' TaskQueued 10] 30"
  have "claimable 30 (mk_task ''a'' '''' TaskQueued 10)" by (simp add: claimable_def mk_task_def)
  then show ?thesis
    using claim_next_task_spec [of ?s]
    by (auto split: prod.splits sum.splits simp: mk_task_def)
qed

subsection \<open>Safety of the table\<close>

lemma empty_db_simps [simp]:
  "db_tasks (empty_db now) = []" "db_clock (empty_db now) = now" "db_faults (empty_db now) = []"
  by (simp_all add: empty_db_def)

lemma wf_tasks_Nil [simp]: "wf_tasks []"
  by (simp add: wf_tasks_def upstream_present_def)

text \<open>Starting from an empty database and under any schedule of database faults, whatever
  sequence of store methods runs (each waiting task being created for an existing upstream), task
  ids stay distinct and every pending or blocked task still names an upstream in the table.\<close>

theorem task_table_invariant:
  assumes "ops_guarded ops ((empty_db now)\<lparr>db_faults := faults\<rparr>)"
  shows "distinct (map t_id (db_tasks (run_ops ops ((empty_db now)\<lparr>db_faults := faults\<rparr>)))) \<and>
    (\<forall>t \<in> set (db_tasks (run_ops ops ((empty_db now)\<lparr>db_faults := faults\<rparr>))).
      t_status t \<in> {TaskPending, TaskBlocked} \<longrightarrow>
      t_depends t \<in> t_id ` set (db_tasks (run_ops ops ((empty_db now)\<lparr>db_faults := faults\<rparr>))))"
proof (intro conjI)
  have "wf_tasks (db_tasks (run_ops ops ((empty_db now)\<lparr>db_faults := faults\<rparr>)))"
    using assms by (intro run_ops_wf) simp_all
  then show "distinct (map t_id (db_tasks (run_ops ops ((empty_db now)\<lparr>db_faults := faults\<rparr>))))"
    and "\<forall>t \<in> set (db_tasks (run_ops ops ((empty_db now)\<lparr>db_faults := faults\<rparr>))).
      t_status t \<in> {TaskPending, TaskBlocked} \<longrightarrow>
      t_depends t \<in> t_id ` set (db_tasks (run_ops ops ((empty_db now)\<lparr>db_faults := faults\<rparr>)))"
    by (auto simp: wf_tasks_def upstream_present_def waiting_def)
qed

theorem task_table_invariant_witness:
  "distinct (map t_id (db_tasks (run_ops [OpCreate (mk_task ''u'' '''' TaskQueued 0) TaskQueued,
       OpCreate (mk_task ''d'' ''u'' TaskPending 0) TaskPending]
       ((empty_db 5)\<lparr>db_faults := [False, False]\<rparr>))))"
  by (rule task_table_invariant [THEN conjunct1])
    (simp add: waiting_def mk_task_def create_task_with_status_def db_call_def new_task_row_def)

text \<open>No store method, whether its statement succeeds or not, moves a task along anything but
  an edge of the status machine or changes its dependency, and a row leaves the table only when
  its task is succeeded, failed or canceled.\<close>

theorem store_follows_status_machine:
  assumes "distinct (map t_id (db_tasks s))" and "lookup_by t_id k (db_tasks s) = Some t"
  shows "case lookup_by t_id k (db_tasks (run_op x s)) of
      None \<Rightarrow> t_status t \<in> {TaskSucceeded, TaskFailed, TaskCanceled}
    | Some t' \<Rightarrow> t_depends t' = t_depends t \<and>
        (t_status t' = t_status t \<or> status_step (t_status t) (t_status t'))"
proof -
  have "rows_evolve (db_tasks s) (db_tasks (run_op x s))"
    using run_op_table_step assms(1) by (rule table_step_evolves)
  then have "case lookup_by t_id k (db_tasks (run_op x s)) of
      None \<Rightarrow> terminal (t_status t) | Some t' \<Rightarrow> row_evolves t t'"
    using assms(2) unfolding rows_evolve_def by blast
  then show ?thesis
    by (simp add: row_evolves_def terminal_def split: option.splits)
qed

theorem store_follows_status_machine_witness:
  "status_step TaskPending TaskBlocked"
proof -
  let ?s = "db_of [mk_task ''u'' '''' TaskFailed 0, mk_task ''d'' ''u'' TaskPending 0] 9"
  have "lookup_by t_id ''d'' (db_tasks (run_op (OpBlock ''u'' ''r'') ?s)) =
      Some (set_blocked 9 ''r'' (mk_task ''d'' ''u'' TaskPending 0))"
    by (simp add: mk_task_def block_dependents_def dependent_ids_def block_rows_def exec_ok_def
        exec_tasks_def set_blocked_def)
  then show ?thesis
    using store_follows_status_machine [of ?s "''d''" "mk_task ''d'' ''u'' TaskPending 0"
        "OpBlock ''u'' ''r''"]
    by (simp add: mk_task_def set_blocked_def)
qed

subsection \<open>Dependents\<close>



text \<open>When an upstream fails or is canceled, exactly its pending dependents become blocked with
  the reason recorded, the method returns exactly their ids, and if the second statement is lost
  to a fault no row has changed.\<close>

lemma block_dependents_spec:
  "(db_faults s = [] \<longrightarrow> block_dependents up reason s =
    (Inr (map t_id (filter (\<lambda>t. t_depends t = up \<and> t_status t = TaskPending) (db_tasks s))),
     s\<lparr>db_tasks := map (\<lambda>t. if t_depends t = up \<and> t_status t = TaskPending
          then t\<lparr>t_status := TaskBlocked, t_error := reason, t_finished := Some (db_clock s),
                 t_updated := db_clock s\<rparr>
          else t) (db_tasks s)\<rparr>)) \<and>
   (\<forall>e. fst (block_dependents up reason s) = Inl e \<longrightarrow>
      db_tasks (snd (block_dependents up reason s)) = db_tasks s)"
proof (intro conjI allI impI)
  let ?P = "\<lambda>t. t_depends t = up \<and> t_status t = TaskPending"
  have none: "map (\<lambda>t. if ?P t then f t else t) ts = ts" if "filter ?P ts = []" for f ts
    using that by (induction ts) (auto split: if_splits)
  show "db_faults s = [] \<Longrightarrow> block_dependents up reason s =
    (Inr (map t_id (filter ?P (db_tasks s))),
     s\<lparr>db_tasks := map (\<lambda>t. if ?P t
          then t\<lparr>t_status := TaskBlocked, t_error := reason, t_finished := Some (db_clock s),
                 t_updated := db_clock s\<rparr>
          else t) (db_tasks s)\<rparr>)"
    using none [of "db_tasks s"]
    by (auto simp: block_dependents_def dependent_ids_def block_rows_def exec_ok_def exec_tasks_def
        update_where_def set_blocked_def)
  fix e assume err: "fst (block_dependents up reason s) = Inl e"
  obtain r1 s1 where c1: "dependent_ids up [TaskPending] s = (r1, s1)" by fastforce
  have t1: "db_tasks s1 = db_tasks s" using dependent_ids_tasks [of up "[TaskPending]" s] c1 by simp
  obtain r2 s2 where c2: "block_rows up reason s1 = (r2, s2)" by fastforce
  have "db_tasks s2 = db_tasks s1" if "r2 = Inl e'" for e'
    using c2 that unfolding block_rows_def exec_ok_def by (auto elim!: db_call_cases)
  with err c1 c2 t1 show "db_tasks (snd (block_dependents up reason s)) = db_tasks s"
    by (auto simp: block_dependents_def split: sum.splits if_splits)
qed

theorem block_dependents_spec_witness:
  "fst (block_dependents ''u'' ''boom'' (db_of [mk_task ''a'' ''u'' TaskBlocked 0,
     mk_task ''b'' ''u'' TaskRunning 0, mk_task ''c'' ''u'' TaskPending 0] 9)) = Inr [''c''] \<and>
   db_tasks (snd (block_dependents ''u'' ''boom'' ((db_of [mk_task ''c'' ''u'' TaskPending 0] 9)
     \<lparr>db_faults := [False, True]\<rparr>))) = [mk_task ''c'' ''u'' TaskPending 0]"
  apply (rule conjI)
  subgoal by (subst block_dependents_spec [THEN conjunct1, rule_format]) (simp_all add: mk_task_def)
  subgoal
    by (subst block_dependents_spec [THEN conjunct2, rule_format, where e = ErrDriver])
      (simp_all add: block_dependents_def dependent_ids_def block_rows_def exec_ok_def db_call_def
        mk_task_def)
  done

subsection \<open>Retention\<close>


lemma referenced_mem:
  "k \<in> set (referenced ts) \<longleftrightarrow> (\<exists>d \<in> set ts. t_depends d = k \<and> k \<noteq> '''' \<and> active (t_status d))"
  by (auto simp: referenced_def)





text \<open>A retention pass without faults and with a large enough batch is complete: what is left
  of the finished tasks past the age is exactly what some unfinished task depends on, and the two
  numbers it returns are the rows deleted and the finished rows kept for a dependent.\<close>

lemma purge_is_complete:
  assumes "db_faults s = []" and "0 \<le> older" and "distinct (map t_id (db_tasks s))"
    and "int (length (db_tasks s)) \<le> (if limit \<le> 0 then 500 else limit)"
  defines "gone \<equiv> \<lambda>t. terminal (t_status t) \<and> t_updated t < db_clock s - older div second * second"
  shows "\<exists>deleted kept s'. purge_finished_tasks older limit s = (Inr (deleted, kept), s') \<and>
    db_tasks s' = filter (\<lambda>t. gone t \<longrightarrow> t_id t \<in> set (referenced (db_tasks s))) (db_tasks s) \<and>
    deleted = int (length (db_tasks s)) - int (length (db_tasks s')) \<and>
    kept = int (length (filter gone (db_tasks s')))"
proof -
  let ?lim = "if limit \<le> 0 then 500 else limit" and ?secs = "older div second" and ?ts = "db_tasks s"
  let ?cut = "db_clock s - ?secs * second"
  let ?bad = "filter (\<lambda>t. expired ?cut t \<and> t_id t \<notin> set (referenced ?ts)) ?ts"
  have gone: "gone t \<longleftrightarrow> expired ?cut t" for t by (simp add: gone_def expired_def)
  have secs: "tdiv older second = ?secs" "\<not> ?secs < 0" using assms(2) by (simp_all add: tdiv_nonneg)
  have "length ?bad \<le> nat ?lim"
    using assms(4) length_filter_le [of "\<lambda>t. expired ?cut t \<and> t_id t \<notin> set (referenced ?ts)" ?ts]
    by (smt (verit) nat_int_comparison(3) nat_le_iff of_nat_le_iff)
  then have vict: "purge_victims ?cut ?lim ?ts = order_asc t_updated ?bad"
    by (simp add: purge_victims_def order_asc_def)
  have V: "t_id t \<in> t_id ` set (purge_victims ?cut ?lim ?ts) \<longleftrightarrow>
      expired ?cut t \<and> t_id t \<notin> set (referenced ?ts)" if "t \<in> set ?ts" for t
    unfolding vict using that assms(3) by auto (metis lookup_by_unique option.inject)+
  let ?ts' = "delete_where (\<lambda>t. t_id t \<in> t_id ` set (purge_victims ?cut ?lim ?ts)) ?ts"
  have ts': "?ts' = filter (\<lambda>t. gone t \<longrightarrow> t_id t \<in> set (referenced ?ts)) ?ts"
    unfolding delete_where_def by (rule filter_cong) (auto simp: V gone)
  have refs: "set (referenced ?ts') = set (referenced ?ts)"
    unfolding ts' by (auto simp: referenced_mem gone_def terminal_or_active)
  have cnt: "count_where (\<lambda>t. t_id t \<in> t_id ` set (purge_victims ?cut ?lim ?ts)) ?ts =
      int (length ?ts) - int (length ?ts')"
    using sum_length_filter_compl [of "\<lambda>t. t_id t \<in> t_id ` set (purge_victims ?cut ?lim ?ts)" ?ts]
    by (simp add: count_where_def delete_where_def)
  have kept: "count_where (\<lambda>t. expired ?cut t \<and> t_id t \<in> set (referenced ?ts')) ?ts' =
      int (length (filter gone ?ts'))"
    unfolding count_where_def refs
    by (intro arg_cong [of _ _ int] arg_cong [of _ _ length] filter_cong) (auto simp: ts' gone)
  show ?thesis
    using assms(1) secs cnt kept ts'
    by (simp add: purge_finished_tasks_def purge_delete_def purge_kept_def)
qed

theorem purge_is_complete_witness:
  "\<exists>deleted kept s'. purge_finished_tasks second 0
      (db_of [mk_task ''old'' '''' TaskSucceeded 0, mk_task ''up'' '''' TaskFailed 0,
        mk_task ''live'' ''up'' TaskBlocked 0] (10 * second)) = (Inr (deleted, kept), s') \<and>
     deleted = 1 \<and> kept = 1"
proof -
  let ?s = "db_of [mk_task ''old'' '''' TaskSucceeded 0, mk_task ''up'' '''' TaskFailed 0,
    mk_task ''live'' ''up'' TaskBlocked 0] (10 * second)"
  obtain deleted kept s' where "purge_finished_tasks second 0 ?s = (Inr (deleted, kept), s')"
    and "db_tasks s' = filter (\<lambda>t. terminal (t_status t) \<and> t_updated t < 9 * second \<longrightarrow>
        t_id t \<in> set (referenced (db_tasks ?s))) (db_tasks ?s)"
    and "deleted = int (length (db_tasks ?s)) - int (length (db_tasks s'))"
    and "kept = int (length (filter (\<lambda>t. terminal (t_status t) \<and> t_updated t < 9 * second) (db_tasks s')))"
    using purge_is_complete [of ?s second 0] by (auto simp: mk_task_def)
  then show ?thesis
    by (auto simp: mk_task_def terminal_def referenced_def active_def)
qed

end
