(* ===== verification/ExecutorSpec.thy ===== *)
theory ExecutorSpec
  imports ExecutorTrace TaskQueue
begin

text \<open>
  What one execution of a task does, in full, when the database works and nobody else writes to it
  (\<open>quiet\<close>), and what it guarantees when they do. The functional statements compare task tables
  up to the progress text and the time of the last update (\<open>core\<close>).
\<close>

subsection \<open>Quiet worlds\<close>

definition quiet :: "world \<Rightarrow> bool" where
  "quiet w \<longleftrightarrow> w_sched w = [] \<and> db_faults (w_db w) = []"

definition tasks :: "world \<Rightarrow> task list" where
  "tasks w = db_tasks (w_db w)"

definition set_tasks :: "task list \<Rightarrow> world \<Rightarrow> world" where
  "set_tasks ts w = w\<lparr>w_db := (w_db w)\<lparr>db_tasks := ts\<rparr>\<rparr>"

named_theorems quiet_simps

lemma set_tasks_simps [simp]:
  "tasks (set_tasks ts w) = ts" "w_out (set_tasks ts w) = w_out w" "w_jobs (set_tasks ts w) = w_jobs w"
  "now (set_tasks ts w) = now w" "quiet (set_tasks ts w) = quiet w"
  "set_tasks ts' (set_tasks ts w) = set_tasks ts' w"
  by (simp_all add: set_tasks_def tasks_def now_def quiet_def)

lemma set_tasks_same [simp]: "set_tasks (tasks w) w = w"
  by (simp add: set_tasks_def tasks_def)

lemma push_simps [simp]:
  "tasks (push_task_event st p w) = tasks w" "now (push_task_event st p w) = now w"
  "quiet (push_task_event st p w) = quiet w" "w_jobs (push_task_event st p w) = w_jobs w"
  "tasks (push_task st tid w) = tasks w" "now (push_task st tid w) = now w"
  "quiet (push_task st tid w) = quiet w" "w_jobs (push_task st tid w) = w_jobs w"
  "tasks (push_summary e t r w) = tasks w" "w_out (push_summary e t r w) = w_out w"
  "tasks (push_failure_analysis e t r w) = tasks w"
  "w_out (push_failure_analysis e t r w) = w_out w"
  by (simp_all add: push_task_event_def push_task_def broadcast_msg_def tasks_def now_def quiet_def
      push_summary_def push_failure_analysis_def)

lemma jobs_simps [simp]:
  "w_jobs (push_summary e t r w) =
     w_jobs w @ (if x_llm e then [SummaryJob (t_id t) (t_prompt t) r] else [])"
  "w_jobs (push_failure_analysis e t r w) =
     w_jobs w @ (if x_llm e then [FailureJob (t_id t) (t_prompt t) r] else [])"
  by (simp_all add: push_summary_def push_failure_analysis_def)

lemma advance_simps [simp]:
  "tasks (advance d w) = tasks w" "w_out (advance d w) = w_out w" "w_jobs (advance d w) = w_jobs w"
  "quiet (advance d w) = quiet w"
  by (simp_all add: advance_def tasks_def quiet_def)

lemma push_each_simps [simp]:
  "tasks (push_each st p ds w) = tasks w" "now (push_each st p ds w) = now w"
  "quiet (push_each st p ds w) = quiet w" "w_jobs (push_each st p ds w) = w_jobs w"
  by (induction ds arbitrary: w) auto

lemma call_quiet:
  "quiet w \<Longrightarrow> call f w = (fst (f (w_db w)), w\<lparr>w_db := snd (f (w_db w))\<rparr>)"
  by (auto simp: call_def others_def quiet_def split: prod.splits)

lemma exec_ok_quiet:
  assumes "quiet w"
  shows "call (exec_ok P f) w = (Inr (), set_tasks (update_where P (f (now w)) (tasks w)) w)"
  using assms by (auto simp: call_quiet exec_ok_def quiet_def exec_tasks_def set_tasks_def tasks_def now_def)

lemma writes_quiet [quiet_simps]:
  assumes "quiet w"
  shows "run_call (update_task_progress tid p) w =
      set_tasks (update_where (\<lambda>r. t_id r = tid) (set_progress (now w) p) (tasks w)) w"
    and "run_call (set_task_session tid p) w =
      set_tasks (update_where (\<lambda>r. t_id r = tid) (set_session (now w) p) (tasks w)) w"
    and "run_call (complete_task tid p) w =
      set_tasks (update_where (\<lambda>r. t_id r = tid) (set_complete (now w) p) (tasks w)) w"
    and "run_call (fail_task tid p) w =
      set_tasks (update_where (\<lambda>r. t_id r = tid) (set_failed (now w) p) (tasks w)) w"
  using assms
  by (simp_all add: run_call_def exec_ok_quiet update_task_progress_def set_task_session_def
      complete_task_def fail_task_def)

lemma retry_quiet [quiet_simps]:
  assumes "quiet w" and "\<forall>r \<in> set (tasks w). t_id r = tid \<longrightarrow> t_status r \<noteq> TaskFailed"
  shows "call (retry_task tid b) w = (Inl ErrNotFound, w)"
proof -
  have "count_where (\<lambda>t. t_id t = tid \<and> t_status t = TaskFailed) (db_tasks (w_db w)) = 0"
    using assms(2) by (auto simp: count_where_0 tasks_def)
  with assms(1) show ?thesis
    by (auto simp: call_quiet retry_task_def quiet_def exec_tasks_def)
qed

lemma promote_quiet:
  assumes "quiet w"
  shows "call (promote_pending_dependents tid) w =
    (Inr (map t_id (filter (\<lambda>r. t_depends r = tid \<and> t_status r \<in> {TaskPending, TaskBlocked}) (tasks w))),
     set_tasks (update_where (\<lambda>r. t_depends r = tid \<and> t_status r \<in> {TaskPending, TaskBlocked})
       (set_promoted (now w)) (tasks w)) w)"
  using assms
  by (auto simp: call_quiet promote_pending_dependents_def quiet_def exec_tasks_def set_tasks_def
      tasks_def now_def Let_def)

lemma block_quiet:
  assumes "quiet w"
  shows "call (block_dependents tid reason) w =
    (Inr (map t_id (filter (\<lambda>r. t_depends r = tid \<and> t_status r = TaskPending) (tasks w))),
     set_tasks (update_where (\<lambda>r. t_depends r = tid \<and> t_status r = TaskPending)
       (set_blocked (now w) reason) (tasks w)) w)"
proof -
  let ?P = "\<lambda>r. t_depends r = tid \<and> t_status r = TaskPending"
  have "filter ?P (tasks w) = [] \<Longrightarrow> update_where ?P f (tasks w) = tasks w" for f
    by (intro update_where_none) (auto simp: filter_empty_conv)
  with assms show ?thesis
    by (auto simp: call_quiet block_dependents_def dependent_ids_def block_rows_def exec_ok_def
        quiet_def exec_tasks_def set_tasks_def tasks_def now_def)
qed

lemma canceled_quiet [quiet_simps]:
  assumes "quiet w" and "\<forall>r \<in> set (tasks w). t_id r = tid \<longrightarrow> t_status r \<noteq> TaskCanceled"
  shows "check_canceled tid w = (False, w)"
  using assms
  by (auto simp: check_canceled_def call_quiet is_task_canceled_def quiet_def tasks_def
      split: option.splits dest: lookup_by_Some)

text \<open>The events of dependents.\<close>

definition task_event :: "string \<Rightarrow> (string \<times> json) list \<Rightarrow> message" where
  "task_event st p = \<lparr>m_type = ''task.event'', m_payload = JObj p, m_severity = severity_for st\<rparr>"

definition status_event :: "string \<Rightarrow> string \<Rightarrow> message" where
  "status_event st tid = task_event st [(''id'', JStr tid), (''status'', JStr st)]"

definition queued_event :: "string \<Rightarrow> string \<Rightarrow> message" where
  "queued_event up d = task_event ''queued''
     [(''id'', JStr d), (''status'', JStr ''queued''), (''upstream'', JStr up)]"

definition blocked_event :: "string \<Rightarrow> string \<Rightarrow> string \<Rightarrow> message" where
  "blocked_event up reason d = task_event ''blocked''
     [(''id'', JStr d), (''status'', JStr ''blocked''), (''upstream'', JStr up), (''reason'', JStr reason)]"

lemma out_push [simp]:
  "w_out (push_task_event st p w) = w_out w @ [task_event st p]"
  "w_out (push_task st tid w) = w_out w @ [status_event st tid]"
  by (simp_all add: push_task_event_def push_task_def broadcast_msg_def task_event_def status_event_def)

lemma out_push_each [simp]: "w_out (push_each st p ds w) = w_out w @ map (\<lambda>d. task_event st (p d)) ds"
  by (induction ds arbitrary: w) auto

text \<open>The rows that wait for \<open>tid\<close>, released or blocked.\<close>

definition promoted_table :: "string \<Rightarrow> time \<Rightarrow> task list \<Rightarrow> task list" where
  "promoted_table tid at ts = update_where
     (\<lambda>r. t_depends r = tid \<and> t_status r \<in> {TaskPending, TaskBlocked}) (set_promoted at) ts"

definition blocked_table :: "string \<Rightarrow> time \<Rightarrow> string \<Rightarrow> task list \<Rightarrow> task list" where
  "blocked_table tid at reason ts = update_where
     (\<lambda>r. t_depends r = tid \<and> t_status r = TaskPending) (set_blocked at reason) ts"

definition waiting_ids :: "string \<Rightarrow> task_status set \<Rightarrow> task list \<Rightarrow> string list" where
  "waiting_ids tid sts ts = map t_id (filter (\<lambda>r. t_depends r = tid \<and> t_status r \<in> sts) ts)"

lemma resolve_quiet:
  assumes "quiet w"
  shows "tasks (resolve_dependents tid True reason w) = promoted_table tid (now w) (tasks w)"
    and "w_out (resolve_dependents tid True reason w) =
      w_out w @ map (queued_event tid) (waiting_ids tid {TaskPending, TaskBlocked} (tasks w))"
    and "reason \<noteq> '''' \<Longrightarrow>
      tasks (resolve_dependents tid False reason w) = blocked_table tid (now w) reason (tasks w)"
    and "reason \<noteq> '''' \<Longrightarrow> w_out (resolve_dependents tid False reason w) =
      w_out w @ map (blocked_event tid reason) (waiting_ids tid {TaskPending} (tasks w))"
    and "now (resolve_dependents tid ok reason w) = now w"
    and "quiet (resolve_dependents tid ok reason w)"
  using assms
  by (auto simp: resolve_dependents_def promote_quiet block_quiet promoted_table_def blocked_table_def
      waiting_ids_def queued_event_def[abs_def] blocked_event_def[abs_def] Let_def)

subsection \<open>Tables up to the progress text\<close>

definition core :: "task \<Rightarrow> task" where
  "core r = r\<lparr>t_progress := '''', t_updated := 0\<rparr>"

definition core_eq :: "task list \<Rightarrow> task list \<Rightarrow> bool" where
  "core_eq ts ts' \<longleftrightarrow> map core ts = map core ts'"

lemma core_eq_refl [simp]: "core_eq ts ts"
  by (simp add: core_eq_def)

lemma core_eq_trans: "core_eq a b \<Longrightarrow> core_eq b c \<Longrightarrow> core_eq a c"
  by (simp add: core_eq_def)

lemma core_fields:
  assumes "core r = core r'"
  shows "t_id r = t_id r'" and "t_status r = t_status r'" and "t_depends r = t_depends r'"
proof -
  have "t_id (core r) = t_id (core r')" and "t_status (core r) = t_status (core r')"
    and "t_depends (core r) = t_depends (core r')"
    using assms by simp_all
  then show "t_id r = t_id r'" and "t_status r = t_status r'" and "t_depends r = t_depends r'"
    by (simp_all add: core_def)
qed

lemma core_eq_update:
  assumes "core_eq ts ts'"
    and "\<And>r r'. core r = core r' \<Longrightarrow> P r = Q r' \<and> core (f r) = core (g r')"
  shows "core_eq (update_where P f ts) (update_where Q g ts')"
proof -
  have "map core ts = map core ts' \<Longrightarrow>
      map core (update_where P f ts) = map core (update_where Q g ts')" for ts'
  proof (induction ts arbitrary: ts')
    case (Cons r ts)
    then obtain r' us where "ts' = r' # us" by (cases ts') auto
    with Cons assms(2)[of r r'] show ?case by auto
  qed simp
  with assms(1) show ?thesis by (simp add: core_eq_def)
qed

lemma core_eq_progress: "core_eq (update_where P (set_progress at p) ts) ts"
  by (induction ts) (auto simp: core_eq_def core_def set_progress_def)

lemma core_set: "core_eq ts ts' \<Longrightarrow> r \<in> set ts \<Longrightarrow> \<exists>r' \<in> set ts'. core r = core r'"
  unfolding core_eq_def by (metis imageE image_eqI list.set_map)

lemma core_eq_ids: "core_eq ts ts' \<Longrightarrow> (\<And>r r'. core r = core r' \<Longrightarrow> P r = Q r') \<Longrightarrow>
  map t_id (filter P ts) = map t_id (filter Q ts')"
proof -
  have "map core ts = map core ts' \<Longrightarrow> (\<And>r r'. core r = core r' \<Longrightarrow> P r = Q r') \<Longrightarrow>
      map t_id (filter P ts) = map t_id (filter Q ts')" for ts'
  proof (induction ts arbitrary: ts')
    case (Cons r ts)
    then obtain r' us where "ts' = r' # us" by (cases ts') auto
    with Cons.prems have c: "core r = core r'" and us: "map core ts = map core us" by simp_all
    have "P r = Q r'" by (rule Cons.prems(2)) (rule c)
    moreover have "map t_id (filter P ts) = map t_id (filter Q us)"
      by (rule Cons.IH[OF us]) (rule Cons.prems(2))
    ultimately show ?case using core_fields(1)[OF c] \<open>ts' = r' # us\<close> by simp
  qed simp
  then show "core_eq ts ts' \<Longrightarrow> (\<And>r r'. core r = core r' \<Longrightarrow> P r = Q r') \<Longrightarrow>
      map t_id (filter P ts) = map t_id (filter Q ts')"
    by (simp add: core_eq_def)
qed

lemma core_eq_waiting_ids: "core_eq ts ts' \<Longrightarrow> waiting_ids tid sts ts = waiting_ids tid sts ts'"
  unfolding waiting_ids_def by (rule core_eq_ids) (auto dest: core_fields)

lemma core_eq_promoted: "core_eq ts ts' \<Longrightarrow> core_eq (promoted_table tid at ts) (promoted_table tid at ts')"
  unfolding promoted_table_def
proof (rule core_eq_update)
  fix r r' assume c: "core r = core r'"
  have "core (set_promoted at r) = set_promoted 0 (core r)\<lparr>t_available := at\<rparr>" for r
    by (simp add: core_def set_promoted_def)
  with c core_fields[OF c] show "(t_depends r = tid \<and> t_status r \<in> {TaskPending, TaskBlocked}) =
      (t_depends r' = tid \<and> t_status r' \<in> {TaskPending, TaskBlocked}) \<and>
      core (set_promoted at r) = core (set_promoted at r')"
    by simp
qed

lemma core_eq_blocked:
  "core_eq ts ts' \<Longrightarrow> core_eq (blocked_table tid at reason ts) (blocked_table tid at reason ts')"
  unfolding blocked_table_def
proof (rule core_eq_update)
  fix r r' assume c: "core r = core r'"
  have "core (set_blocked at reason r) = (core r)\<lparr>t_status := TaskBlocked, t_error := reason,
      t_finished := Some at\<rparr>" for r
    by (simp add: core_def set_blocked_def)
  with c core_fields[OF c] show "(t_depends r = tid \<and> t_status r = TaskPending) =
      (t_depends r' = tid \<and> t_status r' = TaskPending) \<and>
      core (set_blocked at reason r) = core (set_blocked at reason r')"
    by simp
qed

lemma core_eq_complete: "core_eq ts ts' \<Longrightarrow>
  core_eq (update_where (\<lambda>r. t_id r = tid) (set_complete at res) ts)
    (update_where (\<lambda>r. t_id r = tid) (set_complete at res) ts')"
proof (erule core_eq_update)
  fix r r' assume c: "core r = core r'"
  have "core (set_complete at res r) = (core r)\<lparr>t_status := TaskSucceeded, t_result := res,
      t_finished := Some at\<rparr>" for r
    by (simp add: core_def set_complete_def)
  with c core_fields[OF c] show "(t_id r = tid) = (t_id r' = tid) \<and>
      core (set_complete at res r) = core (set_complete at res r')"
    by simp
qed

lemma core_eq_failed: "core_eq ts ts' \<Longrightarrow>
  core_eq (update_where (\<lambda>r. t_id r = tid) (set_failed at err) ts)
    (update_where (\<lambda>r. t_id r = tid) (set_failed at err) ts')"
proof (erule core_eq_update)
  fix r r' assume c: "core r = core r'"
  have "core (set_failed at err r) = (core r)\<lparr>t_status := TaskFailed, t_error := err,
      t_finished := Some at\<rparr>" for r
    by (simp add: core_def set_failed_def)
  with c core_fields[OF c] show "(t_id r = tid) = (t_id r' = tid) \<and>
      core (set_failed at err r) = core (set_failed at err r')"
    by simp
qed

definition not_canceled :: "string \<Rightarrow> task list \<Rightarrow> bool" where
  "not_canceled tid ts \<longleftrightarrow> (\<forall>r \<in> set ts. t_id r = tid \<longrightarrow> t_status r \<noteq> TaskCanceled)"

lemma core_not_canceled: "core_eq ts ts' \<Longrightarrow> not_canceled tid ts' \<Longrightarrow> not_canceled tid ts"
  unfolding not_canceled_def by (metis core_set core_fields(1,2))

subsection \<open>The wait\<close>

text \<open>A round in which the session is busy, and the last one.\<close>

lemma wait_idle_busy:
  assumes "quiet w" and "not_canceled tid (tasks w)" and "now w < deadline" and "v_ctx v i = None"
    and "is_session_busy (v_status v i) sid = Inr True"
  shows "wait_idle v sid tid deadline i w = wait_idle v sid tid deadline (Suc i)
    (set_tasks (update_where (\<lambda>r. t_id r = tid)
        (set_progress (now w + 3 * second) ''agent working...'') (tasks w)) (advance (3 * second) w))"
  using assms by (subst wait_idle.simps) (simp add: quiet_simps not_canceled_def)

lemma wait_idle_done:
  assumes "quiet w" and "not_canceled tid (tasks w)" and "now w < deadline" and "v_ctx v i = None"
    and "is_session_busy (v_status v i) sid = Inr False"
  shows "wait_idle v sid tid deadline i w = (Inr (), advance (3 * second) w)"
  using assms by (subst wait_idle.simps) (simp add: quiet_simps not_canceled_def)

text \<open>Any number of busy rounds before the deadline.\<close>

lemma wait_idle_rounds:
  assumes "quiet w" and "not_canceled tid (tasks w)" and "\<forall>j < n. v_ctx v (i + j) = None"
    and "\<forall>j < n. is_session_busy (v_status v (i + j)) sid = Inr True"
    and "now w + 3 * second * int n < deadline + 3 * second"
  obtains w' where "wait_idle v sid tid deadline i w = wait_idle v sid tid deadline (i + n) w'"
    and "core_eq (tasks w') (tasks w)" and "quiet w'" and "w_out w' = w_out w"
    and "w_jobs w' = w_jobs w" and "now w' = now w + 3 * second * int n"
  using assms
proof (induction n arbitrary: i w thesis)
  case 0
  then show ?case by simp
next
  case (Suc n)
  let ?w = "set_tasks (update_where (\<lambda>r. t_id r = tid)
        (set_progress (now w + 3 * second) ''agent working...'') (tasks w)) (advance (3 * second) w)"
  have busy: "\<forall>j < n. is_session_busy (v_status v (Suc i + j)) sid = Inr True"
    using Suc.prems(5) by (metis Suc_less_eq add_Suc_shift)
  have ctx: "\<forall>j < n. v_ctx v (Suc i + j) = None"
    using Suc.prems(4) by (metis Suc_less_eq add_Suc_shift)
  have ce: "core_eq (tasks ?w) (tasks w)" by (simp add: core_eq_progress)
  have nc: "not_canceled tid (tasks ?w)" by (rule core_not_canceled[OF ce Suc.prems(3)])
  have q: "quiet ?w" using Suc.prems(2) by simp
  have dl: "now ?w + 3 * second * int n < deadline + 3 * second"
    using Suc.prems(6) by (simp add: algebra_simps)
  obtain w' where w': "wait_idle v sid tid deadline (Suc i) ?w = wait_idle v sid tid deadline (Suc i + n) w'"
    "core_eq (tasks w') (tasks ?w)" "quiet w'" "w_out w' = w_out ?w" "w_jobs w' = w_jobs ?w"
    "now w' = now ?w + 3 * second * int n"
    using Suc.IH[OF _ q nc ctx busy dl] by blast
  have "v_ctx v i = None" and "is_session_busy (v_status v i) sid = Inr True"
    using Suc.prems(4,5) by (metis add_0_right zero_less_Suc)+
  moreover have "now w < deadline" using Suc.prems(6) by (simp add: algebra_simps)
  ultimately have r: "wait_idle v sid tid deadline i w = wait_idle v sid tid deadline (i + Suc n) w'"
    using w'(1) Suc.prems(2,3) by (simp add: wait_idle_busy)
  have "now w' = now w + 3 * second * int (Suc n)"
    using w'(6) by (simp add: algebra_simps)
  then show ?case
    by (intro Suc.prems(1)[OF r core_eq_trans[OF w'(2) ce]]) (use w' in simp_all)
qed

lemma wait_idle_quiet:
  assumes "quiet w" and "not_canceled tid (tasks w)" and "\<forall>j < Suc n. v_ctx v j = None"
    and "\<forall>j < n. is_session_busy (v_status v j) sid = Inr True"
    and "is_session_busy (v_status v n) sid = Inr False"
    and "now w + 3 * second * int n < deadline"
  obtains w' where "wait_idle v sid tid deadline 0 w = (Inr (), w')"
    and "core_eq (tasks w') (tasks w)" and "quiet w'" and "w_out w' = w_out w"
    and "w_jobs w' = w_jobs w" and "now w' = now w + 3 * second * int (Suc n)"
proof -
  obtain w1 where w1: "wait_idle v sid tid deadline 0 w = wait_idle v sid tid deadline (0 + n) w1"
    "core_eq (tasks w1) (tasks w)" "quiet w1" "w_out w1 = w_out w" "w_jobs w1 = w_jobs w"
    "now w1 = now w + 3 * second * int n"
    by (rule wait_idle_rounds[of w tid n v 0 sid deadline]) (use assms in auto)
  have "wait_idle v sid tid deadline n w1 = (Inr (), advance (3 * second) w1)"
    using assms(3,5,6) w1(3,6) core_not_canceled[OF w1(2) assms(2)] by (intro wait_idle_done) auto
  then have "wait_idle v sid tid deadline 0 w = (Inr (), advance (3 * second) w1)"
    using w1(1) by simp
  then show thesis
    by (rule that) (use w1 in \<open>simp_all add: algebra_simps\<close>)
qed

lemma wait_idle_deadline:
  assumes "quiet w" and "not_canceled tid (tasks w)" and "\<forall>j < n. v_ctx v j = None"
    and "\<forall>j < n. is_session_busy (v_status v j) sid = Inr True"
    and "now w + 3 * second * int n = deadline"
  obtains w' where "wait_idle v sid tid deadline 0 w = (Inr (), w')"
    and "core_eq (tasks w') (tasks w)" and "quiet w'" and "w_out w' = w_out w"
    and "w_jobs w' = w_jobs w" and "now w' = deadline"
proof -
  obtain w1 where w1: "wait_idle v sid tid deadline 0 w = wait_idle v sid tid deadline (0 + n) w1"
    "core_eq (tasks w1) (tasks w)" "quiet w1" "w_out w1 = w_out w" "w_jobs w1 = w_jobs w"
    "now w1 = now w + 3 * second * int n"
    by (rule wait_idle_rounds[of w tid n v 0 sid deadline]) (use assms in auto)
  have "wait_idle v sid tid deadline n w1 = (Inr (), w1)"
    using w1(6) assms(5) by (subst wait_idle.simps) simp
  then show thesis
    using w1 assms(5) by (intro that[of w1]) simp_all
qed

lemma prompt_session_quiet:
  assumes "quiet w" and "not_canceled (t_id t) (tasks w)"
    and "v_prompt v sid (t_prompt t) (t_dir t) = Inr r" and "h_code r < 300"
    and "\<forall>j < Suc n. v_ctx v j = None"
    and "\<forall>j < n. is_session_busy (v_status v j) sid = Inr True"
    and "is_session_busy (v_status v n) sid = Inr False" and "n < 200"
  obtains w' where "prompt_session v sid t w =
      (case last_assistant_text (v_messages v sid) of Inl e \<Rightarrow> Inl (ExecErr e) | Inr txt \<Rightarrow> Inr txt, w')"
    and "core_eq (tasks w') (tasks w)" and "quiet w'" and "w_out w' = w_out w"
    and "w_jobs w' = w_jobs w" and "now w' = now w + 3 * second * int (Suc n)"
proof -
  let ?w = "set_tasks (update_where (\<lambda>r. t_id r = t_id t) (set_progress (now w) ''prompt admitted'') (tasks w)) w"
  have ce: "core_eq (tasks ?w) (tasks w)" by (simp add: core_eq_progress)
  have nc: "not_canceled (t_id t) (tasks ?w)" by (rule core_not_canceled[OF ce assms(2)])
  obtain w' where w': "wait_idle v sid (t_id t) (now w + 10 * minute) 0 ?w = (Inr (), w')"
    "core_eq (tasks w') (tasks ?w)" "quiet w'" "w_out w' = w_out ?w" "w_jobs w' = w_jobs ?w"
    "now w' = now ?w + 3 * second * int (Suc n)"
    by (rule wait_idle_quiet[of ?w "t_id t" n v sid "now w + 10 * minute"])
      (use assms nc in auto)
  have "prompt_session v sid t w = (case last_assistant_text (v_messages v sid) of
      Inl e \<Rightarrow> Inl (ExecErr e) | Inr txt \<Rightarrow> Inr txt, w')"
    using assms(1,3,4) w'(1) by (simp add: prompt_session_def quiet_simps split: sum.split)
  then show thesis
    by (rule that[OF _ core_eq_trans[OF w'(2) ce]]) (use w' in simp_all)
qed

subsection \<open>Executions\<close>

definition session_of :: "env \<Rightarrow> task \<Rightarrow> string + string" where
  "session_of v t = (if t_session t \<noteq> '''' then Inr (t_session t) else create_session v (t_dir t))"

definition session_table :: "task \<Rightarrow> string \<Rightarrow> time \<Rightarrow> task list \<Rightarrow> task list" where
  "session_table t sid at ts =
     (if t_session t = '''' then update_where (\<lambda>r. t_id r = t_id t) (set_session at sid) ts else ts)"

definition completed_table :: "task \<Rightarrow> string \<Rightarrow> string \<Rightarrow> time \<Rightarrow> time \<Rightarrow> task list \<Rightarrow> task list" where
  "completed_table t sid txt start at ts =
     update_where (\<lambda>r. t_id r = t_id t) (set_complete at txt) (session_table t sid start ts)"

lemma session_not_canceled:
  "not_canceled tid ts \<Longrightarrow> not_canceled tid (session_table t sid at ts)"
  by (auto simp: not_canceled_def session_table_def set_update_where set_session_def)

text \<open>Up to the prompt.\<close>

lemma execute_session:
  assumes "quiet w" and "not_canceled (t_id t) (tasks w)" and "session_of v t = Inr sid"
  obtains w1 where "execute e v t w = run_prompt e v t sid w1" and "quiet w1" and "now w1 = now w"
    and "core_eq (tasks w1) (session_table t sid (now w) (tasks w))"
    and "w_out w1 = w_out w @ [status_event ''running'' (t_id t)]" and "w_jobs w1 = w_jobs w"
proof (cases "t_session t = ''''")
  case False
  then have "execute e v t w = run_prompt e v t sid (push_task ''running'' (t_id t) w)"
    using assms(3) by (simp add: execute_def session_of_def Let_def)
  then show ?thesis
    by (rule that) (use assms(1) False in \<open>simp_all add: session_table_def\<close>)
next
  case True
  let ?w = "push_task ''running'' (t_id t) w"
  let ?w1 = "run_call (update_task_progress (t_id t) ''session created'')
      (run_call (set_task_session (t_id t) sid) ?w)"
  have "\<forall>r \<in> set (tasks ?w). t_id r = t_id t \<longrightarrow> t_status r \<noteq> TaskCanceled"
    using assms(2) by (simp add: not_canceled_def)
  then have "execute e v t w = run_prompt e v t sid ?w1"
    using assms(1,3) True by (simp add: execute_def session_of_def Let_def canceled_quiet)
  then show ?thesis
    by (rule that)
      (use assms(1) True in \<open>simp_all add: quiet_simps session_table_def core_eq_progress\<close>)
qed

text \<open>After the prompt: the end of a run that has an answer.\<close>

lemma run_prompt_success:
  assumes "prompt_session v sid t w1 = (Inr txt, w2)" and "quiet w2" and "core_eq (tasks w2) ts"
    and "done_tasks = update_where (\<lambda>r. t_id r = t_id t) (set_complete (now w2) txt) ts"
  shows "\<exists>w'. run_prompt e v t sid w1 = (Returned, w') \<and>
    core_eq (tasks w') (promoted_table (t_id t) (now w2) done_tasks) \<and>
    w_out w' = w_out w2 @
      map (queued_event (t_id t)) (waiting_ids (t_id t) {TaskPending, TaskBlocked} done_tasks) @
      [status_event ''succeeded'' (t_id t)] \<and>
    w_jobs w' = w_jobs w2 @ (if x_llm e then [SummaryJob (t_id t) (t_prompt t) txt] else [])"
proof -
  let ?w3 = "set_tasks (update_where (\<lambda>r. t_id r = t_id t) (set_complete (now w2) txt) (tasks w2)) w2"
  let ?w4 = "resolve_dependents (t_id t) True '''' ?w3"
  let ?w' = "push_summary e t txt (push_task ''succeeded'' (t_id t) ?w4)"
  have ex: "run_prompt e v t sid w1 = (Returned, ?w')"
    using assms(1,2) by (simp add: run_prompt_def quiet_simps)
  have done_eq: "core_eq (tasks ?w3) done_tasks"
    unfolding assms(4) set_tasks_simps by (rule core_eq_complete) fact
  have q: "quiet ?w3" using assms(2) by simp
  have "w_jobs ?w4 = w_jobs w2"
    using assms(2) by (simp add: resolve_dependents_def promote_quiet)
  then show ?thesis
    using ex core_eq_promoted[OF done_eq] core_eq_waiting_ids[OF done_eq]
      resolve_quiet(1,2)[OF q, of "t_id t" "''''"]
    by (intro exI[of _ ?w']) simp
qed

lemma execute_settles:
  assumes "quiet w" and "not_canceled (t_id t) (tasks w)" and "session_of v t = Inr sid"
    and prompt: "\<And>w1. quiet w1 \<Longrightarrow> not_canceled (t_id t) (tasks w1) \<Longrightarrow> now w1 = now w \<Longrightarrow>
      \<exists>w2. prompt_session v sid t w1 = (Inr txt, w2) \<and> quiet w2 \<and> core_eq (tasks w2) (tasks w1) \<and>
        w_out w2 = w_out w1 \<and> w_jobs w2 = w_jobs w1 \<and> now w2 = at"
    and "done_tasks = completed_table t sid txt (now w) at (tasks w)"
  shows "\<exists>w'. execute e v t w = (Returned, w') \<and>
    core_eq (tasks w') (promoted_table (t_id t) at done_tasks) \<and>
    w_out w' = w_out w @ [status_event ''running'' (t_id t)] @
      map (queued_event (t_id t)) (waiting_ids (t_id t) {TaskPending, TaskBlocked} done_tasks) @
      [status_event ''succeeded'' (t_id t)] \<and>
    w_jobs w' = w_jobs w @ (if x_llm e then [SummaryJob (t_id t) (t_prompt t) txt] else [])"
proof -
  obtain w1 where w1: "execute e v t w = run_prompt e v t sid w1" "quiet w1" "now w1 = now w"
    "core_eq (tasks w1) (session_table t sid (now w) (tasks w))"
    "w_out w1 = w_out w @ [status_event ''running'' (t_id t)]" "w_jobs w1 = w_jobs w"
    by (rule execute_session[OF assms(1-3)])
  have nc: "not_canceled (t_id t) (tasks w1)"
    by (rule core_not_canceled[OF w1(4) session_not_canceled[OF assms(2)]])
  obtain w2 where w2: "prompt_session v sid t w1 = (Inr txt, w2)" "quiet w2"
    "core_eq (tasks w2) (tasks w1)" "w_out w2 = w_out w1" "w_jobs w2 = w_jobs w1" "now w2 = at"
    using prompt[OF w1(2) nc w1(3)] by blast
  have "done_tasks = update_where (\<lambda>r. t_id r = t_id t) (set_complete (now w2) txt)
      (session_table t sid (now w) (tasks w))"
    using assms(5) w2(6) by (simp add: completed_table_def)
  from run_prompt_success[OF w2(1,2) core_eq_trans[OF w2(3) w1(4)] this, of e] show ?thesis
    using w1(1,5,6) w2(4-6) by simp
qed

text \<open>A server for concrete runs: the session is busy for \<open>n\<close> polls and then answers \<open>txt\<close>.\<close>

definition ok_response :: "json \<Rightarrow> response" where
  "ok_response j = \<lparr>h_code = 200, h_status = ''200 OK'', h_raw = '''', h_json = Inr j\<rparr>"

definition demo_env :: "nat \<Rightarrow> string \<Rightarrow> env" where
  "demo_env n txt = \<lparr>v_create = (\<lambda>_. Inr (ok_response (JObj [(''id'', JStr ''s1'')]))),
     v_prompt = (\<lambda>_ _ _. Inr (ok_response JNull)),
     v_ctx = (\<lambda>_. None),
     v_status = (\<lambda>i. Inr (ok_response (JObj (if i < n then [(''s1'', JObj [(''type'', JStr ''busy'')])] else [])))),
     v_messages = (\<lambda>_. Inr (ok_response (JArr [JObj [(''role'', JStr ''assistant''),
        (''content'', JArr [JObj [(''type'', JStr ''text''), (''text'', JStr txt)]])]]))),
     v_llm_json = (\<lambda>_ _. Inl ''disabled'')\<rparr>"

definition demo_world :: "task list \<Rightarrow> world" where
  "demo_world ts = \<lparr>w_db = db_of ts 0, w_out = [], w_jobs = [], w_sched = []\<rparr>"

lemma demo_world_simps [simp]:
  "quiet (demo_world ts)" "tasks (demo_world ts) = ts" "now (demo_world ts) = 0"
  "w_out (demo_world ts) = []" "w_jobs (demo_world ts) = []"
  by (simp_all add: demo_world_def quiet_def tasks_def now_def db_of_def empty_db_def)

lemmas json_eval = field_vals_def str_field_def list_field_def equal_fold_def to_lower_def
  lower_char_def content_block_def chat_message_def map_entry_def block_texts_def ok_response_def

lemma demo_env_simps [simp]:
  "t_session t = '''' \<Longrightarrow> session_of (demo_env n txt) t = Inr ''s1''"
  "v_prompt (demo_env n txt) sid p d = Inr (ok_response JNull)"
  "v_ctx (demo_env n txt) i = None"
  "is_session_busy (v_status (demo_env n txt) i) ''s1'' = Inr (i < n)"
  "txt \<noteq> '''' \<Longrightarrow> last_assistant_text (v_messages (demo_env n txt) sid) = Inr txt"
  "h_code (ok_response j) = 200"
  by (simp_all add: demo_env_def session_of_def create_session_def is_session_busy_def
      last_assistant_text_def json_eval)

lemma core_eq_statuses: "core_eq ts ts' \<Longrightarrow> map t_status ts = map t_status ts'"
proof -
  have "map (t_status \<circ> core) ts = map (t_status \<circ> core) ts'" if "core_eq ts ts'"
    using that unfolding core_eq_def map_map[symmetric] by simp
  moreover have "t_status \<circ> core = t_status" by (auto simp: core_def)
  ultimately show "core_eq ts ts' \<Longrightarrow> map t_status ts = map t_status ts'" by simp
qed

text \<open>
  C13. A task that succeeds. With the database to itself, for every prompt the server admits and
  every session that becomes idle within the ten minutes (\<open>n\<close> busy polls of three seconds each),
  \<open>execute\<close> writes the last assistant text as the result of the task's row, stamps it with the
  end of the wait, releases exactly the tasks waiting on it (pending and blocked), changes no
  other row, broadcasts \<open>running\<close>, one \<open>queued\<close> event per released task and \<open>succeeded\<close>, in this
  order, and starts the summary when the language model is configured.
\<close>
theorem execute_success:
  assumes "quiet w" and "not_canceled (t_id t) (tasks w)" and "session_of v t = Inr sid"
    and "v_prompt v sid (t_prompt t) (t_dir t) = Inr r" and "h_code r < 300"
    and "\<forall>j < Suc n. v_ctx v j = None"
    and "\<forall>j < n. is_session_busy (v_status v j) sid = Inr True"
    and "is_session_busy (v_status v n) sid = Inr False" and "n < 200"
    and "last_assistant_text (v_messages v sid) = Inr txt"
    and "at = now w + 3 * second * int (Suc n)"
    and "done_tasks = completed_table t sid txt (now w) at (tasks w)"
  shows "\<exists>w'. execute e v t w = (Returned, w') \<and>
    core_eq (tasks w') (promoted_table (t_id t) at done_tasks) \<and>
    w_out w' = w_out w @ [status_event ''running'' (t_id t)] @
      map (queued_event (t_id t)) (waiting_ids (t_id t) {TaskPending, TaskBlocked} done_tasks) @
      [status_event ''succeeded'' (t_id t)] \<and>
    w_jobs w' = w_jobs w @ (if x_llm e then [SummaryJob (t_id t) (t_prompt t) txt] else [])"
proof (rule execute_settles[OF assms(1-3) _ assms(12)])
  fix w1 assume w1: "quiet w1" "not_canceled (t_id t) (tasks w1)" "now w1 = now w"
  show "\<exists>w2. prompt_session v sid t w1 = (Inr txt, w2) \<and> quiet w2 \<and> core_eq (tasks w2) (tasks w1) \<and>
      w_out w2 = w_out w1 \<and> w_jobs w2 = w_jobs w1 \<and> now w2 = at"
    by (rule prompt_session_quiet[OF w1(1,2) assms(4-9)]) (use w1(3) assms(10,11) in auto)
qed

lemma execute_success_witness:
  "let t = mk_task ''a'' '''' TaskRunning 1;
       w = demo_world [t, mk_task ''b'' ''a'' TaskPending 2, mk_task ''c'' ''a'' TaskBlocked 3]
   in map t_status (tasks (snd (execute new_executor (demo_env 2 ''done'') t w))) =
        [TaskSucceeded, TaskQueued, TaskQueued]"
proof -
  let ?t = "mk_task ''a'' '''' TaskRunning 1"
  let ?ts = "[?t, mk_task ''b'' ''a'' TaskPending 2, mk_task ''c'' ''a'' TaskBlocked 3]"
  let ?d = "completed_table ?t ''s1'' ''done'' 0 (9 * second) ?ts"
  have "\<exists>w'. execute new_executor (demo_env 2 ''done'') ?t (demo_world ?ts) = (Returned, w') \<and>
    core_eq (tasks w') (promoted_table (t_id ?t) (9 * second) ?d) \<and>
    w_out w' = w_out (demo_world ?ts) @ [status_event ''running'' (t_id ?t)] @
      map (queued_event (t_id ?t)) (waiting_ids (t_id ?t) {TaskPending, TaskBlocked} ?d) @
      [status_event ''succeeded'' (t_id ?t)] \<and>
    w_jobs w' = w_jobs (demo_world ?ts) @
      (if x_llm new_executor then [SummaryJob (t_id ?t) (t_prompt ?t) ''done''] else [])"
    by (rule execute_success[where n = 2 and r = "ok_response JNull" and sid = "''s1''"])
      (simp_all add: not_canceled_def mk_task_def)
  then obtain w' where "execute new_executor (demo_env 2 ''done'') ?t (demo_world ?ts) = (Returned, w')"
    and "core_eq (tasks w') (promoted_table (t_id ?t) (9 * second) ?d)" by (elim exE conjE)
  then have "map t_status (tasks (snd (execute new_executor (demo_env 2 ''done'') ?t (demo_world ?ts)))) =
      map t_status (promoted_table (t_id ?t) (9 * second) ?d)"
    by (simp only: snd_conv) (rule core_eq_statuses)
  then show ?thesis
    by (simp add: Let_def mk_task_def completed_table_def session_table_def promoted_table_def
        set_session_def set_complete_def set_promoted_def)
qed

end
