(* ===== verification/ExecutorSafety.thy ===== *)
theory ExecutorSafety
  imports ExecutorSpec
begin

text \<open>
  The executor's guarantees beyond the successful run: the wait is bounded, the deadline, failures
  and what becomes of the retries, cancellation, and the invariants of the task table under any
  interleaving with the rest of the program.
\<close>

subsection \<open>The bound of the wait\<close>

lemma wait_idle_bounded:
  assumes "\<And>j. j < 200 \<Longrightarrow> v_status v j = v_status v' j \<and> v_ctx v j = v_ctx v' j"
    and "deadline \<le> now w + 3 * second * (200 - int i)"
  shows "wait_idle v sid tid deadline i w = wait_idle v' sid tid deadline i w"
  using assms
proof (induction v sid tid deadline i w rule: wait_idle.induct)
  case (1 v sid tid deadline i w)
  show ?case
  proof (cases "now w < deadline")
    case False
    then show ?thesis by (subst (1 2) wait_idle.simps) simp
  next
    case True
    then have i: "i < 200" using "1.prems"(2) by simp
    obtain b w1 where c: "check_canceled tid w = (b, w1)" by fastforce
    let ?w2 = "run_call (update_task_progress tid ''agent working...'') (advance (3 * second) w1)"
    have t: "now w \<le> now w1" by (rule check_canceled_clock[OF c])
    have "now (advance (3 * second) w1) \<le> now ?w2" by (rule progress_clock)
    with t have "now w + 3 * second \<le> now ?w2" by simp
    then have "deadline \<le> now ?w2 + 3 * second * (200 - int (Suc i))"
      using "1.prems"(2) by (simp add: algebra_simps)
    then have "v_ctx v i = None \<Longrightarrow> \<not> b \<Longrightarrow> is_session_busy (v_status v i) sid = Inr True \<Longrightarrow>
        wait_idle v sid tid deadline (Suc i) ?w2 = wait_idle v' sid tid deadline (Suc i) ?w2"
      using True by (intro "1.IH"[OF _ _ c[symmetric]]) (use "1.prems"(1) in auto)
    then show ?thesis
      using "1.prems"(1)[OF i] c by (subst (1 2) wait_idle.simps) (auto split: option.split sum.split)
  qed
qed

text \<open>
  C15. The wait for an answer is bounded. Whatever the other goroutines, the database and the
  clock do meanwhile, an execution asks for the session's status at most 200 times: servers that
  agree on the first 200 polls lead to the same outcome, the same database and the same messages.
\<close>
theorem execute_polls_bounded:
  assumes "\<forall>j < 200. v_status v' j = v_status v j \<and> v_ctx v' j = v_ctx v j"
    and "v_create v' = v_create v" and "v_prompt v' = v_prompt v"
    and "v_messages v' = v_messages v" and "v_llm_json v' = v_llm_json v"
  shows "execute e v' t w = execute e v t w"
proof -
  have wait: "wait_idle v' sid tid (now w + 10 * minute) 0 w = wait_idle v sid tid (now w + 10 * minute) 0 w"
    for sid tid w
    using assms(1) by (intro wait_idle_bounded) auto
  have p: "prompt_session v' sid t w = prompt_session v sid t w" for sid w
    unfolding prompt_session_def Let_def assms(3,4) wait ..
  have "decide_failure v' = decide_failure v"
    using assms(5) by (simp add: decide_failure_def fun_eq_iff)
  then have f: "fail_with_retry e v' t err w = fail_with_retry e v t err w" for err w
    unfolding fail_with_retry_def by simp
  have q: "run_prompt e v' t sid w = run_prompt e v t sid w" for sid w
    unfolding run_prompt_def p f ..
  have c: "create_session v' dir = create_session v dir" for dir
    unfolding create_session_def assms(2) ..
  show ?thesis
    unfolding execute_def Let_def q f c ..
qed

lemma execute_polls_bounded_witness:
  "execute new_executor (demo_env 1000 ''x'') (mk_task ''a'' '''' TaskRunning 1) (demo_world []) =
   execute new_executor (demo_env 200 ''x'') (mk_task ''a'' '''' TaskRunning 1) (demo_world [])"
  by (rule execute_polls_bounded) (simp_all add: demo_env_def)

text \<open>
  C18. The deadline passes for a success. When the session is still busy at the end of the ten
  minutes, the wait ends without an error: the task is stored as succeeded with whatever text the
  session has then, and the tasks waiting on it are released to work on it.
\<close>
theorem execute_deadline_succeeds:
  assumes "quiet w" and "not_canceled (t_id t) (tasks w)" and "session_of v t = Inr sid"
    and "v_prompt v sid (t_prompt t) (t_dir t) = Inr r" and "h_code r < 300"
    and "\<forall>j < 200. v_ctx v j = None"
    and "\<forall>j < 200. is_session_busy (v_status v j) sid = Inr True"
    and "last_assistant_text (v_messages v sid) = Inr txt"
    and "done_tasks = completed_table t sid txt (now w) (now w + 10 * minute) (tasks w)"
  shows "\<exists>w'. execute e v t w = (Returned, w') \<and>
    core_eq (tasks w') (promoted_table (t_id t) (now w + 10 * minute) done_tasks) \<and>
    w_out w' = w_out w @ [status_event ''running'' (t_id t)] @
      map (queued_event (t_id t)) (waiting_ids (t_id t) {TaskPending, TaskBlocked} done_tasks) @
      [status_event ''succeeded'' (t_id t)] \<and>
    w_jobs w' = w_jobs w @ (if x_llm e then [SummaryJob (t_id t) (t_prompt t) txt] else [])"
proof (rule execute_settles[OF assms(1-3) _ assms(9)])
  fix w1 assume w1: "quiet w1" "not_canceled (t_id t) (tasks w1)" "now w1 = now w"
  let ?w = "set_tasks (update_where (\<lambda>r. t_id r = t_id t) (set_progress (now w1) ''prompt admitted'') (tasks w1)) w1"
  have ce: "core_eq (tasks ?w) (tasks w1)" by (simp add: core_eq_progress)
  obtain w2 where w2: "wait_idle v sid (t_id t) (now w1 + 10 * minute) 0 ?w = (Inr (), w2)"
    "core_eq (tasks w2) (tasks ?w)" "quiet w2" "w_out w2 = w_out ?w" "w_jobs w2 = w_jobs ?w"
    "now w2 = now w1 + 10 * minute"
    by (rule wait_idle_deadline[of ?w "t_id t" 200 v sid "now w1 + 10 * minute"])
      (use assms(6,7) w1 core_not_canceled[OF ce w1(2)] in auto)
  have "prompt_session v sid t w1 = (Inr txt, w2)"
    using assms(4,5,8) w1(1) w2(1) by (simp add: prompt_session_def quiet_simps)
  then show "\<exists>w2. prompt_session v sid t w1 = (Inr txt, w2) \<and> quiet w2 \<and> core_eq (tasks w2) (tasks w1) \<and>
      w_out w2 = w_out w1 \<and> w_jobs w2 = w_jobs w1 \<and> now w2 = now w + 10 * minute"
    using w2 w1(3) core_eq_trans[OF w2(2) ce] by auto
qed

lemma execute_deadline_succeeds_witness:
  "\<exists>w'. execute new_executor (demo_env 1000 ''half'') (mk_task ''a'' '''' TaskRunning 1)
      (demo_world [mk_task ''a'' '''' TaskRunning 1]) = (Returned, w') \<and>
    map t_status (tasks w') = [TaskSucceeded]"
proof -
  let ?t = "mk_task ''a'' '''' TaskRunning 1"
  let ?d = "completed_table ?t ''s1'' ''half'' 0 (10 * minute) [?t]"
  let ?w = "demo_world [?t]"
  have "\<exists>w'. execute new_executor (demo_env 1000 ''half'') ?t ?w = (Returned, w') \<and>
    core_eq (tasks w') (promoted_table (t_id ?t) (now ?w + 10 * minute) ?d) \<and>
    w_out w' = w_out ?w @ [status_event ''running'' (t_id ?t)] @
      map (queued_event (t_id ?t)) (waiting_ids (t_id ?t) {TaskPending, TaskBlocked} ?d) @
      [status_event ''succeeded'' (t_id ?t)] \<and>
    w_jobs w' = w_jobs ?w @
      (if x_llm new_executor then [SummaryJob (t_id ?t) (t_prompt ?t) ''half''] else [])"
    by (rule execute_deadline_succeeds[where r = "ok_response JNull" and sid = "''s1''"])
      (simp_all add: not_canceled_def mk_task_def)
  then obtain w' where r: "execute new_executor (demo_env 1000 ''half'') ?t ?w = (Returned, w')"
    and c: "core_eq (tasks w') (promoted_table (t_id ?t) (now ?w + 10 * minute) ?d)"
    by (elim exE conjE)
  have "map t_status (promoted_table (t_id ?t) (now ?w + 10 * minute) ?d) = [TaskSucceeded]"
    by (simp add: mk_task_def completed_table_def session_table_def promoted_table_def
        set_session_def set_complete_def)
  with r core_eq_statuses[OF c] show ?thesis by (intro exI[of _ w']) simp
qed

subsection \<open>Failures and retries\<close>

definition failed_table :: "string \<Rightarrow> string \<Rightarrow> time \<Rightarrow> task list \<Rightarrow> task list" where
  "failed_table tid err at ts =
     blocked_table tid at err (update_where (\<lambda>r. t_id r = tid) (set_failed at err) ts)"

text \<open>Why \<open>promptSession\<close> fails before it waits.\<close>

definition prompt_error :: "env \<Rightarrow> string \<Rightarrow> task \<Rightarrow> string option" where
  "prompt_error v sid t =
     (case v_prompt v sid (t_prompt t) (t_dir t) of
        Inl e \<Rightarrow> Some e
      | Inr r \<Rightarrow> if 300 \<le> h_code r then Some (''prompt: '' @ h_status r @ '': '' @ h_raw r) else None)"

lemma run_prompt_error:
  "prompt_error v sid t = Some err \<Longrightarrow> run_prompt e v t sid w = fail_with_retry e v t err w"
  by (auto simp: prompt_error_def run_prompt_def prompt_session_def split: sum.splits if_splits)

definition no_failed :: "string \<Rightarrow> task list \<Rightarrow> bool" where
  "no_failed tid ts \<longleftrightarrow> (\<forall>r \<in> set ts. t_id r = tid \<longrightarrow> t_status r \<noteq> TaskFailed)"

lemma core_no_failed: "core_eq ts ts' \<Longrightarrow> no_failed tid ts' \<Longrightarrow> no_failed tid ts"
  unfolding no_failed_def by (metis core_set core_fields(1,2))

lemma session_no_failed: "no_failed tid ts \<Longrightarrow> no_failed tid (session_table t sid at ts)"
  by (auto simp: no_failed_def session_table_def set_update_where set_session_def)

lemma give_up_quiet:
  assumes "quiet w" and "core_eq (tasks w) ts" and "err \<noteq> ''''"
  shows "core_eq (tasks (give_up t err w)) (failed_table (t_id t) err (now w) ts)"
    and "w_out (give_up t err w) = w_out w @ map (blocked_event (t_id t) err)
      (waiting_ids (t_id t) {TaskPending} (update_where (\<lambda>r. t_id r = t_id t) (set_failed (now w) err) ts)) @
      [status_event ''failed'' (t_id t)]"
    and "w_jobs (give_up t err w) = w_jobs w"
proof -
  let ?w1 = "set_tasks (update_where (\<lambda>r. t_id r = t_id t) (set_failed (now w) err) (tasks w)) w"
  have g: "give_up t err w = push_task ''failed'' (t_id t) (resolve_dependents (t_id t) False err ?w1)"
    using assms(1) by (simp add: give_up_def quiet_simps)
  have q: "quiet ?w1" using assms(1) by simp
  have c: "core_eq (tasks ?w1) (update_where (\<lambda>r. t_id r = t_id t) (set_failed (now w) err) ts)"
    unfolding set_tasks_simps by (rule core_eq_failed) fact
  show "core_eq (tasks (give_up t err w)) (failed_table (t_id t) err (now w) ts)"
    unfolding g failed_table_def push_simps resolve_quiet(3)[OF q assms(3)] set_tasks_simps
    by (rule core_eq_blocked) (rule c[unfolded set_tasks_simps])
  show "w_out (give_up t err w) = w_out w @ map (blocked_event (t_id t) err)
      (waiting_ids (t_id t) {TaskPending} (update_where (\<lambda>r. t_id r = t_id t) (set_failed (now w) err) ts)) @
      [status_event ''failed'' (t_id t)]"
    unfolding g out_push resolve_quiet(4)[OF q assms(3)] core_eq_waiting_ids[OF c] by simp
  show "w_jobs (give_up t err w) = w_jobs w"
    unfolding g using assms(1) by (simp add: resolve_dependents_def block_quiet Let_def)
qed

text \<open>
  C14. Automatic retries never happen. When the prompt of a claimed task fails and the task has
  retries left, \<open>failWithRetry\<close> asks \<open>RetryTask\<close> to put it back, but \<open>RetryTask\<close> only takes a task
  that is already failed and this one is running: the statement affects no row, the error branch
  fails the task for good, and every pending dependent is blocked with the error as its reason.
  This holds for every number of attempts within the limit and every error.
\<close>
theorem failed_prompt_is_final:
  assumes "quiet w" and "not_canceled (t_id t) (tasks w)" and "no_failed (t_id t) (tasks w)"
    and "session_of v t = Inr sid" and "prompt_error v sid t = Some err" and "err \<noteq> ''''"
    and "1 \<le> t_attempts t" and "t_attempts t \<le> x_max_retries e"
    and "start_tasks = session_table t sid (now w) (tasks w)"
  shows "\<exists>w'. execute e v t w = (Returned, w') \<and>
    core_eq (tasks w') (failed_table (t_id t) err (now w) start_tasks) \<and>
    w_out w' = w_out w @ [status_event ''running'' (t_id t)] @
      map (blocked_event (t_id t) err) (waiting_ids (t_id t) {TaskPending}
        (update_where (\<lambda>r. t_id r = t_id t) (set_failed (now w) err) start_tasks)) @
      [status_event ''failed'' (t_id t)] \<and>
    w_jobs w' = w_jobs w"
proof -
  obtain w1 where w1: "execute e v t w = run_prompt e v t sid w1" "quiet w1" "now w1 = now w"
    "core_eq (tasks w1) start_tasks" "w_out w1 = w_out w @ [status_event ''running'' (t_id t)]"
    "w_jobs w1 = w_jobs w"
    using execute_session[OF assms(1,2,4)] assms(9) by metis
  have nf: "no_failed (t_id t) (tasks w1)"
    by (rule core_no_failed[OF w1(4)]) (use assms(3,9) session_no_failed in blast)
  have "call (retry_task (t_id t) b) w1 = (Inl ErrNotFound, w1)" for b
    using nf w1(2) by (intro retry_quiet) (auto simp: no_failed_def)
  then have "execute e v t w = (Returned, give_up t err w1)"
    using w1(1) assms(7,8) run_prompt_error[OF assms(5)]
    by (simp add: fail_with_retry_def backoff_def Let_def)
  then show ?thesis
    using give_up_quiet[OF w1(2,4) assms(6), of t] w1(3,5,6) by (intro exI[of _ "give_up t err w1"]) simp
qed

definition down_env :: env where
  "down_env = (demo_env 0 '''')\<lparr>v_prompt := (\<lambda>_ _ _. Inl ''connection refused'')\<rparr>"

lemma down_env_simps [simp]:
  "t_session t = '''' \<Longrightarrow> session_of down_env t = Inr ''s1''"
  "prompt_error down_env sid t = Some ''connection refused''"
  by (simp_all add: down_env_def prompt_error_def demo_env_def session_of_def create_session_def json_eval)

lemma failed_prompt_is_final_witness:
  "\<exists>w'. execute new_executor down_env ((mk_task ''a'' '''' TaskRunning 1)\<lparr>t_attempts := 1\<rparr>)
      (demo_world [(mk_task ''a'' '''' TaskRunning 1)\<lparr>t_attempts := 1\<rparr>, mk_task ''b'' ''a'' TaskPending 2])
      = (Returned, w') \<and> map t_status (tasks w') = [TaskFailed, TaskBlocked]"
proof -
  let ?t = "(mk_task ''a'' '''' TaskRunning 1)\<lparr>t_attempts := 1\<rparr>"
  let ?w = "demo_world [?t, mk_task ''b'' ''a'' TaskPending 2]"
  let ?s = "session_table ?t ''s1'' 0 (tasks ?w)"
  have "\<exists>w'. execute new_executor down_env ?t ?w = (Returned, w') \<and>
    core_eq (tasks w') (failed_table (t_id ?t) ''connection refused'' (now ?w) ?s) \<and>
    w_out w' = w_out ?w @ [status_event ''running'' (t_id ?t)] @
      map (blocked_event (t_id ?t) ''connection refused'') (waiting_ids (t_id ?t) {TaskPending}
        (update_where (\<lambda>r. t_id r = t_id ?t) (set_failed (now ?w) ''connection refused'') ?s)) @
      [status_event ''failed'' (t_id ?t)] \<and>
    w_jobs w' = w_jobs ?w"
    by (rule failed_prompt_is_final[where sid = "''s1''"])
      (simp_all add: not_canceled_def no_failed_def mk_task_def new_executor_def)
  then obtain w' where r: "execute new_executor down_env ?t ?w = (Returned, w')"
    and c: "core_eq (tasks w') (failed_table (t_id ?t) ''connection refused'' (now ?w) ?s)"
    by (elim exE conjE)
  have "map t_status (failed_table (t_id ?t) ''connection refused'' (now ?w) ?s) = [TaskFailed, TaskBlocked]"
    by (simp add: mk_task_def failed_table_def blocked_table_def session_table_def set_session_def
        set_failed_def set_blocked_def)
  with r core_eq_statuses[OF c] show ?thesis by (intro exI[of _ w']) simp
qed

text \<open>
  C19. The language model's retry strands the task. When the attempts are used up and the model
  decides to try again, the status of no row changes: the task stays running with nobody running
  it (until a restart takes it back), its dependents stay pending, and the clients are told that it
  is being retried.
\<close>
theorem llm_retry_leaves_running:
  assumes "quiet w" and "not_canceled (t_id t) (tasks w)" and "no_failed (t_id t) (tasks w)"
    and "session_of v t = Inr sid" and "prompt_error v sid t = Some err"
    and "x_max_retries e < t_attempts t" and "x_llm e" and "\<not> contains (t_progress t) ''llm-retry''"
    and "decide_failure v (t_prompt t) err = Inr (''retry'', reason)"
  shows "\<exists>w'. execute e v t w = (Returned, w') \<and>
    core_eq (tasks w') (session_table t sid (now w) (tasks w)) \<and>
    w_out w' = w_out w @ [status_event ''running'' (t_id t), status_event ''retrying'' (t_id t)]"
proof -
  obtain w1 where w1: "execute e v t w = run_prompt e v t sid w1" "quiet w1" "now w1 = now w"
    "core_eq (tasks w1) (session_table t sid (now w) (tasks w))"
    "w_out w1 = w_out w @ [status_event ''running'' (t_id t)]" "w_jobs w1 = w_jobs w"
    by (rule execute_session[OF assms(1,2,4)])
  have nf: "no_failed (t_id t) (tasks w1)"
    by (rule core_no_failed[OF w1(4)]) (use assms(3) session_no_failed in blast)
  have r: "run_call (retry_task (t_id t) 60) w1 = w1"
    using nf w1(2) by (simp add: run_call_def retry_quiet no_failed_def)
  let ?w2 = "set_tasks (update_where (\<lambda>r. t_id r = t_id t)
      (set_progress (now w1) (''llm-retry: '' @ reason)) (tasks w1)) w1"
  have "execute e v t w = (Returned, push_task ''retrying'' (t_id t) ?w2)"
    using w1(1,2) assms(6-9) run_prompt_error[OF assms(5)] r
    by (simp add: fail_with_retry_def Let_def quiet_simps)
  moreover have "core_eq (tasks ?w2) (session_table t sid (now w) (tasks w))"
    unfolding set_tasks_simps by (rule core_eq_trans[OF core_eq_progress w1(4)])
  ultimately show ?thesis
    using w1(5) by (intro exI[of _ "push_task ''retrying'' (t_id t) ?w2"]) simp
qed

lemma llm_retry_leaves_running_witness:
  "\<exists>w'. execute (with_llm True new_executor)
      (down_env\<lparr>v_llm_json := (\<lambda>_ _. Inr (JObj [(''action'', JStr ''retry'')]))\<rparr>)
      ((mk_task ''a'' '''' TaskRunning 1)\<lparr>t_attempts := 3\<rparr>)
      (demo_world [(mk_task ''a'' '''' TaskRunning 1)\<lparr>t_attempts := 3\<rparr>]) = (Returned, w') \<and>
    map t_status (tasks w') = [TaskRunning]"
proof -
  let ?t = "(mk_task ''a'' '''' TaskRunning 1)\<lparr>t_attempts := 3\<rparr>"
  let ?w = "demo_world [?t]"
  let ?v = "down_env\<lparr>v_llm_json := (\<lambda>_ _. Inr (JObj [(''action'', JStr ''retry'')]))\<rparr>"
  have "\<exists>w'. execute (with_llm True new_executor) ?v ?t ?w = (Returned, w') \<and>
    core_eq (tasks w') (session_table ?t ''s1'' (now ?w) (tasks ?w)) \<and>
    w_out w' = w_out ?w @ [status_event ''running'' (t_id ?t), status_event ''retrying'' (t_id ?t)]"
    by (rule llm_retry_leaves_running[where err = "''connection refused''" and reason = "''''"])
      (simp_all add: not_canceled_def no_failed_def mk_task_def new_executor_def with_llm_def
        contains_def decide_failure_def json_eval session_of_def create_session_def prompt_error_def
        down_env_def demo_env_def)
  then obtain w' where r: "execute (with_llm True new_executor) ?v ?t ?w = (Returned, w')"
    and c: "core_eq (tasks w') (session_table ?t ''s1'' (now ?w) (tasks ?w))" by (elim exE conjE)
  have "map t_status (session_table ?t ''s1'' (now ?w) (tasks ?w)) = [TaskRunning]"
    by (simp add: mk_task_def session_table_def set_session_def)
  with r core_eq_statuses[OF c] show ?thesis by (intro exI[of _ w']) simp
qed

subsection \<open>Cancellation\<close>

definition is_canceled :: "string \<Rightarrow> task list \<Rightarrow> bool" where
  "is_canceled tid ts \<longleftrightarrow> (\<exists>r. lookup_by t_id tid ts = Some r \<and> t_status r = TaskCanceled)"

lemma lookup_progress:
  "lookup_by t_id tid (update_where P (set_progress at p) ts) =
     map_option (\<lambda>r. if P r then set_progress at p r else r) (lookup_by t_id tid ts)"
  by (rule progress_upd.lookup_update)

lemma canceled_progress: "is_canceled tid ts \<Longrightarrow> is_canceled tid (update_where P (set_progress at p) ts)"
  by (cases "lookup_by t_id tid ts") (auto simp: is_canceled_def lookup_progress set_progress_def)

lemma canceled_seen: "quiet w \<Longrightarrow> is_canceled tid (tasks w) \<Longrightarrow> check_canceled tid w = (True, w)"
  by (auto simp: check_canceled_def call_quiet is_task_canceled_def quiet_def tasks_def is_canceled_def)

lemma settle_canceled_quiet:
  assumes "quiet w"
  shows "tasks (settle_canceled tid w) = blocked_table tid (now w) ''upstream task canceled'' (tasks w)"
    and "w_out (settle_canceled tid w) = w_out w @
      map (blocked_event tid ''upstream task canceled'') (waiting_ids tid {TaskPending} (tasks w)) @
      [status_event ''canceled'' tid]"
  using resolve_quiet(3,4)[OF assms, of "''upstream task canceled''" tid]
  by (simp_all add: settle_canceled_def)

text \<open>
  C16. A cancellation that is seen is final. When the task is canceled before it is first polled
  (a session of its own is not even created, and in a given session the prompt is admitted and then
  abandoned), its row keeps the status canceled, no result or error is written, its pending
  dependents are blocked with the reason, and \<open>canceled\<close> is the last event.
\<close>
theorem canceled_task_is_settled:
  assumes "quiet w" and "is_canceled (t_id t) (tasks w)"
    and "t_session t \<noteq> '''' \<longrightarrow> prompt_error v (t_session t) t = None \<and> v_ctx v 0 = None"
  shows "\<exists>w'. execute e v t w = (Returned, w') \<and>
    core_eq (tasks w') (blocked_table (t_id t) (now w) ''upstream task canceled'' (tasks w)) \<and>
    w_out w' = w_out w @ [status_event ''running'' (t_id t)] @
      map (blocked_event (t_id t) ''upstream task canceled'') (waiting_ids (t_id t) {TaskPending} (tasks w)) @
      [status_event ''canceled'' (t_id t)]"
proof (cases "t_session t = ''''")
  case True
  let ?w1 = "push_task ''running'' (t_id t) w"
  have q: "quiet ?w1" using assms(1) by simp
  have "execute e v t w = (Returned, settle_canceled (t_id t) ?w1)"
    using True assms(1,2) by (simp add: execute_def Let_def canceled_seen)
  then show ?thesis
    using settle_canceled_quiet[OF q, of "t_id t"] by (intro exI[of _ "settle_canceled (t_id t) ?w1"]) simp
next
  case False
  let ?w1 = "push_task ''running'' (t_id t) w"
  let ?w2 = "set_tasks (update_where (\<lambda>r. t_id r = t_id t) (set_progress (now w) ''prompt admitted'') (tasks w)) ?w1"
  have q: "quiet ?w2" using assms(1) by simp
  have ce: "core_eq (tasks ?w2) (tasks w)" by (simp add: core_eq_progress)
  have c: "check_canceled (t_id t) ?w2 = (True, ?w2)"
    using assms(2) q by (intro canceled_seen) (auto intro: canceled_progress)
  have "wait_idle v (t_session t) (t_id t) (now w + 10 * minute) 0 ?w2 = (Inl ErrCanceled, ?w2)"
    using c False assms(3) by (subst wait_idle.simps) simp
  moreover obtain r where "v_prompt v (t_session t) (t_prompt t) (t_dir t) = Inr r" "\<not> 300 \<le> h_code r"
    using False assms(3) by (auto simp: prompt_error_def split: sum.splits if_splits)
  ultimately have "prompt_session v (t_session t) t ?w1 = (Inl ErrCanceled, ?w2)"
    using assms(1) by (simp add: prompt_session_def quiet_simps)
  then have ex: "execute e v t w = (Returned, settle_canceled (t_id t) ?w2)"
    using False by (simp add: execute_def Let_def run_prompt_def)
  have "core_eq (tasks (settle_canceled (t_id t) ?w2))
      (blocked_table (t_id t) (now w) ''upstream task canceled'' (tasks w))"
    unfolding settle_canceled_quiet(1)[OF q] using core_eq_blocked[OF ce] by simp
  then show ?thesis
    using ex settle_canceled_quiet(2)[OF q, of "t_id t"] core_eq_waiting_ids[OF ce]
    by (intro exI[of _ "settle_canceled (t_id t) ?w2"]) simp
qed

lemma canceled_task_is_settled_witness:
  "\<exists>w'. execute new_executor (demo_env 3 ''x'') (mk_task ''a'' '''' TaskCanceled 1)
      (demo_world [mk_task ''a'' '''' TaskCanceled 1, mk_task ''b'' ''a'' TaskPending 2]) = (Returned, w') \<and>
    map t_status (tasks w') = [TaskCanceled, TaskBlocked]"
proof -
  let ?t = "mk_task ''a'' '''' TaskCanceled 1"
  let ?w = "demo_world [?t, mk_task ''b'' ''a'' TaskPending 2]"
  have "\<exists>w'. execute new_executor (demo_env 3 ''x'') ?t ?w = (Returned, w') \<and>
    core_eq (tasks w') (blocked_table (t_id ?t) (now ?w) ''upstream task canceled'' (tasks ?w)) \<and>
    w_out w' = w_out ?w @ [status_event ''running'' (t_id ?t)] @
      map (blocked_event (t_id ?t) ''upstream task canceled'') (waiting_ids (t_id ?t) {TaskPending} (tasks ?w)) @
      [status_event ''canceled'' (t_id ?t)]"
    by (rule canceled_task_is_settled) (simp_all add: is_canceled_def mk_task_def)
  then obtain w' where r: "execute new_executor (demo_env 3 ''x'') ?t ?w = (Returned, w')"
    and c: "core_eq (tasks w') (blocked_table (t_id ?t) (now ?w) ''upstream task canceled'' (tasks ?w))"
    by (elim exE conjE)
  have "map t_status (blocked_table (t_id ?t) (now ?w) ''upstream task canceled'' (tasks ?w)) =
      [TaskCanceled, TaskBlocked]"
    by (simp add: mk_task_def blocked_table_def set_blocked_def)
  with r core_eq_statuses[OF c] show ?thesis by (intro exI[of _ w']) simp
qed


subsection \<open>The pool under interleaving\<close>

text \<open>
  What the schedule may contain for the table's invariant to survive: a task created waiting names
  an upstream that is in the table from the start, and then none is purged meanwhile.
\<close>

definition safe_sched :: "task list \<Rightarrow> task_op list \<Rightarrow> bool" where
  "safe_sched ts xs \<longleftrightarrow> (\<forall>t st. OpCreate t st \<in> set xs \<longrightarrow> waiting st \<longrightarrow>
     t_depends t \<noteq> '''' \<and> t_depends t \<in> t_id ` set ts \<and> (\<forall>d l. OpPurge d l \<notin> set xs))"

lemma update_ids: "(\<And>r. t_id (f r) = t_id r) \<Longrightarrow> map t_id (update_where P f ts) = map t_id ts"
  by (induction ts) auto

lemma exec_ids:
  assumes "\<And>now r. t_id (f now r) = t_id r"
  shows "map t_id (db_tasks (snd (exec_ok P f s))) = map t_id (db_tasks s)"
    and "map t_id (db_tasks (snd (exec_changed P f s))) = map t_id (db_tasks s)"
  unfolding exec_ok_def exec_changed_def
  by (rule db_call_preserves[where Q = "\<lambda>s'. map t_id (db_tasks s') = map t_id (db_tasks s)"];
      simp add: exec_tasks_def update_ids assms)+

lemma run_op_same_ids:
  assumes "\<forall>d l. x \<noteq> OpPurge d l" and "\<forall>t st. x \<noteq> OpCreate t st"
  shows "map t_id (db_tasks (run_op x s)) = map t_id (db_tasks s)"
proof -
  have claim: "map t_id (db_tasks (snd (claim_next_task s))) = map t_id (db_tasks s)"
    unfolding claim_next_task_def
    by (rule db_call_preserves[where Q = "\<lambda>s'. map t_id (db_tasks s') = map t_id (db_tasks s)"])
      (auto simp: exec_tasks_def Let_def update_ids set_claim_def split: list.splits)
  have retry: "map t_id (db_tasks (snd (retry_task tid b s))) = map t_id (db_tasks s)" for tid b
    unfolding retry_task_def
    by (rule db_call_preserves[where Q = "\<lambda>s'. map t_id (db_tasks s') = map t_id (db_tasks s)"])
      (auto simp: exec_tasks_def update_ids set_retry_def)
  have promote: "map t_id (db_tasks (snd (promote_pending_dependents up s))) = map t_id (db_tasks s)" for up
    unfolding promote_pending_dependents_def
    by (rule db_call_preserves[where Q = "\<lambda>s'. map t_id (db_tasks s') = map t_id (db_tasks s)"])
      (auto simp: exec_tasks_def Let_def update_ids set_promoted_def)
  have recover: "map t_id (db_tasks (snd (recover_stale_running s))) = map t_id (db_tasks s)"
    unfolding recover_stale_running_def
    by (rule db_call_preserves[where Q = "\<lambda>s'. map t_id (db_tasks s') = map t_id (db_tasks s)"])
      (auto simp: exec_tasks_def update_ids set_recovered_def)
  have rows: "map t_id (db_tasks (snd (block_rows up reason s1))) = map t_id (db_tasks s1)" for up reason s1
    by (simp add: block_rows_def exec_ids set_blocked_def)
  have block: "map t_id (db_tasks (snd (block_dependents up reason s))) = map t_id (db_tasks s)" for up reason
    using block_dependents_db[of up reason s] rows by (elim disjE exE conjE) auto
  show ?thesis
    using assms
    by (cases x) (simp_all add: exec_ids claim retry promote recover block set_clauses
        update_task_progress_def set_task_session_def complete_task_def set_task_ai_summary_def
        fail_task_def cancel_task_def unblock_task_def promote_scheduled_task_def
        set_task_last_fired_at_ptr_def claim_recurring_fire_def cancel_scheduled_task_def)
qed

lemma run_op_keeps_ids:
  assumes "\<forall>d l. x \<noteq> OpPurge d l"
  shows "t_id ` set (db_tasks s) \<subseteq> t_id ` set (db_tasks (run_op x s))"
proof (cases "\<exists>t st. x = OpCreate t st")
  case True
  then show ?thesis
    by (auto simp: create_task_with_status_def db_call_def split: list.splits)
next
  case False
  then have "map t_id (db_tasks (run_op x s)) = map t_id (db_tasks s)"
    using assms by (intro run_op_same_ids) auto
  then have "set (map t_id (db_tasks (run_op x s))) = set (map t_id (db_tasks s))" by simp
  then show ?thesis by simp
qed

lemma safe_guarded:
  assumes "safe_sched ts xs" and "t_id ` set ts \<subseteq> t_id ` set (db_tasks s)"
  shows "ops_guarded xs s"
  using assms
proof (induction xs arbitrary: s ts)
  case (Cons x xs)
  have "op_guard x s" using Cons.prems by (cases x) (auto simp: safe_sched_def)
  moreover have "ops_guarded xs (run_op x s)"
  proof (cases "\<exists>t st. OpCreate t st \<in> set xs \<and> waiting st")
    case True
    then have "\<forall>d l. x \<noteq> OpPurge d l" using Cons.prems(1) by (auto simp: safe_sched_def)
    then have "t_id ` set ts \<subseteq> t_id ` set (db_tasks (run_op x s))"
      using Cons.prems(2) run_op_keeps_ids by blast
    moreover have "safe_sched ts xs" using Cons.prems(1) by (auto simp: safe_sched_def)
    ultimately show ?thesis using Cons.IH by blast
  next
    case False
    then have "safe_sched [] xs" by (auto simp: safe_sched_def)
    then show ?thesis by (rule Cons.IH) simp
  qed
  ultimately show ?case by simp
qed simp

lemma run_ops_safe:
  assumes "wf_tasks (db_tasks s)" and "safe_sched ts xs" and "t_id ` set ts \<subseteq> t_id ` set (db_tasks s)"
  shows "wf_tasks (db_tasks (run_ops xs s))"
  by (rule run_ops_wf[OF assms(1) safe_guarded[OF assms(2,3)]])

lemma safe_run:
  assumes "safe_sched ts ys" and "\<forall>x \<in> set xs. pool_op x \<or> x \<in> set ys"
  shows "safe_sched ts xs"
proof -
  have "OpCreate t st \<in> set xs \<Longrightarrow> OpCreate t st \<in> set ys" for t st
    using assms(2) by (auto simp: pool_op_def)
  moreover have "OpPurge d l \<in> set xs \<Longrightarrow> OpPurge d l \<in> set ys" for d l
    using assms(2) by (auto simp: pool_op_def)
  ultimately show ?thesis using assms(1) unfolding safe_sched_def by blast
qed

text \<open>
  The worker pool keeps the task table in order. For any number of rounds of a worker, any
  answers of the OpenCode server and the language model, any faults of the database and any
  interleaving with other goroutines (whose creations are guarded), the ids stay distinct and every
  waiting task's upstream stays in the table; and all that happened to the database is a sequence
  of store methods, of which the executor's are claims, reads and updates of claimed tasks and of
  their dependents: it creates, cancels, schedules and deletes none.
\<close>
lemma worker_keeps_table:
  assumes "wf_tasks (tasks w)" and "safe_sched (tasks w) (concat (w_sched w))"
  shows "wf_tasks (tasks (worker e vs w)) \<and>
    (\<exists>xs. w_db (worker e vs w) = run_ops xs (w_db w) \<and>
       (\<forall>x \<in> set xs. pool_op x \<or> x \<in> set (concat (w_sched w))))"
proof -
  obtain xs where xs: "w_db (worker e vs w) = run_ops xs (w_db w)"
    "\<forall>x \<in> set xs. pool_op x \<or> x \<in> set (concat (w_sched w))"
    using ran_worker[of w e vs] by (auto simp: ran_def)
  have "wf_tasks (db_tasks (run_ops xs (w_db w)))"
    by (rule run_ops_safe[where ts = "tasks w"])
      (use assms(1) safe_run[OF assms(2) xs(2)] in \<open>simp_all add: tasks_def\<close>)
  with xs show ?thesis by (auto simp: tasks_def)
qed

lemma worker_keeps_table_witness:
  "wf_tasks (tasks (worker new_executor [demo_env 1 ''x'', down_env]
     ((demo_world [mk_task ''a'' '''' TaskQueued 0, mk_task ''b'' ''a'' TaskPending 0])
        \<lparr>w_sched := [[], [OpCreate (mk_task ''c'' ''a'' TaskPending 0) TaskPending], [OpCancel ''a'']]\<rparr>)))"
  by (rule worker_keeps_table[THEN conjunct1])
    (auto simp: wf_tasks_def upstream_present_def mk_task_def tasks_def demo_world_def db_of_def
      waiting_def safe_sched_def)

end
