(* ===== verification/Gates.thy ===== *)
theory Gates
  imports Prelude
begin

text \<open>
  The session gates of \<open>internal/tasks/executor.go\<close>: \<open>hold\<close> and \<open>release\<close> as functions on the map of
  gates, and the worker goroutines that call them around their execution (\<open>runClaimed\<close>) as a step
  relation. A gate is an address, so a gate that was dropped from the map and a later one for the
  same session are different objects, as they are in Go. \<open>gateMu\<close> makes \<open>hold\<close> and \<open>release\<close>
  atomic; locking and unlocking the gate's own mutex are steps of their own.
\<close>

type_synonym addr = nat
type_synonym worker = nat

record gates =
  g_map :: "string \<Rightarrow> addr option"
  g_sid :: "addr \<Rightarrow> string"
  g_holders :: "addr \<Rightarrow> int"
  g_owner :: "addr \<Rightarrow> worker option"
  g_next :: addr

definition no_gates :: gates where
  "no_gates = \<lparr>g_map = (\<lambda>_. None), g_sid = (\<lambda>_. ''''), g_holders = (\<lambda>_. 0), g_owner = (\<lambda>_. None),
     g_next = 0\<rparr>"

definition hold :: "string \<Rightarrow> gates \<Rightarrow> addr option \<times> gates" where
  "hold sid g =
     (if sid = '''' then (None, g)
      else
        (let (a, g1) = (case g_map g sid of
               Some a \<Rightarrow> (a, g)
             | None \<Rightarrow> (g_next g, g\<lparr>g_map := (g_map g)(sid := Some (g_next g)),
                 g_sid := (g_sid g)(g_next g := sid), g_holders := (g_holders g)(g_next g := 0),
                 g_owner := (g_owner g)(g_next g := None), g_next := g_next g + 1\<rparr>))
         in (Some a, g1\<lparr>g_holders := (g_holders g1)(a := g_holders g1 a + 1)\<rparr>)))"

definition release :: "addr \<Rightarrow> gates \<Rightarrow> gates" where
  "release a g =
     (let g1 = g\<lparr>g_holders := (g_holders g)(a := g_holders g a - 1)\<rparr>
      in if g_holders g1 a \<le> 0 then g1\<lparr>g_map := (g_map g1)(g_sid g1 a := None)\<rparr> else g1)"

text \<open>Where a worker is in \<open>runClaimed\<close>, and with which gate.\<close>

datatype pc = Idle | Free | Waiting addr | Running addr | Unlocked addr

record pool =
  p_gates :: gates
  p_pc :: "worker \<Rightarrow> pc"

definition start_pool :: pool where
  "start_pool = \<lparr>p_gates = no_gates, p_pc = (\<lambda>_. Idle)\<rparr>"

inductive gate_step :: "pool \<Rightarrow> pool \<Rightarrow> bool" where
  enter_free: "p_pc s w = Idle \<Longrightarrow> hold sid (p_gates s) = (None, g) \<Longrightarrow>
     gate_step s \<lparr>p_gates = g, p_pc = (p_pc s)(w := Free)\<rparr>"
| enter: "p_pc s w = Idle \<Longrightarrow> hold sid (p_gates s) = (Some a, g) \<Longrightarrow>
     gate_step s \<lparr>p_gates = g, p_pc = (p_pc s)(w := Waiting a)\<rparr>"
| lock: "p_pc s w = Waiting a \<Longrightarrow> g_owner (p_gates s) a = None \<Longrightarrow>
     gate_step s \<lparr>p_gates = (p_gates s)\<lparr>g_owner := (g_owner (p_gates s))(a := Some w)\<rparr>,
       p_pc = (p_pc s)(w := Running a)\<rparr>"
| unlock: "p_pc s w = Running a \<Longrightarrow>
     gate_step s \<lparr>p_gates = (p_gates s)\<lparr>g_owner := (g_owner (p_gates s))(a := None)\<rparr>,
       p_pc = (p_pc s)(w := Unlocked a)\<rparr>"
| leave: "p_pc s w = Unlocked a \<Longrightarrow>
     gate_step s \<lparr>p_gates = release a (p_gates s), p_pc = (p_pc s)(w := Idle)\<rparr>"
| leave_free: "p_pc s w = Free \<Longrightarrow> gate_step s (s\<lparr>p_pc := (p_pc s)(w := Idle)\<rparr>)"

inductive gate_reachable :: "pool \<Rightarrow> bool" where
  start: "gate_reachable start_pool"
| step: "gate_reachable s \<Longrightarrow> gate_step s s' \<Longrightarrow> gate_reachable s'"

subsection \<open>The invariant\<close>

definition at_gate :: "(worker \<Rightarrow> pc) \<Rightarrow> addr \<Rightarrow> worker set" where
  "at_gate f a = {w. f w \<in> {Waiting a, Running a, Unlocked a}}"

definition gate_inv :: "pool \<Rightarrow> bool" where
  "gate_inv s \<longleftrightarrow>
     (\<forall>sid a. g_map (p_gates s) sid = Some a \<longrightarrow>
        g_sid (p_gates s) a = sid \<and> sid \<noteq> '''' \<and> a < g_next (p_gates s) \<and> at_gate (p_pc s) a \<noteq> {}) \<and>
     (\<forall>a w. w \<in> at_gate (p_pc s) a \<longrightarrow> g_map (p_gates s) (g_sid (p_gates s) a) = Some a) \<and>
     (\<forall>a. finite (at_gate (p_pc s) a) \<and> (at_gate (p_pc s) a \<noteq> {} \<longrightarrow> g_holders (p_gates s) a = int (card (at_gate (p_pc s) a)))) \<and>
     (\<forall>a w. g_owner (p_gates s) a = Some w \<and> at_gate (p_pc s) a \<noteq> {} \<longrightarrow> p_pc s w = Running a) \<and>
     (\<forall>a w. p_pc s w = Running a \<longrightarrow> g_owner (p_gates s) a = Some w)"

lemma gate_invD:
  assumes "gate_inv s"
  shows "g_map (p_gates s) sid = Some a \<Longrightarrow> g_sid (p_gates s) a = sid"
    and "g_map (p_gates s) sid = Some a \<Longrightarrow> sid \<noteq> ''''"
    and "g_map (p_gates s) sid = Some a \<Longrightarrow> a < g_next (p_gates s)"
    and "g_map (p_gates s) sid = Some a \<Longrightarrow> at_gate (p_pc s) a \<noteq> {}"
    and "w \<in> at_gate (p_pc s) a \<Longrightarrow> g_map (p_gates s) (g_sid (p_gates s) a) = Some a"
    and "finite (at_gate (p_pc s) a)"
    and "at_gate (p_pc s) a \<noteq> {} \<Longrightarrow> g_holders (p_gates s) a = int (card (at_gate (p_pc s) a))"
    and "g_owner (p_gates s) a = Some w \<Longrightarrow> at_gate (p_pc s) a \<noteq> {} \<Longrightarrow> p_pc s w = Running a"
    and "p_pc s w = Running a \<Longrightarrow> g_owner (p_gates s) a = Some w"
  using assms unfolding gate_inv_def by blast+

lemma gate_invI:
  assumes "\<And>sid a. g_map (p_gates s) sid = Some a \<Longrightarrow>
      g_sid (p_gates s) a = sid \<and> sid \<noteq> '''' \<and> a < g_next (p_gates s) \<and> at_gate (p_pc s) a \<noteq> {}"
    and "\<And>a w. w \<in> at_gate (p_pc s) a \<Longrightarrow> g_map (p_gates s) (g_sid (p_gates s) a) = Some a"
    and "\<And>a. finite (at_gate (p_pc s) a)"
    and "\<And>a. at_gate (p_pc s) a \<noteq> {} \<Longrightarrow> g_holders (p_gates s) a = int (card (at_gate (p_pc s) a))"
    and "\<And>a w. g_owner (p_gates s) a = Some w \<Longrightarrow> at_gate (p_pc s) a \<noteq> {} \<Longrightarrow> p_pc s w = Running a"
    and "\<And>a w. p_pc s w = Running a \<Longrightarrow> g_owner (p_gates s) a = Some w"
  shows "gate_inv s"
  using assms unfolding gate_inv_def by blast

lemma at_gate_upd:
  "at_gate (f(w := x)) a =
     (if x \<in> {Waiting a, Running a, Unlocked a} then insert w (at_gate f a) else at_gate f a - {w})"
  by (auto simp: at_gate_def)

lemma at_gate_D: "w \<in> at_gate (p_pc s) a \<Longrightarrow> p_pc s w \<in> {Waiting a, Running a, Unlocked a}"
  by (simp add: at_gate_def)

lemma inv_start: "gate_inv start_pool"
  by (rule gate_invI) (auto simp: start_pool_def no_gates_def at_gate_def)

lemma fresh_gate: "gate_inv s \<Longrightarrow> g_next (p_gates s) \<le> a \<Longrightarrow> at_gate (p_pc s) a = {}"
  using gate_invD(3,5) by (metis equals0I not_less)

lemma inv_enter_new:
  assumes inv: "gate_inv s" and idle: "p_pc s w = Idle" and sid: "sid \<noteq> ''''"
    and none: "g_map (p_gates s) sid = None" and h: "hold sid (p_gates s) = (Some a, g)"
  shows "gate_inv \<lparr>p_gates = g, p_pc = (p_pc s)(w := Waiting a)\<rparr>" (is "gate_inv ?s'")
proof -
  let ?g = "p_gates s"
  have a: "a = g_next ?g" and g: "g = ?g\<lparr>g_map := (g_map ?g)(sid := Some a), g_sid := (g_sid ?g)(a := sid),
      g_holders := (g_holders ?g)(a := 1), g_owner := (g_owner ?g)(a := None), g_next := a + 1\<rparr>"
    using h sid none by (auto simp: hold_def)
  have lt: "b < g_next ?g \<Longrightarrow> b < a + 1 \<and> b \<noteq> a" for b using a by simp
  have empty: "at_gate (p_pc s) a = {}" by (rule fresh_gate[OF inv]) (simp add: a)
  have at: "at_gate ((p_pc s)(w := Waiting a)) b = (if b = a then {w} else at_gate (p_pc s) b)" for b
    using empty idle by (auto simp: at_gate_upd dest: at_gate_D)
  have neq: "p_pc s v = Running b \<Longrightarrow> v \<noteq> w" for v b
    using idle by auto
  have run: "p_pc s v = Running b \<Longrightarrow> b \<noteq> a" for v b
    using empty by (auto simp: at_gate_def)
  show ?thesis
  proof (rule gate_invI)
    fix sid' b assume "g_map (p_gates ?s') sid' = Some b"
    then show "g_sid (p_gates ?s') b = sid' \<and> sid' \<noteq> '''' \<and> b < g_next (p_gates ?s') \<and> at_gate (p_pc ?s') b \<noteq> {}"
      using gate_invD(1-4)[OF inv, of sid' b] sid lt[of b]
      by (auto simp: g at split: if_splits)
  next
    fix b v assume "v \<in> at_gate (p_pc ?s') b"
    then show "g_map (p_gates ?s') (g_sid (p_gates ?s') b) = Some b"
      using gate_invD(5)[OF inv, of v b] none by (auto simp: g at split: if_splits)
  next
    fix b assume "at_gate (p_pc ?s') b \<noteq> {}"
    then show "g_holders (p_gates ?s') b = int (card (at_gate (p_pc ?s') b))"
      using gate_invD(7)[OF inv, of b] by (auto simp: g at split: if_splits)
  next
    fix b v assume "g_owner (p_gates ?s') b = Some v" and "at_gate (p_pc ?s') b \<noteq> {}"
    then show "p_pc ?s' v = Running b"
      using gate_invD(8)[OF inv, of b v] neq[of v b] by (auto simp: g at split: if_splits)
  next
    fix b v assume "p_pc ?s' v = Running b"
    then show "g_owner (p_gates ?s') b = Some v"
      using gate_invD(9)[OF inv, of v b] run[of v b] by (auto simp: g split: if_splits)
  qed (use gate_invD(6)[OF inv] in \<open>simp_all add: at\<close>)
qed

lemma inv_enter_old:
  assumes inv: "gate_inv s" and idle: "p_pc s w = Idle" and sid: "sid \<noteq> ''''"
    and some: "g_map (p_gates s) sid = Some b" and h: "hold sid (p_gates s) = (Some a, g)"
  shows "gate_inv \<lparr>p_gates = g, p_pc = (p_pc s)(w := Waiting a)\<rparr>" (is "gate_inv ?s'")
proof -
  let ?g = "p_gates s"
  have a: "b = a" and g: "g = ?g\<lparr>g_holders := (g_holders ?g)(a := g_holders ?g a + 1)\<rparr>"
    using h sid some by (auto simp: hold_def)
  have at: "at_gate ((p_pc s)(w := Waiting a)) b = (if b = a then insert w (at_gate (p_pc s) a) else at_gate (p_pc s) b)" for b
    using idle by (auto simp: at_gate_upd dest: at_gate_D)
  have new: "w \<notin> at_gate (p_pc s) b" for b using idle by (auto dest: at_gate_D)
  have neq: "p_pc s v = Running b \<Longrightarrow> v \<noteq> w" for v b
    using idle by auto
  have ne: "at_gate (p_pc s) a \<noteq> {}" using gate_invD(4)[OF inv] some a by blast
  have ma: "g_map ?g (g_sid ?g a) = Some a" using ne gate_invD(5)[OF inv] by blast
  have card: "card (insert w (at_gate (p_pc s) a)) = Suc (card (at_gate (p_pc s) a))"
    using new gate_invD(6)[OF inv] by simp
  show ?thesis
  proof (rule gate_invI)
    fix sid' b assume "g_map (p_gates ?s') sid' = Some b"
    then show "g_sid (p_gates ?s') b = sid' \<and> sid' \<noteq> '''' \<and> b < g_next (p_gates ?s') \<and> at_gate (p_pc ?s') b \<noteq> {}"
      using gate_invD(1-4)[OF inv, of sid' b] by (auto simp: g at)
  next
    fix b v assume "v \<in> at_gate (p_pc ?s') b"
    then show "g_map (p_gates ?s') (g_sid (p_gates ?s') b) = Some b"
      using gate_invD(5)[OF inv, of v b] ma by (auto simp: g at split: if_splits)
  next
    fix b assume "at_gate (p_pc ?s') b \<noteq> {}"
    then show "g_holders (p_gates ?s') b = int (card (at_gate (p_pc ?s') b))"
      using gate_invD(7)[OF inv, of b] gate_invD(7)[OF inv ne] card by (simp add: g at split: if_splits)
  next
    fix b v assume "g_owner (p_gates ?s') b = Some v" and "at_gate (p_pc ?s') b \<noteq> {}"
    then show "p_pc ?s' v = Running b"
      using gate_invD(8)[OF inv, of b v] ne neq[of v b] by (auto simp: g at split: if_splits)
  qed (use gate_invD(6,9)[OF inv] in \<open>auto simp: g at split: if_splits\<close>)
qed

lemma inv_lock:
  assumes inv: "gate_inv s" and w: "p_pc s w = Waiting a" and free: "g_owner (p_gates s) a = None"
  shows "gate_inv \<lparr>p_gates = (p_gates s)\<lparr>g_owner := (g_owner (p_gates s))(a := Some w)\<rparr>,
    p_pc = (p_pc s)(w := Running a)\<rparr>" (is "gate_inv ?s'")
proof -
  have at: "at_gate ((p_pc s)(w := Running a)) b = at_gate (p_pc s) b" for b
    using w by (auto simp: at_gate_def)
  have run: "p_pc s v \<noteq> Running a" for v using gate_invD(9)[OF inv, of v a] free by auto
  show ?thesis
  proof (rule gate_invI)
    fix sid b assume "g_map (p_gates ?s') sid = Some b"
    then show "g_sid (p_gates ?s') b = sid \<and> sid \<noteq> '''' \<and> b < g_next (p_gates ?s') \<and> at_gate (p_pc ?s') b \<noteq> {}"
      using gate_invD(1-4)[OF inv, of sid b] by (simp add: at)
  next
    fix b v assume "g_owner (p_gates ?s') b = Some v" and "at_gate (p_pc ?s') b \<noteq> {}"
    then show "p_pc ?s' v = Running b"
      using gate_invD(8)[OF inv, of b v] w by (auto simp: at split: if_splits)
  next
    fix b v assume "p_pc ?s' v = Running b"
    then show "g_owner (p_gates ?s') b = Some v"
      using gate_invD(9)[OF inv, of v b] run[of v] by (auto split: if_splits)
  qed (use gate_invD(5-7)[OF inv] in \<open>simp_all add: at\<close>)
qed

lemma inv_unlock:
  assumes inv: "gate_inv s" and w: "p_pc s w = Running a"
  shows "gate_inv \<lparr>p_gates = (p_gates s)\<lparr>g_owner := (g_owner (p_gates s))(a := None)\<rparr>,
    p_pc = (p_pc s)(w := Unlocked a)\<rparr>" (is "gate_inv ?s'")
proof -
  have at: "at_gate ((p_pc s)(w := Unlocked a)) b = at_gate (p_pc s) b" for b
    using w by (auto simp: at_gate_def)
  have only: "p_pc s v = Running a \<Longrightarrow> v = w" for v using gate_invD(9)[OF inv, of v a] gate_invD(9)[OF inv w] by simp
  show ?thesis
  proof (rule gate_invI)
    fix sid b assume "g_map (p_gates ?s') sid = Some b"
    then show "g_sid (p_gates ?s') b = sid \<and> sid \<noteq> '''' \<and> b < g_next (p_gates ?s') \<and> at_gate (p_pc ?s') b \<noteq> {}"
      using gate_invD(1-4)[OF inv, of sid b] by (simp add: at)
  next
    fix b v assume "g_owner (p_gates ?s') b = Some v" and "at_gate (p_pc ?s') b \<noteq> {}"
    then show "p_pc ?s' v = Running b"
      using gate_invD(8)[OF inv, of b v] w by (auto simp: at split: if_splits)
  next
    fix b v assume "p_pc ?s' v = Running b"
    then show "g_owner (p_gates ?s') b = Some v"
      using gate_invD(9)[OF inv, of v b] only[of v] by (auto split: if_splits)
  qed (use gate_invD(5-7)[OF inv] in \<open>simp_all add: at\<close>)
qed

lemma inv_leave:
  assumes inv: "gate_inv s" and w: "p_pc s w = Unlocked a"
  shows "gate_inv \<lparr>p_gates = release a (p_gates s), p_pc = (p_pc s)(w := Idle)\<rparr>" (is "gate_inv ?s'")
proof -
  let ?g = "p_gates s"
  have mem: "w \<in> at_gate (p_pc s) a" using w by (simp add: at_gate_def)
  have ne: "at_gate (p_pc s) a \<noteq> {}" using mem by blast
  have at: "at_gate ((p_pc s)(w := Idle)) b = (if b = a then at_gate (p_pc s) a - {w} else at_gate (p_pc s) b)" for b
    using w by (auto simp: at_gate_upd dest: at_gate_D)
  have ma: "g_map ?g (g_sid ?g a) = Some a" by (rule gate_invD(5)[OF inv mem])
  have fin: "finite (at_gate (p_pc s) a)" by (rule gate_invD(6)[OF inv])
  have hold: "g_holders ?g a - 1 = int (card (at_gate (p_pc s) a - {w}))"
    using gate_invD(7)[OF inv ne] card.remove[OF fin mem] by simp
  have last: "g_holders ?g a - 1 \<le> 0 \<longleftrightarrow> at_gate (p_pc s) a - {w} = {}"
    unfolding hold using fin by simp
  have fields: "g_sid (release a ?g) = g_sid ?g" "g_owner (release a ?g) = g_owner ?g"
    "g_next (release a ?g) = g_next ?g"
    "g_holders (release a ?g) = (g_holders ?g)(a := g_holders ?g a - 1)"
    "g_map (release a ?g) = (if at_gate (p_pc s) a - {w} = {} then (g_map ?g)(g_sid ?g a := None) else g_map ?g)"
    using last by (auto simp: release_def Let_def)
  have neq: "p_pc s v = Running b \<Longrightarrow> v \<noteq> w" for v b
    using w by auto
  show ?thesis
  proof (rule gate_invI)
    fix sid b assume "g_map (p_gates ?s') sid = Some b"
    then show "g_sid (p_gates ?s') b = sid \<and> sid \<noteq> '''' \<and> b < g_next (p_gates ?s') \<and> at_gate (p_pc ?s') b \<noteq> {}"
      using gate_invD(1-4)[OF inv, of sid b] ma by (auto simp: fields at split: if_splits)
  next
    fix b v assume v: "v \<in> at_gate (p_pc ?s') b"
    then have "v \<in> at_gate (p_pc s) b" by (auto simp: at split: if_splits)
    then have mb: "g_map ?g (g_sid ?g b) = Some b" by (rule gate_invD(5)[OF inv])
    show "g_map (p_gates ?s') (g_sid (p_gates ?s') b) = Some b"
    proof (cases "b = a")
      case True
      then show ?thesis using v ma by (auto simp: fields at)
    next
      case False
      then have "g_sid ?g b \<noteq> g_sid ?g a" using mb ma by auto
      with mb show ?thesis by (simp add: fields)
    qed
  next
    fix b assume "at_gate (p_pc ?s') b \<noteq> {}"
    then show "g_holders (p_gates ?s') b = int (card (at_gate (p_pc ?s') b))"
      using gate_invD(7)[OF inv, of b] hold by (simp add: fields at split: if_splits)
  next
    fix b v assume "g_owner (p_gates ?s') b = Some v" and "at_gate (p_pc ?s') b \<noteq> {}"
    then show "p_pc ?s' v = Running b"
      using gate_invD(8)[OF inv, of b v] ne neq[of v b] by (auto simp: fields at split: if_splits)
  qed (use gate_invD(6,9)[OF inv] in \<open>auto simp: fields at split: if_splits\<close>)
qed

lemma inv_other:
  assumes inv: "gate_inv s" and "\<And>a. at_gate (p_pc s') a = at_gate (p_pc s) a"
    and "\<And>v a. p_pc s' v = Running a \<longleftrightarrow> p_pc s v = Running a" and "p_gates s' = p_gates s"
  shows "gate_inv s'"
  using inv unfolding gate_inv_def assms(2-4) .

lemma inv_step:
  assumes "gate_step s s'" and "gate_inv s"
  shows "gate_inv s'"
  using assms
proof (induction rule: gate_step.induct)
  case (enter_free s w sid g)
  then have "g = p_gates s" by (auto simp: hold_def split: if_splits prod.splits option.splits)
  with enter_free show ?case
    by (intro inv_other[OF enter_free(3)]) (auto simp: at_gate_def)
next
  case (enter s w sid a g)
  then have "sid \<noteq> ''''" by (auto simp: hold_def)
  with enter show ?case
    by (cases "g_map (p_gates s) sid") (auto intro: inv_enter_new inv_enter_old)
next
  case (lock s w a)
  then show ?case by (intro inv_lock)
next
  case (unlock s w a)
  then show ?case by (intro inv_unlock)
next
  case (leave s w a)
  then show ?case by (intro inv_leave)
next
  case (leave_free s w)
  then show ?case
    by (intro inv_other[OF leave_free(2)]) (auto simp: at_gate_def)
qed

lemma reachable_inv: "gate_reachable s \<Longrightarrow> gate_inv s"
  by (induction rule: gate_reachable.induct) (auto intro: inv_start inv_step)

subsection \<open>What the gates guarantee\<close>

lemma hold_session:
  "hold sid g = (Some a, g') \<Longrightarrow> (\<And>b. g_map g sid = Some b \<Longrightarrow> g_sid g b = sid) \<Longrightarrow>
     sid \<noteq> '''' \<and> g_sid g' a = sid \<and> g_map g' sid = Some a"
  by (auto simp: hold_def split: option.splits if_splits)

definition running_in :: "pool \<Rightarrow> string \<Rightarrow> worker set" where
  "running_in s sid = {w. \<exists>a. p_pc s w = Running a \<and> g_sid (p_gates s) a = sid}"

text \<open>
  C20. Executions that share a session are serialized. In every state the workers can reach, by any
  interleaving of holding, locking, unlocking and releasing gates, at most one worker executes a
  task of a given session, although a gate is dropped from the map and made again whenever its
  last holder leaves.
\<close>
theorem session_exclusion:
  assumes "gate_reachable s"
  shows "\<exists>w. running_in s sid \<subseteq> {w}"
proof -
  have inv: "gate_inv s" by (rule reachable_inv) fact
  have "w1 = w2" if w: "w1 \<in> running_in s sid" "w2 \<in> running_in s sid" for w1 w2
  proof -
    from w obtain a b where 1: "p_pc s w1 = Running a" "g_sid (p_gates s) a = sid"
      and 2: "p_pc s w2 = Running b" "g_sid (p_gates s) b = sid"
      by (auto simp: running_in_def)
    have "g_map (p_gates s) sid = Some a" "g_map (p_gates s) sid = Some b"
      using gate_invD(5)[OF inv] 1 2 by (force simp: at_gate_def)+
    then have "a = b" by simp
    then show ?thesis
      using gate_invD(9)[OF inv 1(1)] gate_invD(9)[OF inv 2(1)] by simp
  qed
  then show ?thesis by (cases "running_in s sid = {}") blast+
qed

text \<open>
  C21. Gates neither block for ever nor pile up. In every reachable state a worker waiting for a gate
  either can lock it or waits for a worker that is executing and can unlock it; and the map holds
  a gate exactly for the sessions some worker is waiting for, executing or leaving.
\<close>
theorem gates_progress_and_cleanup:
  assumes "gate_reachable s"
  shows "(\<forall>w a. p_pc s w = Waiting a \<longrightarrow>
       g_owner (p_gates s) a = None \<or> (\<exists>v. g_owner (p_gates s) a = Some v \<and> p_pc s v = Running a)) \<and>
     (\<forall>sid. g_map (p_gates s) sid \<noteq> None \<longleftrightarrow>
       (\<exists>a w. p_pc s w \<in> {Waiting a, Running a, Unlocked a} \<and> g_sid (p_gates s) a = sid))"
proof (intro conjI allI impI)
  have inv: "gate_inv s" by (rule reachable_inv) fact
  fix w a assume w: "p_pc s w = Waiting a"
  then have "at_gate (p_pc s) a \<noteq> {}" by (auto simp: at_gate_def)
  then show "g_owner (p_gates s) a = None \<or> (\<exists>v. g_owner (p_gates s) a = Some v \<and> p_pc s v = Running a)"
    using gate_invD(8)[OF inv] by (cases "g_owner (p_gates s) a") auto
next
  have inv: "gate_inv s" by (rule reachable_inv) fact
  fix sid
  show "g_map (p_gates s) sid \<noteq> None \<longleftrightarrow>
      (\<exists>a w. p_pc s w \<in> {Waiting a, Running a, Unlocked a} \<and> g_sid (p_gates s) a = sid)"
  proof
    assume "g_map (p_gates s) sid \<noteq> None"
    then obtain a where "g_map (p_gates s) sid = Some a" by auto
    with gate_invD(1,4)[OF inv, of sid a]
    show "\<exists>a w. p_pc s w \<in> {Waiting a, Running a, Unlocked a} \<and> g_sid (p_gates s) a = sid"
      unfolding at_gate_def by blast
  next
    assume "\<exists>a w. p_pc s w \<in> {Waiting a, Running a, Unlocked a} \<and> g_sid (p_gates s) a = sid"
    then obtain a w where "w \<in> at_gate (p_pc s) a" "g_sid (p_gates s) a = sid"
      unfolding at_gate_def by blast
    then show "g_map (p_gates s) sid \<noteq> None" using gate_invD(5)[OF inv] by auto
  qed
qed

text \<open>Two workers in the same session: the first executes, the second waits.\<close>

definition two_workers :: pool where
  "two_workers = (let g = snd (hold ''s'' (snd (hold ''s'' no_gates)))
     in \<lparr>p_gates = g\<lparr>g_owner := (g_owner g)(0 := Some 0)\<rparr>,
         p_pc = (\<lambda>_. Idle)(0 := Running 0, 1 := Waiting 0)\<rparr>)"

lemma two_workers_reachable: "gate_reachable two_workers"
proof -
  let ?g1 = "snd (hold ''s'' no_gates)"
  let ?s1 = "\<lparr>p_gates = ?g1, p_pc = (\<lambda>_. Idle)(0 := Waiting 0)\<rparr>"
  let ?g2 = "snd (hold ''s'' ?g1)"
  let ?s2 = "\<lparr>p_gates = ?g2, p_pc = (\<lambda>_. Idle)(0 := Waiting 0, 1 := Waiting 0)\<rparr>"
  have h1: "hold ''s'' (p_gates start_pool) = (Some 0, ?g1)"
    by (simp add: start_pool_def hold_def no_gates_def)
  have h2: "hold ''s'' (p_gates ?s1) = (Some 0, ?g2)"
    by (simp add: hold_def no_gates_def)
  have "gate_step start_pool ?s1"
    using gate_step.enter[OF _ h1, of 0] by (simp add: start_pool_def)
  moreover have "gate_step ?s1 ?s2"
    using gate_step.enter[OF _ h2, of 1] by simp
  moreover have "gate_step ?s2 two_workers"
    using gate_step.lock[of ?s2 0 0]
    by (simp add: two_workers_def Let_def hold_def no_gates_def fun_upd_twist)
  ultimately show ?thesis
    by (meson gate_reachable.intros)
qed

lemma session_exclusion_witness: "\<exists>w. running_in two_workers ''s'' \<subseteq> {w}"
  by (rule session_exclusion) (rule two_workers_reachable)

lemma gates_progress_and_cleanup_witness:
  "g_map (p_gates two_workers) ''s'' \<noteq> None"
  using gates_progress_and_cleanup[OF two_workers_reachable, THEN conjunct2, rule_format, of "''s''"]
  by (simp add: two_workers_def hold_def no_gates_def Let_def)

end
