(* ===== verification/Records.thy ===== *)
theory Records
  imports Tables GoStrings
begin

text \<open>
  The store's methods on the tables other than the task queue: settings, API tokens, rules and
  their executions, the audit log, archives, web sessions, session events, unread marks and the
  statistics. One definition per method of \<open>sqlStore\<close>, as in \<open>TaskStore\<close>.

  Tables with a generated key number their rows from 1 upwards (\<open>next_id\<close>).
\<close>

definition next_id :: "('r \<Rightarrow> int) \<Rightarrow> 'r list \<Rightarrow> int" where
  "next_id key rs = fold (\<lambda>r m. max (key r) m) rs 0 + 1"

text \<open>\<open>ORDER BY id DESC LIMIT n\<close>, with the limit the caller resolved.\<close>

definition newest :: "('r \<Rightarrow> int) \<Rightarrow> int \<Rightarrow> 'r list \<Rightarrow> 'r list" where
  "newest key n rs = take (nat n) (order_desc key rs)"

subsection \<open>Settings\<close>

definition get_setting :: "string \<Rightarrow> db \<Rightarrow> string result \<times> db" where
  "get_setting k = db_call (\<lambda>s.
     (case lookup_by set_key k (db_settings s) of None \<Rightarrow> Inl ErrNotFound | Some r \<Rightarrow> Inr (set_value r), s))"

definition put_setting_row :: "string \<Rightarrow> string \<Rightarrow> time \<Rightarrow> setting list \<Rightarrow> setting list" where
  "put_setting_row k v now rs =
     (if k \<in> set_key ` set rs
      then update_where (\<lambda>r. set_key r = k) (\<lambda>r. r\<lparr>set_value := v, set_updated := now\<rparr>) rs
      else rs @ [\<lparr>set_key = k, set_value = v, set_updated = now\<rparr>])"

definition set_setting :: "string \<Rightarrow> string \<Rightarrow> db \<Rightarrow> unit result \<times> db" where
  "set_setting k v = db_call (\<lambda>s.
     (Inr (), s\<lparr>db_settings := put_setting_row k v (db_clock s) (db_settings s)\<rparr>))"

subsection \<open>API tokens\<close>

definition create_token :: "token \<Rightarrow> db \<Rightarrow> unit result \<times> db" where
  "create_token t = db_call (\<lambda>s.
     if tok_id t \<in> tok_id ` set (db_tokens s) \<or> tok_hash t \<in> tok_hash ` set (db_tokens s)
     then (Inl ErrDriver, s)
     else (Inr (), s\<lparr>db_tokens := db_tokens s @ [t\<lparr>tok_created := db_clock s, tok_revoked := None,
             tok_used := None\<rparr>]\<rparr>))"

definition get_token_by_hash :: "string \<Rightarrow> db \<Rightarrow> token result \<times> db" where
  "get_token_by_hash h = db_call (\<lambda>s.
     (case find (\<lambda>t. tok_hash t = h \<and> tok_revoked t = None) (db_tokens s) of
        None \<Rightarrow> Inl ErrNotFound | Some t \<Rightarrow> Inr t, s))"

definition list_tokens :: "db \<Rightarrow> token list result \<times> db" where
  "list_tokens = db_call (\<lambda>s. (Inr (order_desc tok_created (db_tokens s)), s))"

definition revoke_token :: "string \<Rightarrow> db \<Rightarrow> unit result \<times> db" where
  "revoke_token tid = db_call (\<lambda>s.
     let P = (\<lambda>t. tok_id t = tid \<and> tok_revoked t = None)
     in if count_where P (db_tokens s) = 0 then (Inl ErrNotFound, s)
        else (Inr (), s\<lparr>db_tokens := update_where P (\<lambda>t. t\<lparr>tok_revoked := Some (db_clock s)\<rparr>) (db_tokens s)\<rparr>))"

definition touch_token :: "string \<Rightarrow> db \<Rightarrow> unit result \<times> db" where
  "touch_token tid = db_call (\<lambda>s.
     (Inr (), s\<lparr>db_tokens := update_where (\<lambda>t. tok_id t = tid)
        (\<lambda>t. t\<lparr>tok_used := Some (db_clock s)\<rparr>) (db_tokens s)\<rparr>))"

subsection \<open>Rules and their executions\<close>

definition TriggerCron :: string where "TriggerCron = ''cron''"

definition TriggerGit :: string where "TriggerGit = ''git''"

definition TriggerHTTP :: string where "TriggerHTTP = ''http''"

definition create_rule :: "rule \<Rightarrow> db \<Rightarrow> unit result \<times> db" where
  "create_rule r = db_call (\<lambda>s.
     if r_id r \<in> r_id ` set (db_rules s) then (Inl ErrDriver, s)
     else (Inr (), s\<lparr>db_rules := db_rules s @ [r\<lparr>r_last_fired := None, r_created := db_clock s\<rparr>]\<rparr>))"

definition list_rules :: "db \<Rightarrow> rule list result \<times> db" where
  "list_rules = db_call (\<lambda>s.
     (Inr (sort_key (\<lambda>r. if r_enabled r then 0 else 1 :: int) (order_asc r_created (db_rules s))), s))"

definition get_rule :: "string \<Rightarrow> db \<Rightarrow> rule result \<times> db" where
  "get_rule rid = db_call (\<lambda>s.
     (case lookup_by r_id rid (db_rules s) of None \<Rightarrow> Inl ErrNotFound | Some r \<Rightarrow> Inr r, s))"

definition delete_rule :: "string \<Rightarrow> db \<Rightarrow> unit result \<times> db" where
  "delete_rule rid = db_call (\<lambda>s.
     if count_where (\<lambda>r. r_id r = rid) (db_rules s) = 0 then (Inl ErrNotFound, s)
     else (Inr (), s\<lparr>db_rules := delete_where (\<lambda>r. r_id r = rid) (db_rules s)\<rparr>))"

definition set_fired :: "time \<Rightarrow> rule \<Rightarrow> rule" where
  "set_fired now r = r\<lparr>r_last_fired := Some now\<rparr>"

definition mark_rule_fired :: "string \<Rightarrow> db \<Rightarrow> unit result \<times> db" where
  "mark_rule_fired rid = db_call (\<lambda>s.
     (Inr (), s\<lparr>db_rules := update_where (\<lambda>r. r_id r = rid) (set_fired (db_clock s)) (db_rules s)\<rparr>))"

definition record_rule_execution :: "string \<Rightarrow> string \<Rightarrow> db \<Rightarrow> unit result \<times> db" where
  "record_rule_execution rid tid = db_call (\<lambda>s.
     (Inr (), s\<lparr>db_execs := db_execs s @ [\<lparr>x_id = next_id x_id (db_execs s), x_rule = rid, x_task = tid,
        x_at = db_clock s\<rparr>]\<rparr>))"

definition list_rule_executions :: "string \<Rightarrow> int \<Rightarrow> db \<Rightarrow> rule_execution list result \<times> db" where
  "list_rule_executions rid limit = db_call (\<lambda>s.
     (Inr (newest x_id (if limit \<le> 0 then 50 else limit)
        (filter (\<lambda>x. rid = '''' \<or> x_rule x = rid) (db_execs s))), s))"

definition count_rule_executions :: "string \<Rightarrow> db \<Rightarrow> int result \<times> db" where
  "count_rule_executions rid = db_call (\<lambda>s.
     (Inr (count_where (\<lambda>x. rid = '''' \<or> x_rule x = rid) (db_execs s)), s))"

subsection \<open>Audit log\<close>

definition record_audit :: "audit_entry \<Rightarrow> db \<Rightarrow> unit result \<times> db" where
  "record_audit e = db_call (\<lambda>s.
     (Inr (), s\<lparr>db_audit := db_audit s @ [e\<lparr>a_id := next_id a_id (db_audit s), a_created := db_clock s\<rparr>]\<rparr>))"

definition list_audit :: "string \<Rightarrow> int \<Rightarrow> db \<Rightarrow> audit_entry list result \<times> db" where
  "list_audit tok limit = db_call (\<lambda>s.
     let rows = order_desc a_id (filter (\<lambda>e. tok = '''' \<or> a_token e = tok) (db_audit s))
     in (Inr (if 0 < limit then take (nat limit) rows else rows), s))"

definition delete_audit_older_than :: "time \<Rightarrow> db \<Rightarrow> int result \<times> db" where
  "delete_audit_older_than cutoff = db_call (\<lambda>s.
     (Inr (count_where (\<lambda>e. a_created e \<le> cutoff) (db_audit s)),
      s\<lparr>db_audit := delete_where (\<lambda>e. a_created e \<le> cutoff) (db_audit s)\<rparr>))"

subsection \<open>Archives\<close>

definition create_archive :: "archive \<Rightarrow> db \<Rightarrow> unit result \<times> db" where
  "create_archive a = db_call (\<lambda>s.
     if ar_id a \<in> ar_id ` set (db_archives s) then (Inl ErrDriver, s)
     else (Inr (), s\<lparr>db_archives := db_archives s @ [a\<lparr>ar_created := db_clock s\<rparr>]\<rparr>))"

definition list_archives :: "int \<Rightarrow> db \<Rightarrow> archive list result \<times> db" where
  "list_archives limit = db_call (\<lambda>s.
     (Inr (map (\<lambda>a. a\<lparr>ar_content := '''', ar_raw := ''''\<rparr>)
        (newest ar_created (if limit \<le> 0 then 50 else limit) (db_archives s))), s))"

definition get_archive :: "string \<Rightarrow> db \<Rightarrow> archive result \<times> db" where
  "get_archive aid = db_call (\<lambda>s.
     (case lookup_by ar_id aid (db_archives s) of None \<Rightarrow> Inl ErrNotFound | Some a \<Rightarrow> Inr a, s))"

definition delete_archive :: "string \<Rightarrow> db \<Rightarrow> unit result \<times> db" where
  "delete_archive aid = db_call (\<lambda>s.
     if count_where (\<lambda>a. ar_id a = aid) (db_archives s) = 0 then (Inl ErrNotFound, s)
     else (Inr (), s\<lparr>db_archives := delete_where (\<lambda>a. ar_id a = aid) (db_archives s)\<rparr>))"

definition count_archives :: "db \<Rightarrow> int result \<times> db" where
  "count_archives = db_call (\<lambda>s. (Inr (int (length (db_archives s))), s))"

subsection \<open>Web sessions\<close>

definition create_web_session :: "string \<Rightarrow> time \<Rightarrow> db \<Rightarrow> unit result \<times> db" where
  "create_web_session sid expires = db_call (\<lambda>s.
     if sid \<in> ws_id ` set (db_sessions s) then (Inl ErrDriver, s)
     else (Inr (), s\<lparr>db_sessions := db_sessions s @ [\<lparr>ws_id = sid, ws_expires = expires\<rparr>]\<rparr>))"

definition get_web_session :: "string \<Rightarrow> db \<Rightarrow> web_session result \<times> db" where
  "get_web_session sid = db_call (\<lambda>s.
     (case lookup_by ws_id sid (db_sessions s) of
        None \<Rightarrow> Inl ErrNotFound
      | Some ws \<Rightarrow> if ws_expires ws < db_clock s then Inl ErrNotFound else Inr ws, s))"

definition delete_web_session :: "string \<Rightarrow> db \<Rightarrow> unit result \<times> db" where
  "delete_web_session sid = db_call (\<lambda>s.
     if count_where (\<lambda>w. ws_id w = sid) (db_sessions s) = 0 then (Inl ErrNotFound, s)
     else (Inr (), s\<lparr>db_sessions := delete_where (\<lambda>w. ws_id w = sid) (db_sessions s)\<rparr>))"

definition delete_expired_web_sessions :: "db \<Rightarrow> int result \<times> db" where
  "delete_expired_web_sessions = db_call (\<lambda>s.
     (Inr (count_where (\<lambda>w. ws_expires w \<le> db_clock s) (db_sessions s)),
      s\<lparr>db_sessions := delete_where (\<lambda>w. ws_expires w \<le> db_clock s) (db_sessions s)\<rparr>))"

subsection \<open>Session events\<close>

text \<open>The escape \<open>\u0000\<close> and its replacement \<open>\ufffd\<close>, byte for byte.\<close>

definition nul_escape :: string where
  "nul_escape = map (char_of :: nat \<Rightarrow> char) [92, 117, 48, 48, 48, 48]"

definition fffd_escape :: string where
  "fffd_escape = map (char_of :: nat \<Rightarrow> char) [92, 117, 102, 102, 102, 100]"

definition sanitize_payload :: "string \<Rightarrow> string" where
  "sanitize_payload b = (if \<not> contains b nul_escape then b else replace_all nul_escape fffd_escape b)"

definition event_row :: "session_event list \<Rightarrow> session_event \<Rightarrow> session_event" where
  "event_row rs e = e\<lparr>e_id := next_id e_id rs, e_payload := sanitize_payload (e_payload e)\<rparr>"

fun append_events :: "session_event list \<Rightarrow> session_event list \<Rightarrow> session_event list" where
  "append_events rs [] = rs"
| "append_events rs (e # es) = append_events (rs @ [event_row rs e]) es"

definition insert_event :: "session_event \<Rightarrow> db \<Rightarrow> unit result \<times> db" where
  "insert_event e = db_call (\<lambda>s. (Inr (), s\<lparr>db_events := append_events (db_events s) [e]\<rparr>))"

definition insert_events :: "session_event list \<Rightarrow> db \<Rightarrow> unit result \<times> db" where
  "insert_events es =
     (if es = [] then (\<lambda>s. (Inr (), s))
      else db_call (\<lambda>s. (Inr (), s\<lparr>db_events := append_events (db_events s) es\<rparr>)))"

text \<open>\<open>ORDER BY created_at, id\<close>; \<open>None\<close> stands for the zero time.\<close>

definition by_time :: "session_event list \<Rightarrow> session_event list" where
  "by_time es = sort_key e_created (sort_key e_id es)"

definition list_events :: "string \<Rightarrow> time option \<Rightarrow> int \<Rightarrow> db \<Rightarrow> session_event list result \<times> db" where
  "list_events sid since limit0 = db_call (\<lambda>s.
     let limit = nat (if limit0 \<le> 0 then 200 else limit0);
         rows = by_time (filter (\<lambda>e. (sid = '''' \<or> e_session e = sid) \<and>
           (case since of None \<Rightarrow> True | Some c \<Rightarrow> c < e_created e)) (db_events s))
     in (Inr (case since of
                None \<Rightarrow> rev (take limit (rev rows))
              | Some _ \<Rightarrow> take limit rows), s))"

definition delete_events_older_than :: "time \<Rightarrow> db \<Rightarrow> int result \<times> db" where
  "delete_events_older_than cutoff = db_call (\<lambda>s.
     (Inr (count_where (\<lambda>e. e_created e < cutoff) (db_events s)),
      s\<lparr>db_events := delete_where (\<lambda>e. e_created e < cutoff) (db_events s)\<rparr>))"

subsection \<open>Unread marks\<close>

text \<open>
  A multi-row upsert that names a row twice is an error in PostgreSQL; SQLite applies the rows in
  turn.
\<close>

definition set_sessions_unread :: "string list \<Rightarrow> db \<Rightarrow> unit result \<times> db" where
  "set_sessions_unread ids =
     (if ids = [] then (\<lambda>s. (Inr (), s))
      else db_call (\<lambda>s.
        if db_pg s \<and> \<not> distinct ids then (Inl ErrDriver, s)
        else (Inr (), s\<lparr>db_unread := fold (\<lambda>i us. if i \<in> set us then us else us @ [i]) ids (db_unread s)\<rparr>)))"

definition list_unread :: "db \<Rightarrow> string list result \<times> db" where
  "list_unread = db_call (\<lambda>s. (Inr (db_unread s), s))"

definition mark_session_read :: "string \<Rightarrow> db \<Rightarrow> unit result \<times> db" where
  "mark_session_read sid = db_call (\<lambda>s. (Inr (), s\<lparr>db_unread := filter (\<lambda>x. x \<noteq> sid) (db_unread s)\<rparr>))"

subsection \<open>Statistics\<close>

record task_stats =
  st_queued :: int
  st_running :: int
  st_succeeded :: int
  st_failed :: int
  st_canceled :: int
  st_pending :: int
  st_blocked :: int
  st_retried :: int
  st_total :: int

definition no_stats :: task_stats where
  "no_stats = \<lparr>st_queued = 0, st_running = 0, st_succeeded = 0, st_failed = 0, st_canceled = 0,
     st_pending = 0, st_blocked = 0, st_retried = 0, st_total = 0\<rparr>"

text \<open>\<open>SELECT status, COUNT(*) FROM tasks GROUP BY status\<close>\<close>

definition status_groups :: "task list \<Rightarrow> (task_status \<times> int) list" where
  "status_groups ts = map (\<lambda>st. (st, count_where (\<lambda>t. t_status t = st) ts)) (remdups (map t_status ts))"

fun add_group :: "task_status \<times> int \<Rightarrow> task_stats \<Rightarrow> task_stats" where
  "add_group (st, n) acc =
     (let acc = acc\<lparr>st_total := st_total acc + n\<rparr>
      in case st of
           TaskQueued \<Rightarrow> acc\<lparr>st_queued := n\<rparr>
         | TaskRunning \<Rightarrow> acc\<lparr>st_running := n\<rparr>
         | TaskSucceeded \<Rightarrow> acc\<lparr>st_succeeded := n\<rparr>
         | TaskFailed \<Rightarrow> acc\<lparr>st_failed := n\<rparr>
         | TaskCanceled \<Rightarrow> acc\<lparr>st_canceled := n\<rparr>
         | TaskPending \<Rightarrow> acc\<lparr>st_pending := n\<rparr>
         | TaskBlocked \<Rightarrow> acc\<lparr>st_blocked := n\<rparr>
         | TaskScheduled \<Rightarrow> acc)"

definition group_stats :: "db \<Rightarrow> task_stats result \<times> db" where
  "group_stats = db_call (\<lambda>s. (Inr (fold add_group (status_groups (db_tasks s)) no_stats), s))"

definition task_stats_of :: "db \<Rightarrow> task_stats result \<times> db" where
  "task_stats_of s =
     (case group_stats s of
        (Inl e, s1) \<Rightarrow> (Inl e, s1)
      | (Inr st, s1) \<Rightarrow>
          (case db_call (\<lambda>s. (Inr (count_where (\<lambda>t. 1 < t_attempts t) (db_tasks s)), s)) s1 of
             (Inl e, s2) \<Rightarrow> (Inl e, s2)
           | (Inr n, s2) \<Rightarrow> (Inr (st\<lparr>st_retried := n\<rparr>), s2)))"

text \<open>Calls per token, the most active first.\<close>

definition token_usage_by_audit :: "int \<Rightarrow> db \<Rightarrow> (string \<times> string \<times> int) list result \<times> db" where
  "token_usage_by_audit limit0 = db_call (\<lambda>s.
     let keys = remdups (map (\<lambda>e. (a_token e, a_token_name e)) (db_audit s));
         groups = map (\<lambda>(i, n). (i, n, count_where (\<lambda>e. a_token e = i \<and> a_token_name e = n) (db_audit s))) keys
     in (Inr (take (nat (if limit0 \<le> 0 then 20 else limit0)) (order_desc (\<lambda>(_, _, n). n) groups)), s))"

end
