(* ===== verification/Auth.thy ===== *)
theory Auth
  imports Records
begin

text \<open>
  The authentication manager of \<open>internal/auth/auth.go\<close>: the admin password and the API tokens.
  bcrypt and SHA-256 are not part of the program; a \<open>crypto\<close> value stands for them, and
  \<open>sound_crypto\<close> states what the manager relies on: a hash made from a password accepts that
  password and no other of those considered, and digests of different tokens differ.

  The settings table is used through two operations; what they promise each other is the contract
  \<open>kv_store\<close>, interpreted on the store's own upsert.
\<close>

subsection \<open>The settings as a key-value store\<close>

locale kv_store =
  fixes get :: "'k \<Rightarrow> 's \<Rightarrow> 'v option"
    and put :: "'k \<Rightarrow> 'v \<Rightarrow> 's \<Rightarrow> 's"
  assumes get_put: "get k (put k v s) = Some v"
    and get_put_other: "k' \<noteq> k \<Longrightarrow> get k' (put k v s) = get k' s"
begin

fun put_all :: "('k \<times> 'v) list \<Rightarrow> 's \<Rightarrow> 's" where
  "put_all [] s = s"
| "put_all ((k, v) # kvs) s = put_all kvs (put k v s)"

lemma get_put_all:
  "get k (put_all kvs s) = (case map_of (rev kvs) k of None \<Rightarrow> get k s | Some v \<Rightarrow> Some v)"
proof (induction kvs arbitrary: s)
  case (Cons p kvs)
  obtain k' v where "p = (k', v)" by fastforce
  with Cons show ?case
    by (cases "k = k'") (auto simp: get_put get_put_other map_add_def split: option.splits)
qed simp

lemma get_put_overwrite: "get k (put k v' (put k v s)) = Some v'"
  by (rule get_put)

end

definition setting_of :: "string \<Rightarrow> setting list \<Rightarrow> string option" where
  "setting_of k rs = map_option set_value (lookup_by set_key k rs)"

lemma lookup_setting_update:
  "lookup_by set_key k' (update_where (\<lambda>r. set_key r = k) (\<lambda>r. r\<lparr>set_value := v, set_updated := now\<rparr>) rs) =
     map_option (\<lambda>r. if set_key r = k then r\<lparr>set_value := v, set_updated := now\<rparr> else r)
       (lookup_by set_key k' rs)"
  by (induction rs) auto

interpretation settings: kv_store setting_of "\<lambda>k v rs. put_setting_row k v now rs"
proof
  fix k v rs
  show "setting_of k (put_setting_row k v now rs) = Some v"
  proof (cases "k \<in> set_key ` set rs")
    case True
    then obtain r where "lookup_by set_key k rs = Some r" by (cases "lookup_by set_key k rs") (auto simp: lookup_by_None)
    then show ?thesis
      using True by (auto simp: setting_of_def put_setting_row_def lookup_setting_update dest: lookup_by_Some)
  next
    case False
    then show ?thesis
      by (auto simp: setting_of_def put_setting_row_def lookup_by_append split: option.split dest: lookup_by_Some)
  qed
next
  fix k k' v rs assume ne: "k' \<noteq> (k :: string)"
  show "setting_of k' (put_setting_row k v now rs) = setting_of k' rs"
    using ne
    by (cases "lookup_by set_key k' rs")
      (auto simp: setting_of_def put_setting_row_def lookup_setting_update lookup_by_append dest: lookup_by_Some)
qed

subsection \<open>Passwords\<close>

record crypto =
  cr_sha :: "string \<Rightarrow> string"
  cr_bcrypt :: "string \<Rightarrow> string option"
  cr_check :: "string \<Rightarrow> string \<Rightarrow> bool"

definition admin_password_hash :: string where
  "admin_password_hash = ''admin.password_hash''"

definition default_token_set :: string where
  "default_token_set = ''admin.default_token_set''"

definition weak_passwords :: "string list" where
  "weak_passwords = [''admin'', ''password'', ''12345678'', ''123456789'', ''1234567890'', ''qwertyui'',
     ''qwerty123'', ''letmein1'', ''00000000'', ''admin123'', ''root1234'', ''12345678a'']"

definition is_strong_password :: "string \<Rightarrow> bool" where
  "is_strong_password p \<longleftrightarrow> \<not> length p < 8 \<and> to_lower (trim_space p) \<notin> set weak_passwords"

datatype auth_error = WeakPassword | BcryptFailed | StoreErr store_error

definition set_password :: "crypto \<Rightarrow> string \<Rightarrow> db \<Rightarrow> (auth_error + unit) \<times> db" where
  "set_password c p s =
     (if \<not> is_strong_password p then (Inl WeakPassword, s)
      else case cr_bcrypt c p of
        None \<Rightarrow> (Inl BcryptFailed, s)
      | Some h \<Rightarrow>
          (case set_setting admin_password_hash h s of
             (Inl e, s1) \<Rightarrow> (Inl (StoreErr e), s1)
           | (Inr _, s1) \<Rightarrow> (Inr (), s1)))"

definition initialize :: "crypto \<Rightarrow> string \<Rightarrow> db \<Rightarrow> (auth_error + bool) \<times> db" where
  "initialize c dflt s =
     (case get_setting admin_password_hash s of
        (Inr _, s1) \<Rightarrow> (Inr False, s1)
      | (Inl e, s1) \<Rightarrow>
          if e \<noteq> ErrNotFound then (Inl (StoreErr e), s1)
          else (case set_password c dflt s1 of
                  (Inl e', s2) \<Rightarrow> (Inl e', s2)
                | (Inr _, s2) \<Rightarrow> (Inr True, s2)))"

definition verify_password :: "crypto \<Rightarrow> string \<Rightarrow> db \<Rightarrow> bool result \<times> db" where
  "verify_password c p s =
     (case get_setting admin_password_hash s of
        (Inl ErrNotFound, s1) \<Rightarrow> (Inr False, s1)
      | (Inl e, s1) \<Rightarrow> (Inl e, s1)
      | (Inr h, s1) \<Rightarrow> (Inr (cr_check c h p), s1))"

subsection \<open>Tokens\<close>

definition mk_token :: "string \<Rightarrow> string \<Rightarrow> string \<Rightarrow> token" where
  "mk_token i n h = \<lparr>tok_id = i, tok_name = n, tok_hash = h, tok_created = 0, tok_revoked = None, tok_used = None\<rparr>"

definition ensure_default_token :: "crypto \<Rightarrow> string \<Rightarrow> db \<Rightarrow> string result \<times> db" where
  "ensure_default_token c dt s =
     (if trim_space dt = '''' then (Inr '''', s)
      else case get_setting default_token_set s of
        (Inr _, s1) \<Rightarrow> (Inr '''', s1)
      | (Inl e, s1) \<Rightarrow>
          if e \<noteq> ErrNotFound then (Inl e, s1)
          else (case create_token (mk_token ''default'' ''default'' (cr_sha c dt)) s1 of
                  (Inl e', s2) \<Rightarrow> (Inl e', s2)
                | (Inr _, s2) \<Rightarrow>
                    (case set_setting default_token_set ''1'' s2 of
                       (Inl e'', s3) \<Rightarrow> (Inl e'', s3)
                     | (Inr _, s3) \<Rightarrow> (Inr dt, s3))))"

definition token_charset :: string where
  "token_charset = ''abcdefghijklmnopqrstuvwxyzABCDEFGHIJKLMNOPQRSTUVWXYZ0123456789''"

text \<open>\<open>randomToken\<close>, from the 32 random bytes it reads.\<close>

definition token_of_bytes :: "nat list \<Rightarrow> string" where
  "token_of_bytes bs = ''ocb_'' @ map (\<lambda>b. token_charset ! (b mod length token_charset)) bs"

definition hex_digit :: "nat \<Rightarrow> char" where
  "hex_digit n = (''0123456789abcdef'') ! n"

definition hex_of_bytes :: "nat list \<Rightarrow> string" where
  "hex_of_bytes bs = concat (map (\<lambda>b. [hex_digit (b div 16), hex_digit (b mod 16)]) bs)"

text \<open>\<open>CreateToken\<close>, with the random bytes of the token and of its id (\<open>None\<close>: the source failed).\<close>

definition issue_token ::
  "crypto \<Rightarrow> nat list option \<Rightarrow> nat list option \<Rightarrow> string \<Rightarrow> db \<Rightarrow> (string option + string) \<times> db" where
  "issue_token c raw_bytes id_bytes name s =
     (case (raw_bytes, id_bytes) of
        (Some rb, Some ib) \<Rightarrow>
          (case create_token (mk_token (hex_of_bytes ib) name (cr_sha c (token_of_bytes rb))) s of
             (Inl e, s1) \<Rightarrow> (Inl None, s1)
           | (Inr _, s1) \<Rightarrow> (Inr (token_of_bytes rb), s1))
      | _ \<Rightarrow> (Inl None, s))"

definition verify_token :: "crypto \<Rightarrow> string \<Rightarrow> db \<Rightarrow> token result \<times> db" where
  "verify_token c raw s =
     (if trim_space raw = '''' then (Inl ErrNotFound, s) else get_token_by_hash (cr_sha c raw) s)"

subsection \<open>What the manager guarantees\<close>

lemma get_setting_ok: "db_faults s = [] \<Longrightarrow> get_setting k s =
  (case setting_of k (db_settings s) of None \<Rightarrow> Inl ErrNotFound | Some v \<Rightarrow> Inr v, s)"
  by (auto simp: get_setting_def setting_of_def split: option.split)

lemma set_setting_ok: "db_faults s = [] \<Longrightarrow> set_setting k v s =
  (Inr (), s\<lparr>db_settings := put_setting_row k v (db_clock s) (db_settings s)\<rparr>)"
  by (simp add: set_setting_def)

text \<open>
  The admin password. Setting a strong password that bcrypt takes makes it, and only it, the
  password that verifies, and touches no other setting; a weak one (shorter than eight bytes or on
  the list, whatever its letter case and surrounding white space) is refused without a change.
\<close>
theorem password_roundtrip:
  assumes "db_faults s = []" and "cr_bcrypt c p = Some h"
    and "\<forall>q. cr_check c h q \<longleftrightarrow> q = p" and "k \<noteq> admin_password_hash"
  shows "(is_strong_password p \<longrightarrow> (\<exists>s'. set_password c p s = (Inr (), s') \<and>
       (\<forall>q. fst (verify_password c q s') = Inr (q = p)) \<and>
       fst (get_setting k s') = fst (get_setting k s))) \<and>
     (\<not> is_strong_password p \<longrightarrow> set_password c p s = (Inl WeakPassword, s))"
proof (intro conjI impI)
  let ?s' = "s\<lparr>db_settings := put_setting_row admin_password_hash h (db_clock s) (db_settings s)\<rparr>"
  assume "is_strong_password p"
  then have "set_password c p s = (Inr (), ?s')"
    using assms(1,2) by (simp add: set_password_def set_setting_ok)
  moreover have "fst (verify_password c q ?s') = Inr (q = p)" for q
    using assms(1,3) by (simp add: verify_password_def get_setting_ok settings.get_put)
  moreover have "fst (get_setting k ?s') = fst (get_setting k s)"
    using assms(1,4) by (simp add: get_setting_ok settings.get_put_other)
  ultimately show "\<exists>s'. set_password c p s = (Inr (), s') \<and>
       (\<forall>q. fst (verify_password c q s') = Inr (q = p)) \<and>
       fst (get_setting k s') = fst (get_setting k s)" by blast
qed (simp add: set_password_def)

text \<open>A stand-in for the cryptography, for concrete runs: the identity, which meets the hypotheses.\<close>

definition plain_crypto :: crypto where
  "plain_crypto = \<lparr>cr_sha = (\<lambda>x. x), cr_bcrypt = Some, cr_check = (\<lambda>h p. p = h)\<rparr>"

lemma strong_demo: "is_strong_password ''correct horse''"
  by code_simp

lemma password_roundtrip_witness:
  "\<exists>s'. set_password plain_crypto ''correct horse'' (empty_db 0) = (Inr (), s') \<and>
     fst (verify_password plain_crypto ''correct horse'' s') = Inr True"
proof -
  obtain s' where "set_password plain_crypto ''correct horse'' (empty_db 0) = (Inr (), s')"
    and "\<forall>q. fst (verify_password plain_crypto q s') = Inr (q = ''correct horse'')"
    using password_roundtrip[of "empty_db 0" plain_crypto "''correct horse''" "''correct horse''" "''k''"]
      strong_demo by (auto simp: plain_crypto_def empty_db_def admin_password_hash_def)
  then show ?thesis by (intro exI[of _ s']) simp
qed

lemma weak_demo: "\<not> is_strong_password ''admin''"
  by code_simp

text \<open>The shipped default password is refused as weak, whatever bcrypt does, and nothing is stored.\<close>

lemma default_password_refused:
  "initialize c ''admin'' (empty_db t) = (Inl WeakPassword, empty_db t)"
  using weak_demo by (simp add: initialize_def get_setting_ok setting_of_def empty_db_def set_password_def)

lemma create_token_ok:
  assumes "db_faults s = []" and "tok_id t \<notin> tok_id ` set (db_tokens s)"
    and "tok_hash t \<notin> tok_hash ` set (db_tokens s)"
  shows "create_token t s = (Inr (), s\<lparr>db_tokens := db_tokens s @
    [t\<lparr>tok_created := db_clock s, tok_revoked := None, tok_used := None\<rparr>]\<rparr>)"
  using assms by (simp add: create_token_def)

lemma find_append_last:
  "find P (xs @ [x]) = (case find P xs of None \<Rightarrow> if P x then Some x else None | Some y \<Rightarrow> Some y)"
  by (induction xs) auto

text \<open>
  The life of a token. The raw token that \<open>CreateToken\<close> returns verifies as the token created,
  under its name; every other raw token verifies as it did before; and once revoked, by id, it
  verifies no more, while revoking it again reports that it is not found.
\<close>
lemma token_lifecycle:
  assumes "db_faults s = []" and "raw = token_of_bytes rb" and "tid = hex_of_bytes ib"
    and "tid \<notin> tok_id ` set (db_tokens s)" and "cr_sha c raw \<notin> tok_hash ` set (db_tokens s)"
    and "trim_space raw \<noteq> ''''" and "\<forall>x. cr_sha c x = cr_sha c raw \<longrightarrow> x = raw"
  shows "\<exists>s' s''. issue_token c (Some rb) (Some ib) name s = (Inr raw, s') \<and>
    (\<exists>t. fst (verify_token c raw s') = Inr t \<and> tok_id t = tid \<and> tok_name t = name) \<and>
    (\<forall>other. other \<noteq> raw \<longrightarrow> fst (verify_token c other s') = fst (verify_token c other s)) \<and>
    revoke_token tid s' = (Inr (), s'') \<and>
    fst (verify_token c raw s'') = Inl ErrNotFound \<and>
    fst (revoke_token tid s'') = Inl ErrNotFound"
proof -
  let ?t = "(mk_token tid name (cr_sha c raw))\<lparr>tok_created := db_clock s, tok_revoked := None, tok_used := None\<rparr>"
  let ?s' = "s\<lparr>db_tokens := db_tokens s @ [?t]\<rparr>"
  let ?P = "\<lambda>t. tok_id t = tid \<and> tok_revoked t = None"
  let ?R = "\<lambda>t. t\<lparr>tok_revoked := Some (db_clock s)\<rparr>"
  let ?s'' = "?s'\<lparr>db_tokens := update_where ?P ?R (db_tokens ?s')\<rparr>"
  have issue: "issue_token c (Some rb) (Some ib) name s = (Inr raw, ?s')"
    using assms(1-5) create_token_ok[of s "mk_token tid name (cr_sha c raw)"]
    by (simp add: issue_token_def mk_token_def)
  have fresh: "tok_hash x \<noteq> cr_sha c raw" if "x \<in> set (db_tokens s)" for x
    using assms(5) that by (metis imageI)
  have none: "find (\<lambda>t. tok_hash t = cr_sha c raw \<and> tok_revoked t = None) (db_tokens s) = None"
    using fresh by (auto simp: find_None_iff)
  have ver: "fst (verify_token c raw ?s') = Inr ?t"
    using assms(1,6) none by (simp add: verify_token_def get_token_by_hash_def find_append_last mk_token_def)
  have other: "fst (verify_token c x ?s') = fst (verify_token c x s)" if "x \<noteq> raw" for x
    using assms(1,7) that
    by (auto simp: verify_token_def get_token_by_hash_def find_append_last mk_token_def split: option.split)
  have rev: "revoke_token tid ?s' = (Inr (), ?s'')"
    using assms(1) by (simp add: revoke_token_def count_where_def mk_token_def Let_def)
  have gone: "t \<in> set (db_tokens ?s'') \<Longrightarrow> tok_hash t = cr_sha c raw \<Longrightarrow> tok_revoked t \<noteq> None" for t
    using fresh by (auto simp: set_update_where mk_token_def split: if_splits)
  have "find (\<lambda>t. tok_hash t = cr_sha c raw \<and> tok_revoked t = None) (db_tokens ?s'') = None"
    using gone by (auto simp: find_None_iff)
  then have dead: "fst (verify_token c raw ?s'') = Inl ErrNotFound"
    using assms(1,6) by (simp add: verify_token_def get_token_by_hash_def)
  have "\<not> ?P t" if "t \<in> set (update_where ?P ?R ts)" for t ts
    using that by (induction ts) (auto split: if_splits)
  then have "count_where ?P (update_where ?P ?R ts) = 0" for ts
    unfolding count_where_0 by blast
  then have "count_where ?P (db_tokens ?s'') = 0" by simp
  then have "fst (revoke_token tid ?s'') = Inl ErrNotFound"
    using assms(1) by (simp add: revoke_token_def Let_def)
  then show ?thesis
    using issue ver other rev dead
    by (intro exI[of _ ?s'] exI[of _ ?s'']) (simp add: mk_token_def)
qed

lemma demo_token: "token_of_bytes [0, 62, 63] = ''ocb_aab''" "trim_space ''ocb_aab'' = ''ocb_aab''"
  by code_simp+

lemma token_lifecycle_witness:
  "\<exists>s' s''. issue_token plain_crypto (Some [0, 62, 63]) (Some [255]) ''phone'' (empty_db 0) = (Inr ''ocb_aab'', s') \<and>
    revoke_token (hex_of_bytes [255]) s' = (Inr (), s'') \<and>
    fst (verify_token plain_crypto ''ocb_aab'' s'') = Inl ErrNotFound"
  using token_lifecycle[of "empty_db 0" "''ocb_aab''" "[0, 62, 63]" "hex_of_bytes [255]" "[255]" plain_crypto "''phone''"]
    demo_token by (auto simp: plain_crypto_def empty_db_def)

text \<open>
  A lost write locks the program out. If, on the first start, the default token is stored but
  recording that it was (the next statement) fails, then every later start fails too: the token is
  inserted again, its key is taken, and \<open>EnsureDefaultToken\<close> reports an error for ever, although
  the database works.
\<close>
lemma default_token_half_done:
  assumes "db_faults s = [False, False, True]" and "setting_of default_token_set (db_settings s) = None"
    and "db_tokens s = []" and "trim_space dt \<noteq> ''''"
  shows "\<exists>s'. ensure_default_token c dt s = (Inl ErrDriver, s') \<and> db_faults s' = [] \<and>
    ensure_default_token c dt s' = (Inl ErrDriver, s')"
proof -
  have "lookup_by set_key default_token_set (db_settings s) = None"
    using assms(2) by (simp add: setting_of_def)
  then show ?thesis
    using assms
    by (auto simp: ensure_default_token_def get_setting_def db_call_def create_token_def set_setting_def
        mk_token_def)
qed

lemma default_token_half_done_witness:
  "\<exists>s'. ensure_default_token plain_crypto ''ocb_aab'' ((empty_db 0)\<lparr>db_faults := [False, False, True]\<rparr>) =
      (Inl ErrDriver, s') \<and> ensure_default_token plain_crypto ''ocb_aab'' s' = (Inl ErrDriver, s')"
  using default_token_half_done[of "(empty_db 0)\<lparr>db_faults := [False, False, True]\<rparr>" "''ocb_aab''" plain_crypto]
    demo_token by (auto simp: empty_db_def setting_of_def)

end
