(* ===== verification/Cron.thy ===== *)
theory Cron
  imports GoStrings
begin

text \<open>
  The cron expressions of \<open>internal/automation/cron.go\<close>. Fields are parsed into lists of values;
  the next fire time is found by scanning forward second by second. Errors are values that carry
  what the Go messages carry.

  Instants are nanoseconds; the calendar fields of an instant are those of a location with a fixed
  offset \<open>off\<close> (in seconds) from UTC, the proleptic Gregorian calendar as in Go's \<open>time\<close>.
\<close>

subsection \<open>Fields\<close>

datatype field_error = EmptyField | BadStep string | BadValue string int int

text \<open>
  \<open>for v := min; v <= max; v += step\<close> with Go's wrap-around. The values met are collected; a bound
  on the number of rounds stands in for the missing termination argument, and
  \<open>step_values_enough\<close> shows that it is never reached.
\<close>

fun step_values :: "nat \<Rightarrow> int \<Rightarrow> int \<Rightarrow> int \<Rightarrow> int list option" where
  "step_values 0 v mx step = None"
| "step_values (Suc n) v mx step =
     (if v \<le> mx then map_option ((#) v) (step_values n (wrap64 (v + step)) mx step) else Some [])"

definition loop_fuel :: nat where "loop_fuel = 64"

text \<open>One part of the comma list.\<close>

definition parse_part :: "string \<Rightarrow> int \<Rightarrow> int \<Rightarrow> field_error + int list" where
  "parse_part part0 mn mx =
     (let part = trim_space part0
      in if part = ''*'' then
           (case step_values loop_fuel mn mx 1 of None \<Rightarrow> Inr [] | Some vs \<Rightarrow> Inr vs)
         else if has_prefix part ''*/'' then
           (case atoi (trim_prefix part ''*/'') of
              None \<Rightarrow> Inl (BadStep part)
            | Some step \<Rightarrow>
                if step \<le> 0 then Inl (BadStep part)
                else (case step_values loop_fuel mn mx step of None \<Rightarrow> Inr [] | Some vs \<Rightarrow> Inr vs))
         else
           (case atoi part of
              None \<Rightarrow> Inl (BadValue part mn mx)
            | Some v \<Rightarrow> if v < mn \<or> mx < v then Inl (BadValue part mn mx) else Inr [v]))"

text \<open>\<open>seen\<close>/\<open>out\<close>: a value is appended the first time it is met.\<close>

definition add_new :: "int list \<Rightarrow> int list \<Rightarrow> int list" where
  "add_new vs out = fold (\<lambda>v acc. if v \<in> set acc then acc else acc @ [v]) vs out"

fun parse_parts :: "string list \<Rightarrow> int \<Rightarrow> int \<Rightarrow> int list \<Rightarrow> field_error + int list" where
  "parse_parts [] mn mx out = Inr out"
| "parse_parts (p # ps) mn mx out =
     (case parse_part p mn mx of
        Inl e \<Rightarrow> Inl e
      | Inr vs \<Rightarrow> parse_parts ps mn mx (add_new vs out))"

definition parse_field :: "string \<Rightarrow> int \<Rightarrow> int \<Rightarrow> field_error + int list" where
  "parse_field f0 mn mx =
     (let f = trim_space f0
      in if f = '''' then Inl EmptyField else parse_parts (split_at (CHR '','') f) mn mx [])"

subsection \<open>The calendar\<close>

text \<open>Days since 1970-01-01 to year, month and day: eras of 400 years that start on March 1st.\<close>

definition civil_of_days :: "int \<Rightarrow> int \<times> int \<times> int" where
  "civil_of_days z0 =
     (let z = z0 + 719468;
          era = z div 146097;
          doe = z mod 146097;
          yoe = (doe - doe div 1460 + doe div 36524 - doe div 146096) div 365;
          doy = doe - (365 * yoe + yoe div 4 - yoe div 100);
          mp = (5 * doy + 2) div 153;
          d = doy - (153 * mp + 2) div 5 + 1;
          m = (if mp < 10 then mp + 3 else mp - 9)
      in (yoe + era * 400 + (if m \<le> 2 then 1 else 0), m, d))"

definition days_of_civil :: "int \<Rightarrow> int \<Rightarrow> int \<Rightarrow> int" where
  "days_of_civil y0 m d =
     (let y = (if m \<le> 2 then y0 - 1 else y0);
          era = y div 400;
          yoe = y mod 400;
          mp = (if 2 < m then m - 3 else m + 9);
          doy = (153 * mp + 2) div 5 + d - 1;
          doe = yoe * 365 + yoe div 4 - yoe div 100 + doy
      in era * 146097 + doe - 719468)"

record civil =
  c_month :: int
  c_day :: int
  c_weekday :: int
  c_hour :: int
  c_minute :: int
  c_second :: int

definition unix_seconds :: "int \<Rightarrow> time \<Rightarrow> int" where
  "unix_seconds off t = t div second + off"

definition civil :: "int \<Rightarrow> time \<Rightarrow> civil" where
  "civil off t =
     (let s = unix_seconds off t; days = s div 86400; sod = s mod 86400;
          (y, m, d) = civil_of_days days
      in \<lparr>c_month = m, c_day = d, c_weekday = (days + 4) mod 7, c_hour = sod div 3600,
          c_minute = sod div 60 mod 60, c_second = sod mod 60\<rparr>)"

text \<open>\<open>AddDate(3, 0, 0)\<close>: the same month, day and time of day three years on, normalised.\<close>

definition add_years :: "int \<Rightarrow> int \<Rightarrow> time \<Rightarrow> time" where
  "add_years off n t =
     (let s = unix_seconds off t; days = s div 86400;
          (y, m, d) = civil_of_days days
      in t + (days_of_civil (y + n) m d - days) * 86400 * second)"

subsection \<open>The next fire time\<close>

datatype cron_error = FieldCount nat | FieldError string field_error | NoNextTime

record spec =
  s_secs :: "int list"
  s_mins :: "int list"
  s_hours :: "int list"
  s_days :: "int list"
  s_months :: "int list"
  s_weeks :: "int list"

definition label_err :: "string \<Rightarrow> field_error + int list \<Rightarrow> cron_error + int list" where
  "label_err l r = (case r of Inl e \<Rightarrow> Inl (FieldError l e) | Inr vs \<Rightarrow> Inr vs)"

definition parse_spec :: "string list \<Rightarrow> cron_error + spec" where
  "parse_spec fs =
     (if length fs \<noteq> 6 then Inl (FieldCount (length fs))
      else case label_err ''second'' (parse_field (fs ! 0) 0 59) of
        Inl e \<Rightarrow> Inl e
      | Inr ss \<Rightarrow> (case label_err ''minute'' (parse_field (fs ! 1) 0 59) of
        Inl e \<Rightarrow> Inl e
      | Inr mi \<Rightarrow> (case label_err ''hour'' (parse_field (fs ! 2) 0 23) of
        Inl e \<Rightarrow> Inl e
      | Inr hs \<Rightarrow> (case label_err ''day'' (parse_field (fs ! 3) 1 31) of
        Inl e \<Rightarrow> Inl e
      | Inr ds \<Rightarrow> (case label_err ''month'' (parse_field (fs ! 4) 1 12) of
        Inl e \<Rightarrow> Inl e
      | Inr ms \<Rightarrow> (case label_err ''weekday'' (parse_field (fs ! 5) 0 6) of
        Inl e \<Rightarrow> Inl e
      | Inr ws \<Rightarrow> Inr \<lparr>s_secs = ss, s_mins = mi, s_hours = hs, s_days = ds, s_months = ms, s_weeks = ws\<rparr>))))))"

definition matches :: "int \<Rightarrow> spec \<Rightarrow> time \<Rightarrow> bool" where
  "matches off sp t =
     (let c = civil off t
      in c_month c \<in> set (s_months sp) \<and> c_day c \<in> set (s_days sp) \<and> c_weekday c \<in> set (s_weeks sp) \<and>
         c_hour c \<in> set (s_hours sp) \<and> c_minute c \<in> set (s_mins sp) \<and> c_second c \<in> set (s_secs sp))"

function scan :: "int \<Rightarrow> spec \<Rightarrow> time \<Rightarrow> time \<Rightarrow> time option" where
  "scan off sp horizon t =
     (if t < horizon then (if matches off sp t then Some t else scan off sp horizon (t + second)) else None)"
  by pat_completeness auto

termination by (relation "measure (\<lambda>(_, _, h, t). nat (h - t))") auto

declare scan.simps [simp del]

definition next_cron_fields :: "int \<Rightarrow> time \<Rightarrow> string list \<Rightarrow> cron_error + time" where
  "next_cron_fields off after fs =
     (case parse_spec fs of
        Inl e \<Rightarrow> Inl e
      | Inr sp \<Rightarrow>
          (case scan off sp (add_years off 3 after) (after + second) of
             None \<Rightarrow> Inl NoNextTime
           | Some t \<Rightarrow> Inr t))"

text \<open>\<open>ParseCron\<close> tries the expression at the current time.\<close>

definition parse_cron :: "int \<Rightarrow> time \<Rightarrow> string \<Rightarrow> cron_error + string list" where
  "parse_cron off now expr =
     (let fs = fields_of expr
      in if length fs \<noteq> 6 then Inl (FieldCount (length fs))
         else case next_cron_fields off now fs of Inl e \<Rightarrow> Inl e | Inr _ \<Rightarrow> Inr fs)"

definition next_cron :: "int \<Rightarrow> time \<Rightarrow> time \<Rightarrow> string \<Rightarrow> cron_error + time" where
  "next_cron off now after expr =
     (case parse_cron off now expr of Inl e \<Rightarrow> Inl e | Inr fs \<Rightarrow> next_cron_fields off after fs)"

subsection \<open>What the fields denote\<close>

lemma step_values_spec:
  assumes "0 \<le> v" and "0 < step" and "mx \<le> 59" and "v + step \<le> int64_max" and "nat (mx + 1 - v) < n"
  shows "\<exists>vs. step_values n v mx step = Some vs \<and> set vs = {x. v \<le> x \<and> x \<le> mx \<and> step dvd (x - v)}"
  using assms
proof (induction n arbitrary: v)
  case (Suc n)
  show ?case
  proof (cases "v \<le> mx")
    case False
    then show ?thesis by auto
  next
    case True
    have w: "wrap64 (v + step) = v + step"
      using Suc.prems by (intro wrap64_id) (simp add: in_int64_def)
    have split: "{x. v \<le> x \<and> x \<le> mx \<and> step dvd (x - v)} =
        insert v {x. v + step \<le> x \<and> x \<le> mx \<and> step dvd (x - (v + step))}"
    proof (intro set_eqI iffI)
      fix x assume x: "x \<in> {x. v \<le> x \<and> x \<le> mx \<and> step dvd (x - v)}"
      then obtain k where k: "x - v = step * k" by (auto elim: dvdE)
      show "x \<in> insert v {x. v + step \<le> x \<and> x \<le> mx \<and> step dvd (x - (v + step))}"
      proof (cases "k \<le> 0")
        case True
        then have "step * k \<le> 0" using Suc.prems(2) by (simp add: mult_nonneg_nonpos)
        moreover have "v \<le> x" using x by simp
        ultimately have "x = v" using k by linarith
        then show ?thesis by simp
      next
        case False
        then have "step * 1 \<le> step * k" using Suc.prems(2) by (intro mult_left_mono) auto
        then have "v + step \<le> x" using k by linarith
        moreover have "x - (v + step) = step * (k - 1)" using k by (simp add: algebra_simps)
        then have "step dvd x - (v + step)" by (rule dvdI)
        moreover have "x \<le> mx" using x by simp
        ultimately show ?thesis by simp
      qed
    next
      fix x assume "x \<in> insert v {x. v + step \<le> x \<and> x \<le> mx \<and> step dvd (x - (v + step))}"
      then consider "x = v" | "v + step \<le> x" "x \<le> mx" "step dvd (x - (v + step))" by blast
      then show "x \<in> {x. v \<le> x \<and> x \<le> mx \<and> step dvd (x - v)}"
      proof cases
        case 2
        then have "step dvd (x - (v + step)) + step" by (intro dvd_add) auto
        moreover have "(x - (v + step)) + step = x - v" by simp
        ultimately show ?thesis using 2 Suc.prems(2) by auto
      qed (use True in simp)
    qed
    show ?thesis
    proof (cases "v + step \<le> mx")
      case True
      then have "\<exists>vs. step_values n (v + step) mx step = Some vs \<and>
          set vs = {x. v + step \<le> x \<and> x \<le> mx \<and> step dvd (x - (v + step))}"
        using Suc.prems by (intro Suc.IH) auto
      then show ?thesis using \<open>v \<le> mx\<close> w split by auto
    next
      case False
      then have none: "{x. v + step \<le> x \<and> x \<le> mx \<and> step dvd (x - (v + step))} = {}" by auto
      obtain n' where n': "n = Suc n'" using Suc.prems(5) True by (cases n) auto
      then have "step_values n (v + step) mx step = Some []" using False by simp
      then show ?thesis using \<open>v \<le> mx\<close> w split none by auto
    qed
  qed
qed simp

text \<open>The bound on the loop is never reached for the six fields, overflow or not.\<close>

lemma step_values_enough:
  assumes "0 \<le> mn" and "mn \<le> 1" and "mx \<le> 59" and "0 < step" and "in_int64 step"
  shows "step_values loop_fuel mn mx step \<noteq> None"
proof (cases "mn + step \<le> int64_max")
  case True
  then have "\<exists>vs. step_values loop_fuel mn mx step = Some vs \<and>
      set vs = {x. mn \<le> x \<and> x \<le> mx \<and> step dvd (x - mn)}"
    using assms by (intro step_values_spec) (simp_all add: loop_fuel_def)
  then show ?thesis by auto
next
  case False
  then have *: "mn = 1" "step = int64_max" using assms by (auto simp: in_int64_def)
  have "step_values (Suc (Suc (Suc (Suc n)))) 1 mx int64_max \<noteq> None" for n
    using assms(3) by (simp add: wrap64_def)
  from this[of 60] show ?thesis unfolding * by (simp add: loop_fuel_def)
qed

text \<open>The values a part stands for, and the parts that stand for something.\<close>

definition part_values :: "string \<Rightarrow> int \<Rightarrow> int \<Rightarrow> int set" where
  "part_values p mn mx =
     {v. mn \<le> v \<and> v \<le> mx \<and>
        (p = ''*'' \<or>
         has_prefix p ''*/'' \<and> (\<exists>k. atoi (drop 2 p) = Some k \<and> k dvd (v - mn)) \<or>
         p \<noteq> ''*'' \<and> \<not> has_prefix p ''*/'' \<and> atoi p = Some v)}"

definition part_ok :: "string \<Rightarrow> int \<Rightarrow> int \<Rightarrow> bool" where
  "part_ok p mn mx \<longleftrightarrow>
     (if p = ''*'' then True
      else if has_prefix p ''*/'' then (\<exists>k. atoi (drop 2 p) = Some k \<and> 0 < k)
      else (\<exists>v. atoi p = Some v \<and> mn \<le> v \<and> v \<le> mx))"

definition no_wrap :: "string \<Rightarrow> int \<Rightarrow> bool" where
  "no_wrap p mn \<longleftrightarrow> (\<forall>k. atoi (drop 2 p) = Some k \<longrightarrow> mn + k \<le> int64_max)"

lemma step_text: "has_prefix p ''*/'' \<Longrightarrow> trim_prefix p ''*/'' = drop 2 p"
  by (simp add: trim_prefix_def numeral_2_eq_2)

lemma parse_part_spec:
  assumes "0 \<le> mn" and "mx \<le> 59" and "no_wrap (trim_space p) mn"
  shows "case parse_part p mn mx of
      Inl _ \<Rightarrow> \<not> part_ok (trim_space p) mn mx
    | Inr vs \<Rightarrow> part_ok (trim_space p) mn mx \<and> set vs = part_values (trim_space p) mn mx"
proof -
  let ?p = "trim_space p"
  have all: "\<exists>vs. step_values loop_fuel mn mx 1 = Some vs \<and> set vs = {x. mn \<le> x \<and> x \<le> mx}"
    if "mn \<le> 100"
    using step_values_spec[of mn 1 mx loop_fuel] assms(1,2) that by (simp add: loop_fuel_def)
  have stp: "\<exists>vs. step_values loop_fuel mn mx k = Some vs \<and> set vs = {x. mn \<le> x \<and> x \<le> mx \<and> k dvd (x - mn)}"
    if "0 < k" "mn + k \<le> int64_max" for k
    using step_values_spec[of mn k mx loop_fuel] assms(1,2) that by (simp add: loop_fuel_def)
  show ?thesis
  proof (cases "?p = ''*''")
    case True
    have "\<exists>vs. step_values loop_fuel mn mx 1 = Some vs \<and> set vs = {x. mn \<le> x \<and> x \<le> mx}"
    proof (cases "mn \<le> 100")
      case False
      then show ?thesis using assms(2) by (auto simp: loop_fuel_def numeral_eq_Suc)
    qed (rule all)
    with True show ?thesis
      by (auto simp: parse_part_def part_ok_def part_values_def Let_def)
  next
    case False
    show ?thesis
    proof (cases "has_prefix ?p ''*/''")
      case True
      show ?thesis
      proof (cases "atoi (drop 2 ?p)")
        case None
        with True False show ?thesis
          by (simp add: parse_part_def part_ok_def step_text Let_def)
      next
        case (Some k)
        show ?thesis
        proof (cases "0 < k")
          case True
          with Some obtain vs where "step_values loop_fuel mn mx k = Some vs"
            "set vs = {x. mn \<le> x \<and> x \<le> mx \<and> k dvd (x - mn)}"
            using stp[of k] assms(3) by (auto simp: no_wrap_def)
          with True Some False \<open>has_prefix ?p ''*/''\<close> show ?thesis
            by (auto simp: parse_part_def part_ok_def part_values_def step_text Let_def)
        next
          case False
          with Some \<open>?p \<noteq> ''*''\<close> \<open>has_prefix ?p ''*/''\<close> show ?thesis
            by (simp add: parse_part_def part_ok_def step_text)
        qed
      qed
    next
      case hp: False
      with False show ?thesis
        by (auto simp: parse_part_def part_ok_def part_values_def Let_def split: option.splits if_splits)
    qed
  qed
qed

lemma add_new_spec: "set (add_new vs out) = set out \<union> set vs \<and> (distinct out \<longrightarrow> distinct (add_new vs out))"
  unfolding add_new_def by (induction vs arbitrary: out) auto

lemma parse_parts_spec:
  assumes "0 \<le> mn" and "mx \<le> 59" and "\<forall>p \<in> set ps. no_wrap (trim_space p) mn" and "distinct out"
  shows "case parse_parts ps mn mx out of
      Inl _ \<Rightarrow> \<exists>p \<in> set ps. \<not> part_ok (trim_space p) mn mx
    | Inr vs \<Rightarrow> (\<forall>p \<in> set ps. part_ok (trim_space p) mn mx) \<and> distinct vs \<and>
        set vs = set out \<union> (\<Union>p \<in> set ps. part_values (trim_space p) mn mx)"
  using assms(3,4)
proof (induction ps arbitrary: out)
  case (Cons p ps)
  show ?case
  proof (cases "parse_part p mn mx")
    case (Inl e)
    then show ?thesis using parse_part_spec[OF assms(1,2), of p] Cons.prems by simp
  next
    case (Inr vs)
    have "part_ok (trim_space p) mn mx" "set vs = part_values (trim_space p) mn mx"
      using parse_part_spec[OF assms(1,2), of p] Cons.prems Inr by simp_all
    then show ?thesis
      using Cons.IH[of "add_new vs out"] Cons.prems Inr add_new_spec[of vs out]
      by (auto split: sum.splits)
  qed
qed simp

definition field_parts :: "string \<Rightarrow> string list" where
  "field_parts f = map trim_space (split_at (CHR '','') (trim_space f))"

text \<open>
  C24. A cron field denotes what it says. For the ranges of the six fields (and steps that do not
  overflow), \<open>parseField\<close> accepts a field exactly when it is not blank and each of its
  comma-separated parts is a star, a positive step or a number of the range; and the values it
  returns, each once, are the union of what the parts stand for, where a step of k stands for
  every k-th value of the range from its start.
\<close>
theorem parse_field_denotes:
  assumes "0 \<le> mn" and "mx \<le> 59" and "\<forall>p \<in> set (field_parts f). no_wrap p mn"
  shows "case parse_field f mn mx of
      Inl _ \<Rightarrow> trim_space f = '''' \<or> (\<exists>p \<in> set (field_parts f). \<not> part_ok p mn mx)
    | Inr vs \<Rightarrow> trim_space f \<noteq> '''' \<and> (\<forall>p \<in> set (field_parts f). part_ok p mn mx) \<and>
        distinct vs \<and> set vs = (\<Union>p \<in> set (field_parts f). part_values p mn mx)"
  using parse_parts_spec[OF assms(1,2), of "split_at (CHR '','') (trim_space f)" "[]"] assms(3)
  by (auto simp: parse_field_def field_parts_def Let_def split: sum.splits)

lemma trim_space_plain:
  "space_len space_seqs s = 0 \<Longrightarrow> space_len (map rev space_seqs) (rev s) = 0 \<Longrightarrow> trim_space s = s"
  by (simp add: trim_space_def strip_nop)

lemma no_wrap_code: "no_wrap p mn \<longleftrightarrow> (case atoi (drop 2 p) of None \<Rightarrow> True | Some k \<Rightarrow> mn + k \<le> int64_max)"
  by (auto simp: no_wrap_def split: option.split)

lemma demo_parts: "field_parts ''5,*/20'' = [''5'', ''*/20'']" and demo_step: "atoi ''20'' = Some 20"
  and demo_none: "atoi '''' = None"
  by code_simp+

lemma parse_field_denotes_witness:
  "case parse_field ''5,*/20'' 0 59 of
      Inl _ \<Rightarrow> trim_space ''5,*/20'' = '''' \<or> (\<exists>p \<in> set (field_parts ''5,*/20''). \<not> part_ok p 0 59)
    | Inr vs \<Rightarrow> trim_space ''5,*/20'' \<noteq> '''' \<and> (\<forall>p \<in> set (field_parts ''5,*/20''). part_ok p 0 59) \<and>
        distinct vs \<and> set vs = (\<Union>p \<in> set (field_parts ''5,*/20''). part_values p 0 59)"
  by (rule parse_field_denotes) (simp_all add: demo_parts no_wrap_code demo_step demo_none)

subsection \<open>What the scan finds\<close>

lemma scan_spec:
  "case scan off sp h t of
     None \<Rightarrow> \<forall>j. t + int j * second < h \<longrightarrow> \<not> matches off sp (t + int j * second)
   | Some u \<Rightarrow> \<exists>k. u = t + int k * second \<and> u < h \<and> matches off sp u \<and>
        (\<forall>j < k. \<not> matches off sp (t + int j * second))"
proof (induction off sp h t rule: scan.induct)
  case (1 off sp h t)
  show ?case
  proof (cases "t < h \<and> \<not> matches off sp t")
    case False
    have "t < t + int j * second \<or> j = 0" for j by (cases j) auto
    then show ?thesis using False
      by (subst scan.simps) (auto intro!: exI[of _ "0::nat"] dest: order.strict_trans)
  next
    case True
    have IH: "case scan off sp h (t + second) of
       None \<Rightarrow> \<forall>j. t + second + int j * second < h \<longrightarrow> \<not> matches off sp (t + second + int j * second)
     | Some u \<Rightarrow> \<exists>k. u = t + second + int k * second \<and> u < h \<and> matches off sp u \<and>
          (\<forall>j < k. \<not> matches off sp (t + second + int j * second))"
      using 1 True by blast
    have sh: "t + second + int j * second = t + int (Suc j) * second" for j
      by (simp add: algebra_simps)
    have s: "scan off sp h t = scan off sp h (t + second)" using True by (subst scan.simps) simp
    show ?thesis
    proof (cases "scan off sp h (t + second)")
      case None
      have "\<not> matches off sp (t + int j * second)" if "t + int j * second < h" for j
        using IH[unfolded None sh] that True by (cases j) auto
      then show ?thesis using s None by simp
    next
      case (Some u)
      then obtain k where k: "u = t + int (Suc k) * second" "u < h" "matches off sp u"
        "\<forall>j < k. \<not> matches off sp (t + int (Suc j) * second)"
        using IH[unfolded sh] by auto
      have "\<forall>j < Suc k. \<not> matches off sp (t + int j * second)"
        using k(4) True by (metis add_0_right less_Suc_eq_0_disj mult_zero_left of_nat_0)
      then show ?thesis
        unfolding s Some option.case by (intro exI[of _ "Suc k"] conjI) (use k in auto)
    qed
  qed
qed

text \<open>
  C25. The next fire time is the next match. What \<open>nextCron\<close> returns is a whole number of seconds
  after the given instant, at least one, matches all six fields, lies within three years and is
  the earliest such instant; it reports that there is none exactly when nothing matches within the
  three years, and otherwise only fails to parse.
\<close>
theorem next_cron_is_least:
  "case next_cron_fields off after fs of
     Inr t \<Rightarrow> \<exists>sp k. parse_spec fs = Inr sp \<and> 1 \<le> k \<and> t = after + int k * second \<and>
        t < add_years off 3 after \<and> matches off sp t \<and>
        (\<forall>j \<in> {1..<k}. \<not> matches off sp (after + int j * second))
   | Inl NoNextTime \<Rightarrow> \<exists>sp. parse_spec fs = Inr sp \<and>
        (\<forall>j. 1 \<le> j \<and> after + int j * second < add_years off 3 after \<longrightarrow>
           \<not> matches off sp (after + int j * second))
   | Inl e \<Rightarrow> parse_spec fs = Inl e"
proof (cases "parse_spec fs")
  case (Inl e)
  then have "e \<noteq> NoNextTime"
    by (auto simp: parse_spec_def label_err_def split: if_splits sum.splits)
  then show ?thesis using Inl by (cases e) (simp_all add: next_cron_fields_def)
next
  case (Inr sp)
  have sh: "after + second + int j * second = after + int (Suc j) * second" for j
    by (simp add: algebra_simps)
  show ?thesis
  proof (cases "scan off sp (add_years off 3 after) (after + second)")
    case None
    have "\<not> matches off sp (after + int j * second)"
      if "1 \<le> j" "after + int j * second < add_years off 3 after" for j
      using scan_spec[where off = off and sp = sp and h = "add_years off 3 after" and t = "after + second", unfolded None sh] that
      by (cases j) auto
    then show ?thesis using Inr None by (simp add: next_cron_fields_def)
  next
    case (Some t)
    then obtain k where k: "t = after + int (Suc k) * second" "t < add_years off 3 after"
      "matches off sp t" "\<forall>j < k. \<not> matches off sp (after + int (Suc j) * second)"
      using scan_spec[where off = off and sp = sp and h = "add_years off 3 after" and t = "after + second", unfolded sh] by auto
    have "\<not> matches off sp (after + int j * second)" if "j \<in> {1..<Suc k}" for j
      using k(4) that by (cases j) auto
    then show ?thesis using Inr Some k
      by (simp add: next_cron_fields_def) (rule exI[of _ "Suc k"], auto)
  qed
qed

lemma every_second: "next_cron_fields 0 0 [''*'', ''*'', ''*'', ''*'', ''*'', ''*''] = Inr second"
  by code_simp

lemma next_cron_is_least_witness:
  "\<exists>sp k. parse_spec [''*'', ''*'', ''*'', ''*'', ''*'', ''*''] = Inr sp \<and> 1 \<le> k \<and> second = int k * second \<and>
     matches 0 sp second"
  using next_cron_is_least[where off = 0 and after = 0 and fs = "[''*'', ''*'', ''*'', ''*'', ''*'', ''*'']"]
  unfolding every_second by auto

text \<open>Concrete instants: 2024-02-29 is a leap day and a Thursday, and three years later is March 1st.\<close>

lemma leap_day: "civil_of_days 19782 = (2024, 2, 29)"
  by code_simp

lemma leap_day_civil: "civil 0 (19782 * 86400 * second) =
    \<lparr>c_month = 2, c_day = 29, c_weekday = 4, c_hour = 0, c_minute = 0, c_second = 0\<rparr>"
  by code_simp

lemma leap_day_years: "civil_of_days (add_years 0 3 (19782 * 86400 * second) div (86400 * second)) = (2027, 3, 1)"
  by code_simp

end
