(* ===== verification/Automation.thy ===== *)
theory Automation
  imports Records Cron Executor
begin

text \<open>
  The automation engine of \<open>internal/automation/engine.go\<close>: cron rules that are polled, git rules
  that watch the head commit of a repository, webhooks, and the firing of a rule. What git prints
  for a directory and the random part of a task id are arguments.
\<close>

subsection \<open>\<open>time.ParseDuration\<close>\<close>

fun span_digits :: "string \<Rightarrow> string \<times> string" where
  "span_digits [] = ([], [])"
| "span_digits (c # cs) =
     (if digit_val c \<noteq> None then (case span_digits cs of (a, b) \<Rightarrow> (c # a, b)) else ([], c # cs))"

lemma span_digits_length: "span_digits s = (a, b) \<Longrightarrow> length a + length b = length s"
  by (induction s arbitrary: a b) (auto split: if_splits prod.splits)

fun span_unit :: "string \<Rightarrow> string \<times> string" where
  "span_unit [] = ([], [])"
| "span_unit (c # cs) =
     (if c = CHR ''.'' \<or> digit_val c \<noteq> None then ([], c # cs)
      else (case span_unit cs of (a, b) \<Rightarrow> (c # a, b)))"

lemma span_unit_length: "span_unit s = (a, b) \<Longrightarrow> length a + length b = length s"
  by (induction s arbitrary: a b) (auto split: if_splits prod.splits)

definition unit_of :: "string \<Rightarrow> duration option" where
  "unit_of u =
     (if u = ''ns'' then Some 1
      else if u = ''us'' \<or> u = [CHR 0xC2, CHR 0xB5, CHR ''s''] \<or> u = [CHR 0xCE, CHR 0xBC, CHR ''s''] then Some 1000
      else if u = ''ms'' then Some 1000000
      else if u = ''s'' then Some second
      else if u = ''m'' then Some minute
      else if u = ''h'' then Some hour
      else None)"

text \<open>\<open>leadingFraction\<close>: digits that would overflow are read and ignored.\<close>

fun fraction :: "string \<Rightarrow> int \<Rightarrow> int \<Rightarrow> bool \<Rightarrow> int \<times> int" where
  "fraction [] f scale over = (f, scale)"
| "fraction (c # cs) f scale over =
     (if over \<or> int64_max div 10 < f then fraction cs f scale True
      else (let y = f * 10 + the (digit_val c)
            in if 2 ^ 63 < y then fraction cs f scale True else fraction cs y (scale * 10) False))"

text \<open>One number with its unit, and what follows it.\<close>

definition duration_item :: "string \<Rightarrow> (int \<times> string) option" where
  "duration_item s =
     (let (ds, r1) = span_digits s;
          (fs, r2) = (if has_prefix r1 ''.'' then span_digits (drop 1 r1) else ([], r1));
          (u, r3) = span_unit r2;
          (f, scale) = fraction fs 0 1 False
      in if ds = [] \<and> fs = [] \<or> u = [] then None
         else case (digits_val 0 ds, unit_of u) of
           (Some v, Some un) \<Rightarrow>
             if 2 ^ 63 < v \<or> 2 ^ 63 div un < v \<or> 2 ^ 63 < v * un + f * un div scale then None
             else Some (v * un + f * un div scale, r3)
         | _ \<Rightarrow> None)"

lemma duration_item_shorter: "duration_item s = Some (v, r) \<Longrightarrow> length r < length s"
proof -
  assume a: "duration_item s = Some (v, r)"
  obtain ds r1 where 1: "span_digits s = (ds, r1)" by fastforce
  obtain fs r2 where 2: "(if has_prefix r1 ''.'' then span_digits (drop 1 r1) else ([], r1)) = (fs, r2)"
    by fastforce
  obtain u r3 where 3: "span_unit r2 = (u, r3)" by fastforce
  have "length r2 \<le> length r1"
    using 2 span_digits_length[of "drop 1 r1"] by (auto split: if_splits)
  moreover have "r = r3" and "u \<noteq> []"
    using a 1 2 3 by (auto simp: duration_item_def Let_def split: prod.splits option.splits if_splits)
  ultimately show ?thesis
    using span_digits_length[OF 1] span_unit_length[OF 3] by (cases u) auto
qed

function duration_items :: "int \<Rightarrow> string \<Rightarrow> int option" where
  "duration_items d s =
     (if s = [] then Some d
      else case duration_item s of
        None \<Rightarrow> None
      | Some (v, r) \<Rightarrow> if 2 ^ 63 < d + v then None else duration_items (d + v) r)"
  by pat_completeness auto

termination
proof (relation "measure (\<lambda>(_, s). length s)", simp)
  fix d s p v r assume "duration_item s = Some p" and "(v, r) = p"
  then have "length r < length s" using duration_item_shorter by metis
  then show "((d + v, r), d, s) \<in> measure (\<lambda>(_, s). length s)" by simp
qed

declare duration_items.simps [simp del]

definition parse_duration :: "string \<Rightarrow> duration option" where
  "parse_duration s0 =
     (let neg = has_prefix s0 ''-'';
          s = (if neg \<or> has_prefix s0 ''+'' then drop 1 s0 else s0)
      in if s = ''0'' then Some 0
         else if s = '''' then None
         else case duration_items 0 s of
           None \<Rightarrow> None
         | Some d \<Rightarrow> if neg then Some (- d) else if int64_max < d then None else Some d)"

subsection \<open>When a rule is due\<close>

text \<open>\<open>off\<close> is the offset of the location of the stored time.\<close>

definition cron_due :: "int \<Rightarrow> rule \<Rightarrow> time \<Rightarrow> cron_error + bool" where
  "cron_due off r at =
     (let s = trim_space (r_schedule r)
      in if s = '''' then Inr False
         else case r_last_fired r of
           None \<Rightarrow> Inr True
         | Some fired \<Rightarrow>
             (case parse_duration s of
                Some d \<Rightarrow> Inr (d \<le> at - fired)
              | None \<Rightarrow>
                  (case next_cron_fields off fired (fields_of s) of
                     Inl e \<Rightarrow> Inl e
                   | Inr nxt \<Rightarrow> Inr (nxt \<le> at))))"

subsection \<open>Firing\<close>

definition rule_task_id :: "string \<Rightarrow> string \<Rightarrow> string" where
  "rule_task_id rid stamp = ''task_'' @ rid @ ''_'' @ stamp"

definition rule_task :: "rule \<Rightarrow> string \<Rightarrow> task" where
  "rule_task r tid = \<lparr>t_id = tid, t_session = '''', t_dir = r_dir r, t_name = '''',
     t_prompt = r_prompt r, t_depends = '''', t_status = TaskQueued, t_error = '''', t_result = '''',
     t_progress = '''', t_summary = '''', t_attempts = 0, t_created = 0, t_updated = 0,
     t_started = None, t_finished = None, t_available = 0, t_scheduled = None, t_cron = '''',
     t_last_fired = None\<rparr>"

text \<open>\<open>stamp\<close> is the time and random part of the new task's id.\<close>

definition fire :: "string \<Rightarrow> string \<Rightarrow> world \<Rightarrow> unit result \<times> world" where
  "fire stamp rid w =
     (case call (get_rule rid) w of
        (Inl e, w1) \<Rightarrow> (Inl e, w1)
      | (Inr r, w1) \<Rightarrow>
          if \<not> r_enabled r then (Inr (), w1)
          else (case call (create_task (rule_task r (rule_task_id rid stamp))) w1 of
                  (Inl e, w2) \<Rightarrow> (Inl e, w2)
                | (Inr _, w2) \<Rightarrow>
                    call (mark_rule_fired rid)
                      (run_call (record_rule_execution rid (rule_task_id rid stamp)) w2)))"

subsection \<open>The polls\<close>

fun poll_cron_rules :: "int \<Rightarrow> (string \<Rightarrow> string) \<Rightarrow> time \<Rightarrow> rule list \<Rightarrow> world \<Rightarrow> world" where
  "poll_cron_rules off stamp at [] w = w"
| "poll_cron_rules off stamp at (r # rs) w =
     poll_cron_rules off stamp at rs
       (if \<not> r_enabled r \<or> r_kind r \<noteq> TriggerCron then w
        else if cron_due off r at = Inr True then snd (fire (stamp (r_id r)) (r_id r) w)
        else w)"

definition poll_cron :: "int \<Rightarrow> (string \<Rightarrow> string) \<Rightarrow> world \<Rightarrow> unit result \<times> world" where
  "poll_cron off stamp w =
     (case call list_rules w of
        (Inl e, w1) \<Rightarrow> (Inl e, w1)
      | (Inr rs, w1) \<Rightarrow> (Inr (), poll_cron_rules off stamp (now w1) rs w1))"

text \<open>The git watcher keeps the last head it saw of each rule; \<open>git\<close> answers for a directory.\<close>

type_synonym heads = "string \<Rightarrow> string option"

definition git_dir :: "rule \<Rightarrow> string" where
  "git_dir r = (if r_schedule r = '''' then r_dir r else r_schedule r)"

definition git_head :: "(string \<Rightarrow> string + string) \<Rightarrow> string \<Rightarrow> string + string" where
  "git_head git dir = (case git dir of Inl e \<Rightarrow> Inl (''git rev-parse: '' @ e) | Inr out \<Rightarrow> Inr (trim_space out))"

definition poll_git_rule :: "(string \<Rightarrow> string) \<Rightarrow> (string \<Rightarrow> string + string) \<Rightarrow> rule \<Rightarrow> heads \<times> world \<Rightarrow> heads \<times> world" where
  "poll_git_rule stamp git r hw =
     (case hw of (heads, w) \<Rightarrow>
        if \<not> r_enabled r \<or> r_kind r \<noteq> TriggerGit \<or> git_dir r = '''' then (heads, w)
        else case git_head git (git_dir r) of
          Inl _ \<Rightarrow> (heads, w)
        | Inr head \<Rightarrow>
            (case heads (r_id r) of
               None \<Rightarrow> (heads(r_id r \<mapsto> head), w)
             | Some prev \<Rightarrow>
                 if prev \<noteq> head then (heads(r_id r \<mapsto> head), snd (fire (stamp (r_id r)) (r_id r) w))
                 else (heads, w)))"

definition poll_git :: "(string \<Rightarrow> string) \<Rightarrow> (string \<Rightarrow> string + string) \<Rightarrow> heads \<Rightarrow> world \<Rightarrow> unit result \<times> heads \<times> world" where
  "poll_git stamp git heads w =
     (case call list_rules w of
        (Inl e, w1) \<Rightarrow> (Inl e, heads, w1)
      | (Inr rs, w1) \<Rightarrow> (Inr (), fold (poll_git_rule stamp git) rs (heads, w1)))"

text \<open>\<open>Run\<close>: one tick of the engine.\<close>

definition engine_tick :: "int \<Rightarrow> (string \<Rightarrow> string) \<Rightarrow> (string \<Rightarrow> string + string) \<Rightarrow> heads \<times> world \<Rightarrow> heads \<times> world" where
  "engine_tick off stamp git hw =
     (case hw of (heads, w) \<Rightarrow> snd (poll_git stamp git heads (snd (poll_cron off stamp w))))"

definition engine_interval :: "duration \<Rightarrow> duration" where
  "engine_interval d = (if d \<le> 0 then 15 * second else d)"

subsection \<open>Webhooks\<close>

definition match_target :: "string \<Rightarrow> string \<Rightarrow> bool" where
  "match_target schedule target \<longleftrightarrow> schedule = target"

definition hook_rule :: "string \<Rightarrow> string \<Rightarrow> rule \<Rightarrow> bool" where
  "hook_rule kind target r \<longleftrightarrow> r_enabled r \<and> r_kind r = kind \<and>
     \<not> (target \<noteq> '''' \<and> r_schedule r \<noteq> '''' \<and> \<not> match_target (r_schedule r) target)"

definition fire_kind :: "(string \<Rightarrow> string) \<Rightarrow> string \<Rightarrow> string \<Rightarrow> world \<Rightarrow> bool result \<times> world" where
  "fire_kind stamp kind target w =
     (case call list_rules w of
        (Inl e, w1) \<Rightarrow> (Inl e, w1)
      | (Inr rs, w1) \<Rightarrow>
          (case find (hook_rule kind target) rs of
             None \<Rightarrow> (Inr False, w1)
           | Some r \<Rightarrow>
               (case fire (stamp (r_id r)) (r_id r) w1 of
                  (Inl e, w2) \<Rightarrow> (Inl e, w2)
                | (Inr _, w2) \<Rightarrow> (Inr True, w2))))"

end
