(* ===== verification/Utf8.thy ===== *)
theory Utf8
  imports GoStrings
begin

text \<open>
  Runes: the code points of a Go string. \<open>[]rune(s)\<close> and \<open>range s\<close> read UTF-8 and take a byte that
  starts no valid sequence as U+FFFD; \<open>string(rs)\<close> writes UTF-8, with U+FFFD for what is not a
  code point.
\<close>

definition byte_of :: "char \<Rightarrow> int" where
  "byte_of c = of_char c"

definition in_range :: "int \<Rightarrow> int \<Rightarrow> char \<Rightarrow> bool" where
  "in_range lo hi c \<longleftrightarrow> lo \<le> byte_of c \<and> byte_of c \<le> hi"

definition rune_error :: int where
  "rune_error = 65533"

text \<open>The continuation bytes: the range of the first one depends on the leading byte.\<close>

definition second_range :: "int \<Rightarrow> int \<times> int" where
  "second_range b =
     (if b = 224 then (160, 191) else if b = 237 then (128, 159)
      else if b = 240 then (144, 191) else if b = 244 then (128, 143) else (128, 191))"

text \<open>\<open>utf8.DecodeRune\<close>: the code point and the number of bytes it takes.\<close>

definition decode_rune :: "string \<Rightarrow> int \<times> nat" where
  "decode_rune s =
     (case s of
        [] \<Rightarrow> (rune_error, 0)
      | a # r \<Rightarrow>
          (let b = byte_of a; (lo, hi) = second_range b
           in if b < 128 then (b, 1)
              else if 194 \<le> b \<and> b \<le> 223 then
                (case r of
                   c1 # _ \<Rightarrow> if in_range lo hi c1 then ((b - 192) * 64 + (byte_of c1 - 128), 2) else (rune_error, 1)
                 | _ \<Rightarrow> (rune_error, 1))
              else if 224 \<le> b \<and> b \<le> 239 then
                (case r of
                   c1 # c2 # _ \<Rightarrow>
                     if in_range lo hi c1 \<and> in_range 128 191 c2
                     then ((b - 224) * 4096 + (byte_of c1 - 128) * 64 + (byte_of c2 - 128), 3)
                     else (rune_error, 1)
                 | _ \<Rightarrow> (rune_error, 1))
              else if 240 \<le> b \<and> b \<le> 244 then
                (case r of
                   c1 # c2 # c3 # _ \<Rightarrow>
                     if in_range lo hi c1 \<and> in_range 128 191 c2 \<and> in_range 128 191 c3
                     then ((b - 240) * 262144 + (byte_of c1 - 128) * 4096 + (byte_of c2 - 128) * 64
                             + (byte_of c3 - 128), 4)
                     else (rune_error, 1)
                 | _ \<Rightarrow> (rune_error, 1))
              else (rune_error, 1)))"

lemma decode_rune_size: "s \<noteq> [] \<Longrightarrow> 0 < snd (decode_rune s)"
  by (auto simp: decode_rune_def Let_def split: list.split prod.split)

lemma decode_rune_pos: "decode_rune s = (r, n) \<Longrightarrow> s \<noteq> [] \<Longrightarrow> 0 < n"
  using decode_rune_size[of s] by simp

function runes :: "string \<Rightarrow> int list" where
  "runes s =
     (if s = [] then []
      else case decode_rune s of (r, n) \<Rightarrow> r # runes (drop n s))"
  by pat_completeness auto

termination by (relation "measure length") (auto dest: decode_rune_pos[OF sym])

declare runes.simps [simp del]

definition valid_rune :: "int \<Rightarrow> bool" where
  "valid_rune n \<longleftrightarrow> 0 \<le> n \<and> n \<le> 1114111 \<and> \<not> (55296 \<le> n \<and> n \<le> 57343)"

definition chr_of :: "int \<Rightarrow> char" where
  "chr_of n = char_of n"

text \<open>\<open>utf8.AppendRune\<close>\<close>

definition encode_rune :: "int \<Rightarrow> string" where
  "encode_rune r =
     (let n = (if valid_rune r then r else rune_error)
      in if n < 128 then [chr_of n]
         else if n < 2048 then [chr_of (192 + n div 64), chr_of (128 + n mod 64)]
         else if n < 65536 then
           [chr_of (224 + n div 4096), chr_of (128 + n div 64 mod 64), chr_of (128 + n mod 64)]
         else [chr_of (240 + n div 262144), chr_of (128 + n div 4096 mod 64),
               chr_of (128 + n div 64 mod 64), chr_of (128 + n mod 64)])"

definition of_runes :: "int list \<Rightarrow> string" where
  "of_runes rs = concat (map encode_rune rs)"

subsection \<open>Reading back what was written\<close>

lemma byte_chr [simp]: "0 \<le> n \<Longrightarrow> n < 256 \<Longrightarrow> byte_of (chr_of n) = n"
  by (simp add: byte_of_def chr_of_def)

lemma decode_one: "0 \<le> n \<Longrightarrow> n < 128 \<Longrightarrow> decode_rune (chr_of n # s) = (n, 1)"
  by (simp add: decode_rune_def second_range_def Let_def)

lemma decode_two:
  assumes "128 \<le> n" "n < 2048"
  shows "decode_rune (chr_of (192 + n div 64) # chr_of (128 + n mod 64) # s) = (n, 2)"
proof -
  have "n div 64 < 32" "2 \<le> n div 64" using assms by presburger+
  moreover have "n div 64 * 64 + n mod 64 = n" by simp
  ultimately show ?thesis
    using pos_mod_bound[of 64 n] pos_mod_sign[of 64 n]
    by (simp add: decode_rune_def second_range_def Let_def in_range_def)
qed

lemma split64: "n = n div 64 * 64 + n mod (64 :: int)"
  by simp

lemma div_4096: "n div 4096 = n div 64 div (64 :: int)"
  by (simp add: zdiv_zmult2_eq[symmetric])

lemma div_262144: "n div 262144 = n div 64 div 64 div (64 :: int)"
  by (simp add: zdiv_zmult2_eq[symmetric])

lemma decode_three:
  assumes "2048 \<le> n" "n < 65536" "\<not> (55296 \<le> n \<and> n \<le> 57343)"
  shows "decode_rune (chr_of (224 + n div 4096) # chr_of (128 + n div 64 mod 64) #
    chr_of (128 + n mod 64) # s) = (n, 3)"
proof -
  define a b c where "a = n div 4096" and "b = n div 64 mod 64" and "c = n mod 64"
  have n: "n = a * 4096 + b * 64 + c"
    using split64[of n] split64[of "n div 64"] unfolding a_def b_def c_def div_4096 by linarith
  have bnd: "0 \<le> b" "b < 64" "0 \<le> c" "c < 64"
    unfolding b_def c_def by simp_all
  have a: "0 \<le> a" "a < 16"
    using assms n bnd by linarith+
  have lo: "a = 0 \<Longrightarrow> 32 \<le> b" and hi: "a = 13 \<Longrightarrow> b \<le> 31"
    using assms n bnd by auto
  show ?thesis
    unfolding a_def[symmetric] b_def[symmetric] c_def[symmetric]
    using a bnd lo hi n by (simp add: decode_rune_def second_range_def Let_def in_range_def)
qed

lemma decode_four:
  assumes "65536 \<le> n" "n \<le> 1114111"
  shows "decode_rune (chr_of (240 + n div 262144) # chr_of (128 + n div 4096 mod 64) #
    chr_of (128 + n div 64 mod 64) # chr_of (128 + n mod 64) # s) = (n, 4)"
proof -
  define a b c d where "a = n div 262144" and "b = n div 4096 mod 64" and "c = n div 64 mod 64"
    and "d = n mod 64"
  have n: "n = a * 262144 + b * 4096 + c * 64 + d"
    using split64[of n] split64[of "n div 64"] split64[of "n div 64 div 64"]
    unfolding a_def b_def c_def d_def div_4096 div_262144 by linarith
  have bnd: "0 \<le> b" "b < 64" "0 \<le> c" "c < 64" "0 \<le> d" "d < 64"
    unfolding b_def c_def d_def by simp_all
  have a: "0 \<le> a" "a < 5"
    using assms n bnd by linarith+
  have lo: "a = 0 \<Longrightarrow> 16 \<le> b" and hi: "a = 4 \<Longrightarrow> b \<le> 15"
    using assms n bnd by auto
  show ?thesis
    unfolding a_def[symmetric] b_def[symmetric] c_def[symmetric] d_def[symmetric]
    using a bnd lo hi n by (simp add: decode_rune_def second_range_def Let_def in_range_def)
qed

lemma decode_encode:
  assumes "valid_rune n"
  shows "decode_rune (encode_rune n @ s) = (n, length (encode_rune n))"
proof -
  have "n < 128 \<or> 128 \<le> n \<and> n < 2048 \<or> 2048 \<le> n \<and> n < 65536 \<or> 65536 \<le> n"
    by linarith
  then show ?thesis
    using assms decode_one[of n] decode_two[of n] decode_three[of n] decode_four[of n]
    by (elim disjE) (simp_all add: encode_rune_def valid_rune_def Let_def)
qed

lemma encode_rune_ne [simp]: "encode_rune n \<noteq> []"
  by (simp add: encode_rune_def Let_def)

lemma runes_encode: "valid_rune n \<Longrightarrow> runes (encode_rune n @ s) = n # runes s"
  by (subst runes.simps) (simp add: decode_encode)

lemma runes_of_runes: "\<forall>r \<in> set rs. valid_rune r \<Longrightarrow> runes (of_runes rs) = rs"
proof (induction rs)
  case Nil
  then show ?case by (simp add: of_runes_def runes.simps)
next
  case (Cons r rs)
  then show ?case by (simp add: of_runes_def runes_encode)
qed

end
