(* ===== verification/JsonText.thy ===== *)
theory JsonText
  imports Json Utf8
begin

text \<open>
  Reading a JSON document from bytes, as \<open>json.Unmarshal\<close> does: the grammar of \<open>encoding/json\<close>, with
  escapes and surrogate pairs decoded to UTF-8 and bytes that are no UTF-8 replaced by U+FFFD. Two
  limits of the package are left out: 10000 levels of nesting, and the range of \<open>float64\<close>.

  Every parser returns what follows the part it read, which is shorter than its input; the guards
  \<open>length r < length s\<close> only tell the termination prover so and never fail (\<open>json_consumes\<close>).
\<close>

fun skip_ws :: "string \<Rightarrow> string" where
  "skip_ws [] = []"
| "skip_ws (c # s) = (if c \<in> {CHR '' '', CHR 0x09, CHR 0x0A, CHR 0x0D} then skip_ws s else c # s)"

lemma skip_ws_length [simp]: "length (skip_ws s) \<le> length s"
  by (induction s) auto

subsection \<open>Strings\<close>

definition hex_val :: "char \<Rightarrow> int option" where
  "hex_val c = (let n = byte_of c in
     if 48 \<le> n \<and> n \<le> 57 then Some (n - 48)
     else if 97 \<le> n \<and> n \<le> 102 then Some (n - 87)
     else if 65 \<le> n \<and> n \<le> 70 then Some (n - 55)
     else None)"

fun hex4 :: "string \<Rightarrow> int option" where
  "hex4 (a # b # c # d # s) =
     (case (hex_val a, hex_val b, hex_val c, hex_val d) of
        (Some w, Some x, Some y, Some z) \<Rightarrow> Some (4096 * w + 256 * x + 16 * y + z)
      | _ \<Rightarrow> None)"
| "hex4 _ = None"

definition simple_escape :: "char \<Rightarrow> char option" where
  "simple_escape c =
     (if c \<in> {CHR 0x22, CHR 0x5C, CHR ''/''} then Some c
      else if c = CHR ''b'' then Some (CHR 0x08)
      else if c = CHR ''f'' then Some (CHR 0x0C)
      else if c = CHR ''n'' then Some (CHR 0x0A)
      else if c = CHR ''r'' then Some (CHR 0x0D)
      else if c = CHR ''t'' then Some (CHR 0x09)
      else None)"

text \<open>The code point of a \<open>\u\<close> escape and how many bytes after the \<open>u\<close> it takes.\<close>

definition unicode_escape :: "string \<Rightarrow> (int \<times> nat) option" where
  "unicode_escape s =
     (case hex4 s of
        None \<Rightarrow> None
      | Some n \<Rightarrow>
          if 55296 \<le> n \<and> n \<le> 57343 then
            (case (take 2 (drop 4 s) = [CHR 0x5C, CHR ''u''], hex4 (drop 6 s)) of
               (True, Some m) \<Rightarrow>
                 if n \<le> 56319 \<and> 56320 \<le> m \<and> m \<le> 57343
                 then Some ((n - 55296) * 1024 + (m - 56320) + 65536, 10)
                 else Some (rune_error, 4)
             | _ \<Rightarrow> Some (rune_error, 4))
          else Some (n, 4))"

text \<open>The rest of a string, after the opening quote.\<close>

definition prepend :: "string \<Rightarrow> (string \<times> string) option \<Rightarrow> (string \<times> string) option" where
  "prepend p x = map_option (\<lambda>(a, r). (p @ a, r)) x"

function json_chars :: "string \<Rightarrow> (string \<times> string) option" where
  "json_chars s =
     (case s of
        [] \<Rightarrow> None
      | c # s1 \<Rightarrow>
          if c = CHR 0x22 then Some ([], s1)
          else if c = CHR 0x5C then
            (case s1 of
               [] \<Rightarrow> None
             | e # s2 \<Rightarrow>
                 if e = CHR ''u'' then
                   (case unicode_escape s2 of
                      None \<Rightarrow> None
                    | Some (n, k) \<Rightarrow> prepend (encode_rune n) (json_chars (drop k s2)))
                 else (case simple_escape e of
                         None \<Rightarrow> None
                       | Some c' \<Rightarrow> prepend [c'] (json_chars s2)))
          else if byte_of c < 32 then None
          else prepend (encode_rune (fst (decode_rune s))) (json_chars (drop (snd (decode_rune s) - 1) s1)))"
  by pat_completeness auto

termination by (relation "measure length") auto

declare json_chars.simps [simp del]

lemma prepend_Some: "prepend p x = Some (a, r) \<Longrightarrow> \<exists>b. x = Some (b, r)"
  by (auto simp: prepend_def)

lemma json_chars_step:
  assumes "json_chars s = Some (a, r)"
  shows "(\<exists>s' b. length s' < length s \<and> json_chars s' = Some (b, r)) \<or> length r < length s"
proof (cases s)
  case Nil
  with assms show ?thesis by (simp add: json_chars.simps)
next
  case (Cons c s1)
  consider "c = CHR 0x22" | "c = CHR 0x5C" | "c \<noteq> CHR 0x22" "c \<noteq> CHR 0x5C" by blast
  then show ?thesis
  proof cases
    case 1
    with assms Cons show ?thesis by (simp add: json_chars.simps)
  next
    case 2
    have eq: "json_chars s = (case s1 of [] \<Rightarrow> None | e # s2 \<Rightarrow>
        if e = CHR ''u'' then
          (case unicode_escape s2 of None \<Rightarrow> None
           | Some (n, k) \<Rightarrow> prepend (encode_rune n) (json_chars (drop k s2)))
        else (case simple_escape e of None \<Rightarrow> None | Some c' \<Rightarrow> prepend [c'] (json_chars s2)))"
      by (subst json_chars.simps) (simp add: Cons 2)
    obtain e s2 where s1: "s1 = e # s2" using assms eq by (cases s1) auto
    have "\<exists>k b. json_chars (drop k s2) = Some (b, r)"
    proof (cases "e = CHR ''u''")
      case True
      then obtain n k where "prepend (encode_rune n) (json_chars (drop k s2)) = Some (a, r)"
        using assms eq s1 by (cases "unicode_escape s2") auto
      then show ?thesis by (blast dest: prepend_Some)
    next
      case False
      then obtain c' where "prepend [c'] (json_chars s2) = Some (a, r)"
        using assms eq s1 by (cases "simple_escape e") auto
      then have "\<exists>b. json_chars (drop 0 s2) = Some (b, r)" by (auto dest: prepend_Some)
      then show ?thesis by blast
    qed
    then obtain k b where "json_chars (drop k s2) = Some (b, r)" by blast
    then show ?thesis using Cons s1 by (intro disjI1 exI conjI) (auto simp: less_Suc_eq_le)
  next
    case 3
    then obtain b where "json_chars (drop (snd (decode_rune s) - 1) s1) = Some (b, r)"
      using assms Cons by (subst (asm) json_chars.simps) (auto split: if_splits dest!: prepend_Some)
    then show ?thesis using Cons by (intro disjI1 exI conjI) (auto simp: less_Suc_eq_le)
  qed
qed

lemma json_chars_length: "json_chars s = Some (a, r) \<Longrightarrow> length r < length s"
proof (induction "length s" arbitrary: s a r rule: less_induct)
  case less
  from json_chars_step[OF less.prems] show ?case
  proof
    assume "\<exists>s' b. length s' < length s \<and> json_chars s' = Some (b, r)"
    then obtain s' b where "length s' < length s" "json_chars s' = Some (b, r)" by blast
    with less.hyps show ?thesis by fastforce
  qed
qed

subsection \<open>Numbers\<close>

definition json_digits :: "string \<Rightarrow> string \<times> string" where
  "json_digits s = (takeWhile (\<lambda>c. digit_val c \<noteq> None) s, dropWhile (\<lambda>c. digit_val c \<noteq> None) s)"

text \<open>The part of a number after its sign: an integer, a fraction, an exponent.\<close>

definition json_fraction :: "string \<Rightarrow> (string \<times> string) option" where
  "json_fraction s =
     (if has_prefix s ''.'' then
        (case json_digits (tl s) of (ds, r) \<Rightarrow> if ds = [] then None else Some (''.'' @ ds, r))
      else Some ([], s))"

definition json_exponent :: "string \<Rightarrow> (string \<times> string) option" where
  "json_exponent s =
     (if has_prefix s ''e'' \<or> has_prefix s ''E'' then
        (let s1 = tl s;
             sg = (if has_prefix s1 ''+'' \<or> has_prefix s1 ''-'' then take 1 s1 else [])
         in case json_digits (drop (length sg) s1) of
              (ds, r) \<Rightarrow> if ds = [] then None else Some (take 1 s @ sg @ ds, r))
      else Some ([], s))"

definition json_number :: "string \<Rightarrow> (string \<times> string) option" where
  "json_number s =
     (let sg = (if has_prefix s ''-'' then ''-'' else []);
          s1 = drop (length sg) s;
          (ds, s2) = (if has_prefix s1 ''0'' then (''0'', tl s1) else json_digits s1)
      in if ds = [] then None
         else case json_fraction s2 of
           None \<Rightarrow> None
         | Some (f, s3) \<Rightarrow>
             (case json_exponent s3 of
                None \<Rightarrow> None
              | Some (e, s4) \<Rightarrow> Some (sg @ ds @ f @ e, s4)))"

subsection \<open>Values\<close>

definition json_literal :: "string \<Rightarrow> (json \<times> string) option" where
  "json_literal s =
     (if has_prefix s ''null'' then Some (JNull, drop 4 s)
      else if has_prefix s ''true'' then Some (JBool True, drop 4 s)
      else if has_prefix s ''false'' then Some (JBool False, drop 5 s)
      else map_option (\<lambda>(n, r). (JNum n, r)) (json_number s))"

lemma skip_ws_Cons: "skip_ws s = c # r \<Longrightarrow> length r < length s"
  by (metis Suc_le_eq length_Cons skip_ws_length)

text \<open>
  A value; the elements of an array or the members of an object up to the closing bracket, where
  the next one starts.
\<close>

function json_value :: "string \<Rightarrow> (json \<times> string) option"
  and json_elems :: "string \<Rightarrow> (json list \<times> string) option"
  and json_members :: "string \<Rightarrow> ((string \<times> json) list \<times> string) option" where
  "json_value s =
     (case skip_ws s of
        [] \<Rightarrow> None
      | c # s1 \<Rightarrow>
          if c = CHR ''['' then
            (if has_prefix (skip_ws s1) '']'' then Some (JArr [], tl (skip_ws s1))
             else map_option (\<lambda>(vs, r). (JArr vs, r)) (json_elems s1))
          else if c = CHR ''{'' then
            (if has_prefix (skip_ws s1) ''}'' then Some (JObj [], tl (skip_ws s1))
             else map_option (\<lambda>(ms, r). (JObj ms, r)) (json_members s1))
          else if c = CHR 0x22 then map_option (\<lambda>(a, r). (JStr a, r)) (json_chars s1)
          else json_literal (c # s1))"
| "json_elems s =
     (case json_value s of
        None \<Rightarrow> None
      | Some (v, r) \<Rightarrow>
          (case skip_ws r of
             [] \<Rightarrow> None
           | c # r1 \<Rightarrow>
               if c = CHR '']'' then Some ([v], r1)
               else if c = CHR '','' \<and> length r1 < length s
               then map_option (\<lambda>(vs, r). (v # vs, r)) (json_elems r1)
               else None))"
| "json_members s =
     (case skip_ws s of
        [] \<Rightarrow> None
      | c # s1 \<Rightarrow>
          if c \<noteq> CHR 0x22 then None
          else (case json_chars s1 of
                  None \<Rightarrow> None
                | Some (k, r) \<Rightarrow>
                    (case skip_ws r of
                       [] \<Rightarrow> None
                     | c1 # r1 \<Rightarrow>
                         if c1 \<noteq> CHR '':'' \<or> \<not> length r1 < length s then None
                         else (case json_value r1 of
                                 None \<Rightarrow> None
                               | Some (v, r2) \<Rightarrow>
                                   (case skip_ws r2 of
                                      [] \<Rightarrow> None
                                    | c2 # r3 \<Rightarrow>
                                        if c2 = CHR ''}'' then Some ([(k, v)], r3)
                                        else if c2 = CHR '','' \<and> length r3 < length s
                                        then map_option (\<lambda>(ms, r). ((k, v) # ms, r)) (json_members r3)
                                        else None)))))"
  by pat_completeness auto

termination
  by (relation "measure (\<lambda>x. case x of Inl s \<Rightarrow> 2 * length s + 1 | Inr (Inl s) \<Rightarrow> 2 * length s + 2
      | Inr (Inr s) \<Rightarrow> 2 * length s + 2)")
    (auto dest!: skip_ws_Cons)

declare json_value.simps [simp del] json_elems.simps [simp del] json_members.simps [simp del]

text \<open>\<open>json.Unmarshal\<close>: one value, and nothing but white space around it.\<close>

definition parse_json :: "string \<Rightarrow> json option" where
  "parse_json s =
     (case json_value s of
        None \<Rightarrow> None
      | Some (v, r) \<Rightarrow> if skip_ws r = [] then Some v else None)"

subsection \<open>The guards never fail\<close>

lemma has_prefix_length: "has_prefix s p \<Longrightarrow> length p \<le> length s"
  by (auto simp: has_prefix_iff)

lemma json_digits_length: "json_digits s = (ds, r) \<Longrightarrow> length s = length ds + length r"
  by (metis Pair_inject json_digits_def length_append takeWhile_dropWhile_id)

lemma json_fraction_length: "json_fraction s = Some (f, r) \<Longrightarrow> length r \<le> length s"
  using json_digits_length[of "tl s"] by (auto simp: json_fraction_def split: if_splits prod.splits)

lemma json_exponent_length: "json_exponent s = Some (f, r) \<Longrightarrow> length r \<le> length s"
  by (auto simp: json_exponent_def Let_def split: if_splits prod.splits dest!: json_digits_length)

lemma json_number_length:
  assumes "json_number s = Some (n, r)"
  shows "length r < length s"
proof -
  define sg where "sg = (if has_prefix s ''-'' then ''-'' else [])"
  define s1 where "s1 = drop (length sg) s"
  obtain ds s2 where ds: "(if has_prefix s1 ''0'' then (''0'', tl s1) else json_digits s1) = (ds, s2)"
    by fastforce
  have "json_number s = (if ds = [] then None else case json_fraction s2 of None \<Rightarrow> None
      | Some (f, s3) \<Rightarrow> (case json_exponent s3 of None \<Rightarrow> None | Some (e, s4) \<Rightarrow> Some (sg @ ds @ f @ e, s4)))"
    by (simp only: json_number_def Let_def sg_def[symmetric] s1_def[symmetric] ds prod.case)
  with assms have "ds \<noteq> []" and "\<exists>f e s3. json_fraction s2 = Some (f, s3) \<and> json_exponent s3 = Some (e, r)"
    by (auto split: if_splits option.splits)
  then have "length r \<le> length s2"
    by (meson json_exponent_length json_fraction_length order_trans)
  moreover have "length s2 < length s1"
    using ds \<open>ds \<noteq> []\<close> has_prefix_length[of s1 "''0''"] json_digits_length[of s1]
    by (cases s1) (auto split: if_splits)
  ultimately show ?thesis by (simp add: s1_def)
qed

lemma json_literal_length: "json_literal s = Some (v, r) \<Longrightarrow> length r < length s"
  by (auto simp: json_literal_def dest: json_number_length has_prefix_length split: if_splits)

text \<open>One step of each parser, in terms of what it calls.\<close>

lemma json_value_step:
  assumes "json_value s = Some (v, r)"
  obtains (arr) s1 vs where "length s1 < length s" "json_elems s1 = Some (vs, r)"
    | (obj) s1 ms where "length s1 < length s" "json_members s1 = Some (ms, r)"
    | (short) "length r < length s"
proof -
  obtain c s1 where s1: "skip_ws s = c # s1"
    using assms by (cases "skip_ws s") (auto simp: json_value.simps)
  then have le: "length s1 < length s" by (rule skip_ws_Cons)
  have tl: "length (tl (skip_ws s1)) < length s"
    using le skip_ws_length[of s1] length_tl[of "skip_ws s1"] by linarith
  consider "c = CHR ''[''" | "c = CHR ''{''" | "c = CHR 0x22" | "c \<notin> {CHR ''['', CHR ''{'', CHR 0x22}" by blast
  then show thesis
  proof cases
    case 1
    with assms s1 have "(if has_prefix (skip_ws s1) '']'' then Some (JArr [], tl (skip_ws s1))
        else map_option (\<lambda>(vs, r). (JArr vs, r)) (json_elems s1)) = Some (v, r)"
      by (subst (asm) json_value.simps) simp
    then show thesis using le tl arr[OF le] short by (auto split: if_splits)
  next
    case 2
    with assms s1 have "(if has_prefix (skip_ws s1) ''}'' then Some (JObj [], tl (skip_ws s1))
        else map_option (\<lambda>(ms, r). (JObj ms, r)) (json_members s1)) = Some (v, r)"
      by (subst (asm) json_value.simps) simp
    then show thesis using le tl obj[OF le] short by (auto split: if_splits)
  next
    case 3
    with assms s1 have "map_option (\<lambda>(a, r). (JStr a, r)) (json_chars s1) = Some (v, r)"
      by (subst (asm) json_value.simps) simp
    then show thesis using le short by (fastforce dest: json_chars_length)
  next
    case 4
    with assms s1 have "json_literal (c # s1) = Some (v, r)"
      by (subst (asm) json_value.simps) simp
    then show thesis using le json_literal_length short by fastforce
  qed
qed

lemma json_elems_step:
  assumes "json_elems s = Some (vs, r)"
  obtains v r1 c r2 where "json_value s = Some (v, r1)" "skip_ws r1 = c # r2"
    "r = r2 \<or> (\<exists>vs'. json_elems r2 = Some (vs', r))" "c = CHR '']'' \<longrightarrow> r = r2"
proof -
  obtain v r1 where v: "json_value s = Some (v, r1)"
    using assms by (cases "json_value s") (auto simp: json_elems.simps)
  moreover obtain c r2 where "skip_ws r1 = c # r2"
    using assms v by (cases "skip_ws r1") (auto simp: json_elems.simps)
  ultimately show thesis
    using assms that by (subst (asm) json_elems.simps) (auto split: if_splits)
qed

lemma json_members_step:
  assumes "json_members s = Some (ms, r)"
  obtains s1 k r0 c1 r1 v r2 c2 r3 where "skip_ws s = CHR 0x22 # s1" "json_chars s1 = Some (k, r0)"
    "skip_ws r0 = c1 # r1" "json_value r1 = Some (v, r2)" "skip_ws r2 = c2 # r3"
    "r = r3 \<or> (\<exists>ms'. json_members r3 = Some (ms', r))"
proof -
  note m = assms[unfolded json_members.simps[of s]]
  obtain s1 where s1: "skip_ws s = CHR 0x22 # s1"
    using m by (cases "skip_ws s") (auto split: if_splits)
  obtain k r0 where k: "json_chars s1 = Some (k, r0)"
    using m s1 by (cases "json_chars s1") auto
  obtain c1 r1 where c1: "skip_ws r0 = c1 # r1"
    using m s1 k by (cases "skip_ws r0") auto
  obtain v r2 where v: "json_value r1 = Some (v, r2)"
    using m s1 k c1 by (cases "json_value r1") (auto split: if_splits)
  obtain c2 r3 where c2: "skip_ws r2 = c2 # r3"
    using m s1 k c1 v by (cases "skip_ws r2") (auto split: if_splits)
  have "r = r3 \<or> (\<exists>ms'. json_members r3 = Some (ms', r))"
    using m s1 k c1 v c2 by (auto split: if_splits)
  then show thesis using that s1 k c1 v c2 by blast
qed

lemma json_consumes_all:
  "(\<forall>v r. json_value s = Some (v, r) \<longrightarrow> length r < length s) \<and>
   (\<forall>vs r. json_elems s = Some (vs, r) \<longrightarrow> length r < length s) \<and>
   (\<forall>ms r. json_members s = Some (ms, r) \<longrightarrow> length r < length s)"
proof (induction "length s" arbitrary: s rule: less_induct)
  case less
  have vals: "length r < length s" if "json_value s = Some (v, r)" for v r
    using that
  proof (cases rule: json_value_step)
    case (arr s1 vs)
    with less.hyps[of s1] show ?thesis by (meson less_trans)
  next
    case (obj s1 ms)
    with less.hyps[of s1] show ?thesis by (meson less_trans)
  qed
  have elems: "length r < length s" if "json_elems s = Some (vs, r)" for vs r
    using that
  proof (cases rule: json_elems_step)
    case (1 v r1 c r2)
    have "length r2 < length s" using vals[OF 1(1)] skip_ws_Cons[OF 1(2)] by simp
    with 1(3) less.hyps[of r2] show ?thesis by (meson less_trans)
  qed
  have members: "length r < length s" if "json_members s = Some (ms, r)" for ms r
    using that
  proof (cases rule: json_members_step)
    case (1 s1 k r0 c1 r1 v r2 c2 r3)
    have r1: "length r1 < length s"
      using skip_ws_Cons[OF 1(1)] json_chars_length[OF 1(2)] skip_ws_Cons[OF 1(3)] by simp
    have "length r2 < length r1" using less.hyps[OF r1] 1(4) by blast
    then have "length r3 < length s" using r1 skip_ws_Cons[OF 1(5)] by simp
    with 1(6) less.hyps[of r3] show ?thesis by (meson less_trans)
  qed
  show ?case using vals elems members by blast
qed

lemma json_consumes:
  "json_value s = Some (v, r) \<Longrightarrow> length r < length s"
  "json_elems s = Some (vs, r) \<Longrightarrow> length r < length s"
  "json_members s = Some (ms, r) \<Longrightarrow> length r < length s"
  using json_consumes_all by blast+

lemma parse_json_demo:
  "parse_json (''{'' @ [CHR 0x22] @ ''a'' @ [CHR 0x22] @ '': [1, -2.5e3, null]}'') =
     Some (JObj [(''a'', JArr [JNum ''1'', JNum ''-2.5e3'', JNull])])"
  by code_simp

end
