(* ===== verification/Llm.thy ===== *)
theory Llm
  imports JsonText Executor
begin

text \<open>
  The client of the language model, \<open>internal/llm/client.go\<close>: its configuration, the requests it
  sends, the reading of plain and streamed answers, and the search for the JSON document in what the
  model wrote. The HTTP service is an argument: it maps a request to a response or an error.
\<close>

subsection \<open>Configuration\<close>

record llm_config =
  lc_url :: string
  lc_key :: string
  lc_model :: string

definition trim_right :: "char \<Rightarrow> string \<Rightarrow> string" where
  "trim_right c s = rev (dropWhile (\<lambda>x. x = c) (rev s))"

definition set_config :: "string \<Rightarrow> string \<Rightarrow> string \<Rightarrow> llm_config" where
  "set_config url key model = \<lparr>lc_url = trim_right (CHR ''/'') url, lc_key = key, lc_model = model\<rparr>"

definition snapshot :: "llm_config \<Rightarrow> string \<times> string \<times> string" where
  "snapshot c = (lc_url c, lc_key c, lc_model c)"

text \<open>A nil client is not enabled.\<close>

definition llm_enabled :: "llm_config option \<Rightarrow> bool" where
  "llm_enabled oc = (case oc of
     None \<Rightarrow> False
   | Some c \<Rightarrow> lc_url c \<noteq> '''' \<and> lc_key c \<noteq> '''' \<and> lc_model c \<noteq> '''')"

subsection \<open>Requests\<close>

record chat_request =
  cq_url :: string
  cq_auth :: string
  cq_model :: string
  cq_messages :: "(string \<times> string) list"
  cq_temperature :: string
  cq_max_tokens :: int
  cq_stream :: bool

definition default_max_tokens :: int where
  "default_max_tokens = 8000"

definition chat_request_of :: "llm_config \<Rightarrow> (string \<times> string) list \<Rightarrow> string \<Rightarrow> bool \<Rightarrow> chat_request" where
  "chat_request_of c msgs temp streaming = \<lparr>cq_url = lc_url c @ ''/chat/completions'',
     cq_auth = ''Bearer '' @ lc_key c, cq_model = lc_model c, cq_messages = msgs,
     cq_temperature = temp, cq_max_tokens = default_max_tokens, cq_stream = streaming\<rparr>"

definition chat_messages :: "string \<Rightarrow> string \<Rightarrow> (string \<times> string) list" where
  "chat_messages sys user = (if sys = '''' then [] else [(''system'', sys)]) @ [(''user'', user)]"

definition truncate_text :: "string \<Rightarrow> nat \<Rightarrow> string" where
  "truncate_text s0 n = (let s = trim_space s0 in if length s \<le> n then s else take n s @ ''...'')"

type_synonym llm_http = "chat_request \<Rightarrow> string + response"

definition status_error :: "response \<Rightarrow> string \<Rightarrow> string" where
  "status_error r raw = ''llm: '' @ h_status r @ '': '' @ truncate_text raw 500"

subsection \<open>Plain answers\<close>

definition choice_content :: "string \<Rightarrow> (string \<times> json) list \<Rightarrow> string option" where
  "choice_content key kvs = store_vals (as_obj (str_field ''content'')) '''' (field_vals key kvs)"

definition choices_of :: "string \<Rightarrow> json \<Rightarrow> string list option" where
  "choices_of key doc = as_obj (list_field (as_obj (choice_content key)) ''choices'') doc"

definition chat :: "llm_http \<Rightarrow> llm_config \<Rightarrow> (string \<times> string) list \<Rightarrow> string \<Rightarrow> string + string" where
  "chat http c msgs temp =
     (case http (chat_request_of c msgs temp False) of
        Inl e \<Rightarrow> Inl (''llm: request: '' @ e)
      | Inr r \<Rightarrow>
          (let raw = take 8388608 (h_raw r)
           in if h_code r \<noteq> 200 then Inl (status_error r raw)
              else case parse_json raw of
                None \<Rightarrow> Inl (''llm: parse response: '' @ type_error)
              | Some doc \<Rightarrow>
                  (case choices_of ''message'' doc of
                     None \<Rightarrow> Inl (''llm: parse response: '' @ type_error)
                   | Some [] \<Rightarrow> Inl ''llm: empty response''
                   | Some (txt # _) \<Rightarrow> Inr (trim_space txt))))"

definition err_disabled :: string where
  "err_disabled = ''llm: not configured''"

definition complete :: "llm_http \<Rightarrow> llm_config option \<Rightarrow> string \<Rightarrow> string \<Rightarrow> string + string" where
  "complete http oc sys user =
     (case oc of
        None \<Rightarrow> Inl err_disabled
      | Some c \<Rightarrow> if \<not> llm_enabled oc then Inl err_disabled else chat http c (chat_messages sys user) ''0.2'')"

subsection \<open>The document in the text\<close>

definition fence :: string where
  "fence = [CHR 0x60, CHR 0x60, CHR 0x60]"

definition strip_fence :: "string \<Rightarrow> string" where
  "strip_fence s =
     (if \<not> has_prefix s fence then s
      else (let s1 = (case index_of s [CHR 0x0A] of None \<Rightarrow> s | Some n \<Rightarrow> drop (Suc n) s);
                s2 = (case last_index_of s1 fence of None \<Rightarrow> s1 | Some n \<Rightarrow> take n s1)
            in trim_space s2))"

definition extract_json :: "string \<Rightarrow> string" where
  "extract_json s0 =
     (let s = strip_fence (trim_space s0)
      in if parse_json s \<noteq> None then s
         else case (case index_of s ''{'' of Some n \<Rightarrow> Some (n, ''}'')
                    | None \<Rightarrow> map_option (\<lambda>n. (n, '']'')) (index_of s ''['')) of
           None \<Rightarrow> ''''
         | Some (start, close) \<Rightarrow>
             (case last_index_of s close of
                None \<Rightarrow> ''''
              | Some fin \<Rightarrow> if fin \<le> start then '''' else take (Suc fin - start) (drop start s)))"

definition decode_json :: "(json \<Rightarrow> 'a option) \<Rightarrow> string \<Rightarrow> string + 'a" where
  "decode_json dec txt =
     (let raw = extract_json txt
      in if raw = '''' then Inl ''llm: empty JSON output''
         else case parse_json raw of
           None \<Rightarrow> Inl (''llm: invalid JSON output: '' @ type_error)
         | Some doc \<Rightarrow> (case dec doc of
             None \<Rightarrow> Inl (''llm: invalid JSON output: '' @ type_error)
           | Some x \<Rightarrow> Inr x))"

definition complete_json :: "llm_http \<Rightarrow> llm_config option \<Rightarrow> string \<Rightarrow> string \<Rightarrow> (json \<Rightarrow> 'a option) \<Rightarrow> string + 'a" where
  "complete_json http oc sys user dec =
     (case oc of
        None \<Rightarrow> Inl err_disabled
      | Some c \<Rightarrow>
          if \<not> llm_enabled oc then Inl err_disabled
          else case chat http c (chat_messages sys user) ''0.1'' of
            Inl e \<Rightarrow> Inl e
          | Inr txt \<Rightarrow> decode_json dec txt)"

subsection \<open>Streamed answers\<close>

text \<open>
  \<open>bufio.Scanner\<close> by lines: no final empty line, no carriage return at the end of a line, and an
  error (\<open>None\<close> at the end) at a line that does not fit the buffer.
\<close>

definition chomp :: "string \<Rightarrow> string" where
  "chomp s = trim_suffix s [CHR 0x0D]"

definition scan_lines :: "nat \<Rightarrow> string \<Rightarrow> string list \<times> bool" where
  "scan_lines limit body =
     (let ls = split_at (CHR 0x0A) body;
          ls' = (if ls \<noteq> [] \<and> last ls = [] then butlast ls else ls)
      in (map chomp (takeWhile (\<lambda>l. length l < limit) ls'), list_all (\<lambda>l. length l < limit) ls'))"

definition chunk_delta :: "string \<Rightarrow> string option" where
  "chunk_delta payload =
     (case parse_json payload of
        None \<Rightarrow> None
      | Some doc \<Rightarrow> (case choices_of ''delta'' doc of Some (d # _) \<Rightarrow> Some d | _ \<Rightarrow> None))"

text \<open>
  The loop over the lines: the text so far, or the error of \<open>on_delta\<close>, which sees each delta in
  turn and has a state of its own.
\<close>

fun stream_lines :: "(string \<Rightarrow> 's \<Rightarrow> string option \<times> 's) \<Rightarrow> string \<Rightarrow> string list \<Rightarrow> 's \<Rightarrow>
    (string + (string \<times> bool)) \<times> 's" where
  "stream_lines on_delta acc [] st = (Inr (acc, False), st)"
| "stream_lines on_delta acc (l # ls) st =
     (let line = trim_space l
      in if \<not> has_prefix line ''data:'' then stream_lines on_delta acc ls st
         else (let payload = trim_space (drop 5 line)
               in if payload = ''[DONE]'' then (Inr (acc, True), st)
                  else case chunk_delta payload of
                    None \<Rightarrow> stream_lines on_delta acc ls st
                  | Some d \<Rightarrow>
                      if d = '''' then stream_lines on_delta acc ls st
                      else (case on_delta d st of
                              (Some e, st1) \<Rightarrow> (Inl e, st1)
                            | (None, st1) \<Rightarrow> stream_lines on_delta (acc @ d) ls st1)))"

definition chat_stream :: "llm_http \<Rightarrow> llm_config \<Rightarrow> (string \<times> string) list \<Rightarrow> string \<Rightarrow>
    (string \<Rightarrow> 's \<Rightarrow> string option \<times> 's) \<Rightarrow> 's \<Rightarrow> (string + string) \<times> 's" where
  "chat_stream http c msgs temp on_delta st =
     (case http (chat_request_of c msgs temp True) of
        Inl e \<Rightarrow> (Inl (''llm: request: '' @ e), st)
      | Inr r \<Rightarrow>
          if h_code r \<noteq> 200 then (Inl (status_error r (take 4096 (h_raw r))), st)
          else (case scan_lines 2097152 (h_raw r) of (ls, complete_scan) \<Rightarrow>
            (case stream_lines on_delta '''' ls st of
               (Inl e, st1) \<Rightarrow> (Inl e, st1)
             | (Inr (txt, ended), st1) \<Rightarrow>
                 if \<not> ended \<and> \<not> complete_scan then (Inl ''llm: read stream: bufio.Scanner: token too long'', st1)
                 else (Inr (trim_space txt), st1))))"

definition complete_json_stream :: "llm_http \<Rightarrow> llm_config option \<Rightarrow> string \<Rightarrow> string \<Rightarrow>
    (string \<Rightarrow> 's \<Rightarrow> string option \<times> 's) \<Rightarrow> 's \<Rightarrow> (string + string) \<times> 's" where
  "complete_json_stream http oc sys user on_delta st =
     (case oc of
        None \<Rightarrow> (Inl err_disabled, st)
      | Some c \<Rightarrow> if \<not> llm_enabled oc then (Inl err_disabled, st)
                  else chat_stream http c (chat_messages sys user) ''0.1'' on_delta st)"

subsection \<open>Finding the document\<close>

lemma index_of_first:
  assumes "\<And>n. n < length pre \<Longrightarrow> \<not> has_prefix (drop n (pre @ s)) sub" and "has_prefix s sub"
  shows "index_of (pre @ s) sub = Some (length pre)"
  using assms(1)
proof (induction pre)
  case Nil
  then show ?case using assms(2) by (subst index_of.simps) simp
next
  case (Cons c pre)
  have "\<not> has_prefix (drop n (pre @ s)) sub" if "n < length pre" for n
    using Cons.prems[of "Suc n"] that by simp
  then have "index_of (pre @ s) sub = Some (length pre)" by (rule Cons.IH)
  moreover have "\<not> has_prefix (c # pre @ s) sub" using Cons.prems[of 0] by simp
  ultimately show ?case by (subst index_of.simps) simp
qed

lemma index_of_char: "c \<notin> set pre \<Longrightarrow> index_of (pre @ c # s) [c] = Some (length pre)"
  by (rule index_of_first) (auto simp: has_prefix_def drop_Cons' nth_append in_set_conv_nth
      take_Suc_conv_app_nth Cons_nth_drop_Suc[symmetric])

lemma last_index_none: "c \<notin> set post \<Longrightarrow> last_index_of post [c] = None"
  by (induction post) (auto simp: has_prefix_def)

lemma last_index_of_char: "c \<notin> set post \<Longrightarrow> last_index_of (pre @ c # post) [c] = Some (length pre)"
  by (induction pre) (auto simp: last_index_none has_prefix_def)

text \<open>
  The object in the prose. When the model wraps a JSON object in text that has no opening brace
  before it and no closing brace after it, and the whole is neither JSON nor fenced, the client
  finds exactly the object and decodes it.
\<close>
theorem extract_object_from_prose:
  assumes "obj = ''{'' @ inner @ ''}''" and "parse_json obj = Some v" and "txt = pre @ obj @ post"
    and "CHR ''{'' \<notin> set pre" and "CHR ''}'' \<notin> set post"
    and "trim_space txt = txt" and "\<not> has_prefix txt fence" and "parse_json txt = None"
  shows "extract_json txt = obj \<and> decode_json dec txt =
    (case dec v of None \<Rightarrow> Inl (''llm: invalid JSON output: '' @ type_error) | Some x \<Rightarrow> Inr x)"
proof -
  have start: "index_of txt ''{'' = Some (length pre)"
    using assms(1,3,4) index_of_char[of "CHR ''{''" pre "inner @ ''}'' @ post"] by simp
  have fin: "last_index_of txt ''}'' = Some (length pre + Suc (length inner))"
    using assms(1,3,5) last_index_of_char[of "CHR ''}''" post "pre @ ''{'' @ inner"] by simp
  have "extract_json txt = take (Suc (Suc (length inner))) (drop (length pre) txt)"
    using assms(6-8) start fin by (simp add: extract_json_def strip_fence_def)
  also have "\<dots> = obj" using assms(1,3) by simp
  finally have "extract_json txt = obj" .
  then show ?thesis using assms(1,2) by (simp add: decode_json_def split: option.split)
qed

lemma extract_object_from_prose_witness:
  "extract_json ''Sure: {} - done'' = ''{}''"
proof -
  have "parse_json ''{}'' = Some (JObj [])" and "parse_json ''Sure: {} - done'' = None"
    and "trim_space ''Sure: {} - done'' = ''Sure: {} - done''"
    and "\<not> has_prefix ''Sure: {} - done'' fence"
    by code_simp+
  with extract_object_from_prose[of "''{}''" "[]" "JObj []" "''Sure: {} - done''" "''Sure: ''" "'' - done''" Some]
  show ?thesis by simp
qed

lemma index_of_has_prefix: "index_of s sub = Some n \<Longrightarrow> has_prefix (drop n s) sub"
proof (induction s arbitrary: n)
  case Nil
  then show ?case by (subst (asm) index_of.simps) (auto split: if_splits)
next
  case (Cons c s)
  show ?case
  proof (cases "has_prefix (c # s) sub")
    case True
    with Cons.prems show ?thesis by (subst (asm) index_of.simps) simp
  next
    case False
    then obtain m where "n = Suc m" "index_of s sub = Some m"
      using Cons.prems by (subst (asm) index_of.simps) auto
    with Cons.IH show ?thesis by simp
  qed
qed

text \<open>
  An array of objects in prose is lost. The function means to find an object or an array, but
  looks for an opening bracket only when the text has no opening brace at all: whenever the text is
  not JSON as a whole and has a brace in it, what comes out is empty or starts at that brace, never
  at an earlier bracket. So \<open>Plan: [{}, {}]\<close> is cut to \<open>{}, {}\<close> and rejected.
\<close>
lemma extract_array_of_objects_lost:
  assumes "trim_space txt = txt" and "\<not> has_prefix txt fence" and "parse_json txt = None"
    and "index_of txt ''{'' = Some n"
  shows "extract_json txt = '''' \<or> has_prefix (extract_json txt) ''{''"
proof -
  have "has_prefix (drop n txt) ''{''" using assms(4) by (rule index_of_has_prefix)
  then have "has_prefix (take (Suc m - n) (drop n txt)) ''{''" if "\<not> m \<le> n" for m
    using that by (auto simp: has_prefix_def take_Suc Suc_diff_le split: if_splits)
  with assms show ?thesis
    by (auto simp: extract_json_def Let_def strip_fence_def split: option.split)
qed

lemma extract_array_of_objects_lost_witness:
  "has_prefix (extract_json ''Plan: [{}, {}]'') ''{'' \<and>
   decode_json Some ''Plan: [{}, {}]'' = Inl (''llm: invalid JSON output: '' @ type_error) \<and>
   decode_json Some ''Plan: [1, 2]'' = Inr (JArr [JNum ''1'', JNum ''2''])"
proof -
  have "trim_space ''Plan: [{}, {}]'' = ''Plan: [{}, {}]''" and "\<not> has_prefix ''Plan: [{}, {}]'' fence"
    and "parse_json ''Plan: [{}, {}]'' = None" and "index_of ''Plan: [{}, {}]'' ''{'' = Some 7"
    and "extract_json ''Plan: [{}, {}]'' \<noteq> ''''"
    and "decode_json Some ''Plan: [{}, {}]'' = Inl (''llm: invalid JSON output: '' @ type_error)"
    and "decode_json Some ''Plan: [1, 2]'' = Inr (JArr [JNum ''1'', JNum ''2''])"
    by code_simp+
  with extract_array_of_objects_lost[of "''Plan: [{}, {}]''" 7] show ?thesis by simp
qed

end
