(* ===== verification/Web.thy ===== *)
theory Web
  imports Auth Automation RateLimit Llm
begin

text \<open>
  What the HTTP handlers share (\<open>internal/server/server.go\<close>, \<open>handlers.go\<close>): requests and replies,
  the state of the server, the checks of the web session and of the API token, the throttled write
  of a token's last use, the audit middleware, and the reading of request bodies.

  A handler is a function from the server's state to a reply and the new state. The context that
  caches the verified token belongs to one request; it is the field \<open>sv_ctx\<close>, emptied at the start
  of each request. Replies carry rows as they are; their JSON is in \<open>Wire\<close>. The clock of the
  process and the clock of the database are one.
\<close>

subsection \<open>Requests and replies\<close>

datatype body = TooLarge | Malformed | Doc json

record request =
  q_method :: string
  q_path :: string
  q_query :: "(string \<times> string) list"
  q_headers :: "(string \<times> string) list"
  q_remote :: string
  q_host :: string
  q_body :: body

definition q_get :: "string \<Rightarrow> request \<Rightarrow> string" where
  "q_get k r = (case map_of (q_query r) k of None \<Rightarrow> '''' | Some v \<Rightarrow> v)"

definition header :: "string \<Rightarrow> request \<Rightarrow> string" where
  "header k r = (case map_of (q_headers r) k of None \<Rightarrow> '''' | Some v \<Rightarrow> v)"

datatype payload =
    PJson json
  | PText string
  | PTasks "task list" int int int
  | PTask task
  | PTokens "token list"
  | PAudit "audit_entry list"
  | PRules "rule list"
  | PRule rule
  | PExecs "rule_execution list" int
  | PArchives "archive list"
  | PArchive archive
  | PStats task_stats "(string \<times> string \<times> int) list" int
  | PEvents "session_event list"
  | PUpgraded
  | PProxied "(string \<times> string) list" string

record reply =
  rp_status :: int
  rp_payload :: payload

definition reply :: "int \<Rightarrow> payload \<Rightarrow> reply" where
  "reply code p = \<lparr>rp_status = code, rp_payload = p\<rparr>"

definition write_json :: "int \<Rightarrow> (string \<times> json) list \<Rightarrow> reply" where
  "write_json code kvs = reply code (PJson (JObj kvs))"

definition write_err :: "int \<Rightarrow> string \<Rightarrow> reply" where
  "write_err code msg = write_json code [(''error'', JStr msg)]"

definition ok_reply :: reply where
  "ok_reply = write_json 200 [(''ok'', JBool True)]"

lemma reply_simps [simp]:
  "rp_status (reply c p) = c" "rp_status (write_json c kvs) = c" "rp_status (write_err c msg) = c"
  "rp_status ok_reply = 200"
  by (simp_all add: reply_def write_json_def write_err_def ok_reply_def)

subsection \<open>The state of the server\<close>

text \<open>\<open>sv_rand\<close>: what the next reads of the random source give; past the end they fail.\<close>

record server =
  sv_w :: world
  sv_webhook_secret :: string
  sv_llm :: "llm_config option"
  sv_login :: limiter
  sv_gen :: limiter
  sv_touch :: "string \<Rightarrow> time option"
  sv_ctx :: "token option"
  sv_rand :: "nat list list"

definition new_server :: "string \<Rightarrow> world \<Rightarrow> server" where
  "new_server secret w = \<lparr>sv_w = w, sv_webhook_secret = secret, sv_llm = None,
     sv_login = new_limiter 5 (5 * minute), sv_gen = new_limiter 20 minute,
     sv_touch = (\<lambda>_. None), sv_ctx = None, sv_rand = []\<rparr>"

abbreviation db_of_server :: "server \<Rightarrow> db" where
  "db_of_server sv \<equiv> w_db (sv_w sv)"

text \<open>A call of a store method, and one whose result is dropped.\<close>

definition scall :: "(db \<Rightarrow> 'r \<times> db) \<Rightarrow> server \<Rightarrow> 'r \<times> server" where
  "scall f sv = (case call f (sv_w sv) of (r, w) \<Rightarrow> (r, sv\<lparr>sv_w := w\<rparr>))"

definition srun :: "(db \<Rightarrow> 'r \<times> db) \<Rightarrow> server \<Rightarrow> server" where
  "srun f sv = snd (scall f sv)"

definition push_event :: "string \<Rightarrow> (string \<times> json) list \<Rightarrow> server \<Rightarrow> server" where
  "push_event status kvs sv = sv\<lparr>sv_w := push_task_event status kvs (sv_w sv)\<rparr>"

text \<open>\<open>_, _ = rand.Read(buf)\<close>: a failure leaves the zeros of the buffer.\<close>

definition read_rand :: "nat \<Rightarrow> server \<Rightarrow> nat list \<times> server" where
  "read_rand n sv =
     (case sv_rand sv of
        [] \<Rightarrow> (replicate n 0, sv)
      | bs # rest \<Rightarrow> (bs, sv\<lparr>sv_rand := rest\<rparr>))"

text \<open>An id made of a prefix and random bytes in hexadecimal.\<close>

definition fresh_id :: "string \<Rightarrow> server \<Rightarrow> string \<times> server" where
  "fresh_id pfx sv = (case read_rand 12 sv of (bs, sv1) \<Rightarrow> (pfx @ hex_of_bytes bs, sv1))"

subsection \<open>Bodies\<close>

text \<open>\<open>readBody\<close> with the decoder of the request type.\<close>

definition read_body :: "((string \<times> json) list \<Rightarrow> 'a option) \<Rightarrow> request \<Rightarrow> reply + 'a" where
  "read_body dec r =
     (case q_body r of
        TooLarge \<Rightarrow> Inl (write_err 413 ''request body too large'')
      | Malformed \<Rightarrow> Inl (write_err 400 ''invalid request body'')
      | Doc doc \<Rightarrow>
          (case as_obj dec doc of
             None \<Rightarrow> Inl (write_err 400 ''invalid request body'')
           | Some x \<Rightarrow> Inr x))"

text \<open>A whole number in the query within bounds, or the default.\<close>

definition q_int :: "string \<Rightarrow> int \<Rightarrow> (int \<Rightarrow> bool) \<Rightarrow> request \<Rightarrow> int" where
  "q_int k dflt ok r =
     (let v = q_get k r
      in if v = '''' then dflt
         else case atoi v of None \<Rightarrow> dflt | Some n \<Rightarrow> if ok n then n else dflt)"

subsection \<open>Who is asking\<close>

definition require_web :: "request \<Rightarrow> server \<Rightarrow> bool \<times> server" where
  "require_web r sv =
     (let sid = header ''X-Web-Session'' r
      in if sid = '''' then (False, sv)
         else case scall (get_web_session sid) sv of (res, sv1) \<Rightarrow> (\<not> isl res, sv1))"

definition touch_interval :: duration where
  "touch_interval = 60 * second"

definition touch_throttled :: "string \<Rightarrow> server \<Rightarrow> server" where
  "touch_throttled tid sv =
     (let at = now (sv_w sv)
      in case sv_touch sv tid of
           Some prev \<Rightarrow>
             if at - prev < touch_interval then sv
             else srun (touch_token tid) (sv\<lparr>sv_touch := (sv_touch sv)(tid \<mapsto> at)\<rparr>)
         | None \<Rightarrow> srun (touch_token tid) (sv\<lparr>sv_touch := (sv_touch sv)(tid \<mapsto> at)\<rparr>))"

definition require_token :: "crypto \<Rightarrow> request \<Rightarrow> server \<Rightarrow> token option \<times> server" where
  "require_token c r sv =
     (case sv_ctx sv of
        Some t \<Rightarrow> (Some t, sv)
      | None \<Rightarrow>
          (let authz = header ''Authorization'' r; raw = drop 7 authz
           in if \<not> has_prefix authz ''Bearer '' \<or> trim_space raw = '''' then (None, sv)
              else case scall (verify_token c raw) sv of
                (Inl _, sv1) \<Rightarrow> (None, sv1)
              | (Inr t, sv1) \<Rightarrow> (Some t, (touch_throttled (tok_id t) sv1)\<lparr>sv_ctx := Some t\<rparr>)))"

definition token_from_request :: "crypto \<Rightarrow> request \<Rightarrow> server \<Rightarrow> token option \<times> server" where
  "token_from_request c r sv =
     (case require_token c r sv of
        (Some t, sv1) \<Rightarrow> (Some t, sv1)
      | (None, sv1) \<Rightarrow>
          (let q = q_get ''token'' r
           in if q = '''' then (None, sv1)
              else case scall (verify_token c q) sv1 of
                (Inl _, sv2) \<Rightarrow> (None, sv2)
              | (Inr t, sv2) \<Rightarrow> (Some t, touch_throttled (tok_id t) sv2)))"

text \<open>The opening lines of the handlers, by who may pass and in which order they ask.\<close>

definition web_or_token :: "crypto \<Rightarrow> request \<Rightarrow> server \<Rightarrow> bool \<times> server" where
  "web_or_token c r sv =
     (case require_web r sv of
        (True, sv1) \<Rightarrow> (True, sv1)
      | (False, sv1) \<Rightarrow> (case require_token c r sv1 of (t, sv2) \<Rightarrow> (t \<noteq> None, sv2)))"

definition token_or_web :: "crypto \<Rightarrow> request \<Rightarrow> server \<Rightarrow> bool \<times> server" where
  "token_or_web c r sv =
     (case require_token c r sv of
        (Some _, sv1) \<Rightarrow> (True, sv1)
      | (None, sv1) \<Rightarrow> require_web r sv1)"

definition any_token_or_web :: "crypto \<Rightarrow> request \<Rightarrow> server \<Rightarrow> bool \<times> server" where
  "any_token_or_web c r sv =
     (case token_from_request c r sv of
        (Some _, sv1) \<Rightarrow> (True, sv1)
      | (None, sv1) \<Rightarrow> require_web r sv1)"

definition guarded :: "string \<Rightarrow> (server \<Rightarrow> bool \<times> server) \<Rightarrow> (server \<Rightarrow> reply \<times> server) \<Rightarrow> server \<Rightarrow> reply \<times> server" where
  "guarded msg gate h sv =
     (case gate sv of
        (False, sv1) \<Rightarrow> (write_err 401 msg, sv1)
      | (True, sv1) \<Rightarrow> h sv1)"

abbreviation web_or_token_msg :: string where
  "web_or_token_msg \<equiv> ''web session or APP token required''"

abbreviation not_allowed :: reply where
  "not_allowed \<equiv> write_err 405 ''method not allowed''"

subsection \<open>The middleware\<close>

definition audited :: "request \<Rightarrow> bool" where
  "audited r \<longleftrightarrow> has_prefix (q_path r) ''/api/'' \<and> \<not> has_prefix (q_path r) ''/api/stt''"

definition audit_row :: "token \<Rightarrow> request \<Rightarrow> int \<Rightarrow> audit_entry" where
  "audit_row t r status = \<lparr>a_id = 0, a_token = tok_id t, a_token_name = tok_name t,
     a_method = q_method r, a_path = q_path r, a_status = status, a_created = 0\<rparr>"

definition log_middleware :: "crypto \<Rightarrow> request \<Rightarrow> (server \<Rightarrow> reply \<times> server) \<Rightarrow> server \<Rightarrow> reply \<times> server" where
  "log_middleware c r next_h sv =
     (case next_h (sv\<lparr>sv_ctx := None\<rparr>) of
        (rp, sv1) \<Rightarrow>
          if \<not> audited r then (rp, sv1)
          else (case token_from_request c r sv1 of
                  (None, sv2) \<Rightarrow> (rp, sv2)
                | (Some t, sv2) \<Rightarrow> (rp, srun (record_audit (audit_row t r (rp_status rp))) sv2)))"

subsection \<open>Requests without credentials\<close>

definition live_session :: "string \<Rightarrow> db \<Rightarrow> bool" where
  "live_session sid s \<longleftrightarrow> sid \<noteq> '''' \<and>
     (\<exists>ws. lookup_by ws_id sid (db_sessions s) = Some ws \<and> db_clock s \<le> ws_expires ws)"

definition live_token :: "crypto \<Rightarrow> string \<Rightarrow> db \<Rightarrow> bool" where
  "live_token c raw s \<longleftrightarrow> trim_space raw \<noteq> '''' \<and>
     (\<exists>t \<in> set (db_tokens s). tok_hash t = cr_sha c raw \<and> tok_revoked t = None)"

definition bearer :: "request \<Rightarrow> string" where
  "bearer r = (if has_prefix (header ''Authorization'' r) ''Bearer '' then drop 7 (header ''Authorization'' r) else '''')"

text \<open>No web session in the header or the query and no API token in either that is live.\<close>

definition anonymous :: "crypto \<Rightarrow> request \<Rightarrow> db \<Rightarrow> bool" where
  "anonymous c r s \<longleftrightarrow> \<not> live_session (header ''X-Web-Session'' r) s \<and> \<not> live_session (q_get ''session'' r) s \<and>
     \<not> live_token c (bearer r) s \<and> \<not> live_token c (q_get ''token'' r) s"

text \<open>The server after nothing happened but some statements that may have failed.\<close>

definition faulted :: "bool list \<Rightarrow> server \<Rightarrow> server" where
  "faulted fs sv = sv\<lparr>sv_w := (sv_w sv)\<lparr>w_db := (w_db (sv_w sv))\<lparr>db_faults := fs\<rparr>\<rparr>\<rparr>"

definition inert :: "server \<Rightarrow> server \<Rightarrow> bool" where
  "inert sv sv' \<longleftrightarrow> (\<exists>fs. sv' = faulted fs sv)"

text \<open>Nothing else runs, and no token is cached.\<close>

definition fresh_request :: "server \<Rightarrow> bool" where
  "fresh_request sv \<longleftrightarrow> w_sched (sv_w sv) = [] \<and> sv_ctx sv = None"

lemma faulted_faulted [simp]: "faulted fs (faulted fs' sv) = faulted fs sv"
  by (simp add: faulted_def)

lemma faulted_same: "faulted (db_faults (db_of_server sv)) sv = sv"
  by (simp add: faulted_def)

lemma inert_refl [simp, intro]: "inert sv sv"
  unfolding inert_def by (metis faulted_same)

lemma inert_trans: "inert sv sv1 \<Longrightarrow> inert sv1 sv2 \<Longrightarrow> inert sv sv2"
  by (auto simp: inert_def)

lemma inert_fresh: "inert sv sv' \<Longrightarrow> fresh_request sv \<Longrightarrow> fresh_request sv'"
  by (auto simp: inert_def faulted_def fresh_request_def)

lemma anonymous_faults [simp]: "anonymous c r (s\<lparr>db_faults := fs\<rparr>) = anonymous c r s"
  by (simp add: anonymous_def live_session_def live_token_def)

lemma inert_anonymous: "inert sv sv' \<Longrightarrow> anonymous c r (db_of_server sv') = anonymous c r (db_of_server sv)"
  by (auto simp: inert_def faulted_def)

text \<open>A statement that refuses and writes nothing, whatever the faults.\<close>

lemma scall_refused:
  assumes "w_sched (sv_w sv) = []"
    and "\<And>fs. \<exists>e. f ((db_of_server sv)\<lparr>db_faults := fs\<rparr>) = (Inl e, (db_of_server sv)\<lparr>db_faults := fs\<rparr>)"
    and "scall (db_call f) sv = (res, sv1)"
  shows "isl res \<and> inert sv sv1"
proof -
  let ?s = "db_of_server sv"
  have "\<exists>e fs. db_call f ?s = (Inl e, ?s\<lparr>db_faults := fs\<rparr>)"
  proof (cases "db_faults ?s")
    case Nil
    then have "?s\<lparr>db_faults := []\<rparr> = ?s" by simp
    with assms(2)[of "[]"] Nil show ?thesis by (metis db_call_ok)
  next
    case (Cons b fs)
    with assms(2)[of fs] show ?thesis by (cases b) (auto simp: db_call_def)
  qed
  then show ?thesis
    using assms(1,3) by (auto simp: scall_def call_def others_def inert_def faulted_def)
qed

lemma dead_session:
  assumes "w_sched (sv_w sv) = []" and "\<not> live_session sid (db_of_server sv)" and "sid \<noteq> ''''"
    and "scall (get_web_session sid) sv = (res, sv1)"
  shows "isl res \<and> inert sv sv1"
  using assms(1) _ assms(4)[unfolded get_web_session_def]
  by (rule scall_refused) (use assms(2,3) in \<open>auto simp: live_session_def not_less split: option.split\<close>)

lemma dead_token:
  assumes "w_sched (sv_w sv) = []" and "\<not> live_token c raw (db_of_server sv)"
    and "scall (verify_token c raw) sv = (res, sv1)"
  shows "isl res \<and> inert sv sv1"
proof (cases "trim_space raw = ''''")
  case True
  then show ?thesis
    using assms(1,3) by (auto simp: verify_token_def scall_def call_def others_def)
next
  case False
  then have "scall (db_call (\<lambda>s. (case find (\<lambda>t. tok_hash t = cr_sha c raw \<and> tok_revoked t = None) (db_tokens s) of
      None \<Rightarrow> Inl ErrNotFound | Some t \<Rightarrow> Inr t, s))) sv = (res, sv1)"
    using assms(3) by (simp add: verify_token_def get_token_by_hash_def scall_def call_def)
  with assms(1) _ show ?thesis
    by (rule scall_refused)
      (use assms(2) False in \<open>auto simp: live_token_def find_None_iff find_Some_iff split: option.split\<close>)
qed

lemma require_web_refuses:
  assumes "fresh_request sv" and "anonymous c r (db_of_server sv)"
  obtains sv1 where "require_web r sv = (False, sv1)" "inert sv sv1"
proof (cases "header ''X-Web-Session'' r = ''''")
  case True
  then show thesis using that[of sv] by (simp add: require_web_def)
next
  case False
  obtain res sv1 where "scall (get_web_session (header ''X-Web-Session'' r)) sv = (res, sv1)" by fastforce
  with dead_session[OF _ _ False this] assms False that show thesis
    by (auto simp: require_web_def fresh_request_def anonymous_def)
qed

lemma require_token_refuses:
  assumes "fresh_request sv" and "anonymous c r (db_of_server sv)"
  obtains sv1 where "require_token c r sv = (None, sv1)" "inert sv sv1"
proof (cases "has_prefix (header ''Authorization'' r) ''Bearer '' \<and> trim_space (bearer r) \<noteq> ''''")
  case False
  then show thesis
    using that[of sv] assms(1) by (auto simp: require_token_def fresh_request_def bearer_def)
next
  case True
  obtain res sv1 where "scall (verify_token c (bearer r)) sv = (res, sv1)" by fastforce
  with dead_token[OF _ _ this] assms True that show thesis
    by (cases res) (auto simp: require_token_def fresh_request_def anonymous_def bearer_def)
qed

lemma token_from_request_refuses:
  assumes "fresh_request sv" and "anonymous c r (db_of_server sv)"
  obtains sv1 where "token_from_request c r sv = (None, sv1)" "inert sv sv1"
proof -
  obtain sv1 where 1: "require_token c r sv = (None, sv1)" "inert sv sv1"
    using require_token_refuses[OF assms] .
  obtain res sv2 where 2: "scall (verify_token c (q_get ''token'' r)) sv1 = (res, sv2)" by fastforce
  have "w_sched (sv_w sv1) = []" "\<not> live_token c (q_get ''token'' r) (db_of_server sv1)"
    using inert_fresh[OF 1(2) assms(1)] inert_anonymous[OF 1(2), of c r] assms(2)
    by (auto simp: fresh_request_def anonymous_def)
  with dead_token[OF _ _ 2] have "isl res" "inert sv1 sv2" by auto
  then show thesis
    using that 1 2 inert_trans[OF 1(2)]
    by (cases "q_get ''token'' r = ''''") (auto simp: token_from_request_def isl_def)
qed

text \<open>The four gates of the handlers refuse such a request and change nothing.\<close>

definition refuses :: "server \<Rightarrow> bool \<times> server \<Rightarrow> bool" where
  "refuses sv x \<longleftrightarrow> \<not> fst x \<and> inert sv (snd x)"

lemma gates_refuse:
  assumes "fresh_request sv" and "anonymous c r (db_of_server sv)"
  shows "refuses sv (require_web r sv)" and "refuses sv (web_or_token c r sv)"
    and "refuses sv (token_or_web c r sv)" and "refuses sv (any_token_or_web c r sv)"
proof -
  obtain w where w: "require_web r sv = (False, w)" "inert sv w"
    using require_web_refuses[OF assms] .
  have w': "fresh_request w" "anonymous c r (db_of_server w)"
    using inert_fresh[OF w(2)] inert_anonymous[OF w(2)] assms by auto
  obtain wt where wt: "require_token c r w = (None, wt)" "inert w wt"
    using require_token_refuses[OF w'] .
  obtain t where t: "require_token c r sv = (None, t)" "inert sv t"
    using require_token_refuses[OF assms] .
  have t': "fresh_request t" "anonymous c r (db_of_server t)"
    using inert_fresh[OF t(2)] inert_anonymous[OF t(2)] assms by auto
  obtain tw where tw: "require_web r t = (False, tw)" "inert t tw"
    using require_web_refuses[OF t'] .
  obtain q where q: "token_from_request c r sv = (None, q)" "inert sv q"
    using token_from_request_refuses[OF assms] .
  have q': "fresh_request q" "anonymous c r (db_of_server q)"
    using inert_fresh[OF q(2)] inert_anonymous[OF q(2)] assms by auto
  obtain qw where qw: "require_web r q = (False, qw)" "inert q qw"
    using require_web_refuses[OF q'] .
  show "refuses sv (require_web r sv)" using w by (simp add: refuses_def)
  show "refuses sv (web_or_token c r sv)"
    using w wt inert_trans by (auto simp: refuses_def web_or_token_def)
  show "refuses sv (token_or_web c r sv)"
    using t tw inert_trans by (auto simp: refuses_def token_or_web_def)
  show "refuses sv (any_token_or_web c r sv)"
    using q qw inert_trans by (auto simp: refuses_def any_token_or_web_def)
qed

text \<open>What a handler does with a request it refuses.\<close>

definition turned_away :: "server \<Rightarrow> reply \<times> server \<Rightarrow> bool" where
  "turned_away sv x \<longleftrightarrow> rp_status (fst x) \<in> {401, 405} \<and> inert sv (snd x)"

lemma guarded_turned_away: "refuses sv (gate sv) \<Longrightarrow> turned_away sv (guarded msg gate h sv)"
  by (auto simp: refuses_def turned_away_def guarded_def split: prod.split bool.split)

lemma not_allowed_turned_away [simp, intro]: "turned_away sv (not_allowed, sv)"
  by (simp add: turned_away_def)

end
