(* ===== verification/GoTime.thy ===== *)
theory GoTime
  imports Cron
begin

text \<open>
  \<open>time.Parse(time.RFC3339, s)\<close>, and the same with \<open>time.RFC3339Nano\<close>, which reads the same
  texts: Go accepts a fraction of the second whether or not the layout has one, after a point or a
  comma, and an hour of one digit. The value is a number of nanoseconds since the epoch. At the end, the
  text a time has in JSON.
\<close>

text \<open>A number of exactly \<open>n\<close> digits at the start.\<close>

definition fixed_num :: "nat \<Rightarrow> string \<Rightarrow> (int \<times> string) option" where
  "fixed_num n s =
     (if length (take n s) < n then None
      else case digits_val 0 (take n s) of None \<Rightarrow> None | Some v \<Rightarrow> Some (v, drop n s))"

definition loose_num :: "string \<Rightarrow> (int \<times> string) option" where
  "loose_num s = (case fixed_num 2 s of Some x \<Rightarrow> Some x | None \<Rightarrow> fixed_num 1 s)"

definition expect :: "char \<Rightarrow> string \<Rightarrow> string option" where
  "expect c s = (case s of [] \<Rightarrow> None | x # r \<Rightarrow> if x = c then Some r else None)"

definition leap_year :: "int \<Rightarrow> bool" where
  "leap_year y \<longleftrightarrow> y mod 4 = 0 \<and> (y mod 100 \<noteq> 0 \<or> y mod 400 = 0)"

definition days_in :: "int \<Rightarrow> int \<Rightarrow> int" where
  "days_in y m = (if m = 2 then (if leap_year y then 29 else 28)
     else if m \<in> {4, 6, 9, 11} then 30 else 31)"

definition fraction_nanos :: "string \<Rightarrow> int \<times> string" where
  "fraction_nanos s =
     (case s of
        c # d # r \<Rightarrow>
          if (c = CHR ''.'' \<or> c = CHR '','') \<and> digit_val d \<noteq> None
          then (let ds = takeWhile (\<lambda>x. digit_val x \<noteq> None) (d # r); nine = take 9 ds
                in (the (digits_val 0 (nine @ replicate (9 - length nine) (CHR ''0''))), drop (length ds) (d # r)))
          else (0, s)
      | _ \<Rightarrow> (0, s))"

text \<open>The offset from UTC in seconds.\<close>

definition zone_offset :: "string \<Rightarrow> (int \<times> string) option" where
  "zone_offset s =
     (case s of
        [] \<Rightarrow> None
      | c # r \<Rightarrow>
          if c = CHR ''Z'' then Some (0, r)
          else if c \<noteq> CHR ''+'' \<and> c \<noteq> CHR ''-'' then None
          else (case fixed_num 2 r of
                  None \<Rightarrow> None
                | Some (h, r1) \<Rightarrow>
                    (case expect (CHR '':'') r1 of
                       None \<Rightarrow> None
                     | Some r2 \<Rightarrow>
                         (case fixed_num 2 r2 of
                            None \<Rightarrow> None
                          | Some (m, r3) \<Rightarrow>
                              if 24 < h \<or> 60 < m then None
                              else Some ((if c = CHR ''-'' then - 1 else 1) * ((h * 60 + m) * 60), r3)))))"

definition parse_date :: "string \<Rightarrow> ((int \<times> int \<times> int) \<times> string) option" where
  "parse_date s =
     Option.bind (fixed_num 4 s) (\<lambda>(y, s1). Option.bind (expect (CHR ''-'') s1) (\<lambda>s2.
     Option.bind (fixed_num 2 s2) (\<lambda>(m, s3). Option.bind (expect (CHR ''-'') s3) (\<lambda>s4.
     Option.bind (fixed_num 2 s4) (\<lambda>(d, s5).
       if 1 \<le> m \<and> m \<le> 12 \<and> 1 \<le> d \<and> d \<le> days_in y m then Some ((y, m, d), s5) else None)))))"

definition parse_clock :: "string \<Rightarrow> ((int \<times> int \<times> int) \<times> string) option" where
  "parse_clock s =
     Option.bind (loose_num s) (\<lambda>(h, s1). Option.bind (expect (CHR '':'') s1) (\<lambda>s2.
     Option.bind (fixed_num 2 s2) (\<lambda>(m, s3). Option.bind (expect (CHR '':'') s3) (\<lambda>s4.
     Option.bind (fixed_num 2 s4) (\<lambda>(sec, s5).
       if h < 24 \<and> m < 60 \<and> sec < 60 then Some ((h, m, sec), s5) else None)))))"

definition parse_rfc3339 :: "string \<Rightarrow> time option" where
  "parse_rfc3339 s =
     Option.bind (parse_date s) (\<lambda>((y, mo, d), s1). Option.bind (expect (CHR ''T'') s1) (\<lambda>s2.
     Option.bind (parse_clock s2) (\<lambda>((h, mi, sec), s3).
       (case fraction_nanos s3 of (nanos, s4) \<Rightarrow>
          Option.bind (zone_offset s4) (\<lambda>(off, s5).
            if s5 \<noteq> [] then None
            else Some ((days_of_civil y mo d * 86400 + h * 3600 + mi * 60 + sec - off) * second + nanos))))))"

text \<open>The zero \<open>time.Time\<close>, January 1 of year 1.\<close>

definition zero_time :: time where
  "zero_time = - 62135596800 * second"

text \<open>
  \<open>Time.MarshalJSON\<close> in a location \<open>off\<close> seconds east of UTC, without its quotes: RFC 3339 with the
  nanoseconds that are not trailing zeros. A year of more than four digits, or before the year 0, is an
  error, as is an offset of a day or more.
\<close>

definition digit_char :: "int \<Rightarrow> char" where
  "digit_char n = char_of (48 + n)"

fun fixed_digits :: "nat \<Rightarrow> int \<Rightarrow> string" where
  "fixed_digits 0 v = []"
| "fixed_digits (Suc n) v = fixed_digits n (v div 10) @ [digit_char (v mod 10)]"

definition fraction_text :: "int \<Rightarrow> string" where
  "fraction_text ns =
     (let ds = rev (dropWhile (\<lambda>c. c = CHR ''0'') (rev (fixed_digits 9 ns)))
      in if ds = [] then [] else CHR ''.'' # ds)"

definition zone_text :: "int \<Rightarrow> string" where
  "zone_text off =
     (if off = 0 then ''Z''
      else let z = \<bar>off\<bar> div 60
           in (if off \<le> - 60 then CHR ''-'' else CHR ''+'') # fixed_digits 2 (z div 60) @ CHR '':'' # fixed_digits 2 (z mod 60))"

definition rfc3339_text :: "int \<Rightarrow> time \<Rightarrow> string option" where
  "rfc3339_text off t =
     (let s = unix_seconds off t; sod = s mod 86400
      in case civil_of_days (s div 86400) of (y, m, d) \<Rightarrow>
           if y < 0 \<or> 9999 < y \<or> 86400 \<le> \<bar>off\<bar> then None
           else Some (fixed_digits 4 y @ CHR ''-'' # fixed_digits 2 m @ CHR ''-'' # fixed_digits 2 d @
             CHR ''T'' # fixed_digits 2 (sod div 3600) @ CHR '':'' # fixed_digits 2 (sod div 60 mod 60) @
             CHR '':'' # fixed_digits 2 (sod mod 60) @ fraction_text (t mod second) @ zone_text off))"

lemma parse_rfc3339_demo:
  "parse_rfc3339 ''1970-01-02T00:00:01.5Z'' = Some (86401 * second + 500000000)"
  "parse_rfc3339 ''2024-03-01T00:00:00+08:00'' = Some (1709222400 * second)"
  "parse_rfc3339 ''2023-02-29T00:00:00Z'' = None"
  by code_simp+

lemma rfc3339_text_demo:
  "rfc3339_text 0 (86401 * second + 500000000) = Some ''1970-01-02T00:00:01.5Z''"
  "rfc3339_text (8 * 3600) (1709222400 * second) = Some ''2024-03-01T00:00:00+08:00''"
  "rfc3339_text 0 (- 62135596800 * second) = Some ''0001-01-01T00:00:00Z''"
  "rfc3339_text 0 (253402300800 * second) = None"
  by code_simp+

end
