(* ===== verification/TaskApi.thy ===== *)
theory TaskApi
  imports Web GoTime "HOL-Library.Monad_Syntax"
begin

text \<open>
  The task endpoints of \<open>internal/server/tasks.go\<close> and \<open>batch.go\<close>: listing, creation with
  scheduling and dependencies, cancellation, manual unblocking, the purge of finished tasks, and
  batches. Each handler is one definition, with its checks and replies in the order of the code.
\<close>

subsection \<open>Reading requests\<close>

record task_req =
  tq_name :: string
  tq_prompt :: string
  tq_session :: string
  tq_dir :: string
  tq_depends :: string
  tq_scheduled :: string
  tq_cron :: string

definition task_req_of :: "(string \<times> json) list \<Rightarrow> task_req option" where
  "task_req_of kvs = do {
     n \<leftarrow> str_field ''name'' kvs;
     p \<leftarrow> str_field ''prompt'' kvs;
     s \<leftarrow> str_field ''sessionId'' kvs;
     d \<leftarrow> str_field ''directory'' kvs;
     dep \<leftarrow> str_field ''dependsOn'' kvs;
     at \<leftarrow> str_field ''scheduledAt'' kvs;
     c \<leftarrow> str_field ''cron'' kvs;
     Some \<lparr>tq_name = n, tq_prompt = p, tq_session = s, tq_dir = d, tq_depends = dep,
       tq_scheduled = at, tq_cron = c\<rparr>}"

fun field_error_text :: "field_error \<Rightarrow> string" where
  "field_error_text EmptyField = ''empty field''"
| "field_error_text (BadStep p) = ''bad step '' @ [CHR 0x22] @ p @ [CHR 0x22]"
| "field_error_text (BadValue p a b) = ''bad value '' @ [CHR 0x22] @ p @ [CHR 0x22] @ '' (want '' @
     int_str a @ ''-'' @ int_str b @ '')''"

fun cron_error_text :: "cron_error \<Rightarrow> string" where
  "cron_error_text (FieldCount n) = ''cron: expected 6 fields, got '' @ nat_digits n"
| "cron_error_text (FieldError l e) = ''cron '' @ l @ '': '' @ field_error_text e"
| "cron_error_text NoNextTime = ''cron: no next time within horizon''"

subsection \<open>Listing and purging\<close>

definition list_tasks_page :: "request \<Rightarrow> server \<Rightarrow> reply \<times> server" where
  "list_tasks_page r sv =
     (let status = q_get ''status'' r;
          limit = q_int ''limit'' 50 (\<lambda>n. 0 < n \<and> n \<le> 500) r;
          offset = q_int ''offset'' 0 (\<lambda>n. 0 \<le> n) r
      in case scall (list_tasks status limit offset) sv of
           (Inl _, sv1) \<Rightarrow> (write_err 500 ''list tasks failed'', sv1)
         | (Inr ts, sv1) \<Rightarrow>
             (case scall (count_tasks status) sv1 of
                (Inl _, sv2) \<Rightarrow> (write_err 500 ''count tasks failed'', sv2)
              | (Inr n, sv2) \<Rightarrow> (reply 200 (PTasks ts n limit offset), sv2)))"

definition purge_finished_page :: "request \<Rightarrow> server \<Rightarrow> reply \<times> server" where
  "purge_finished_page r sv =
     (let older = wrap64 (q_int ''olderThan'' 0 (\<lambda>n. 0 \<le> n) r * second)
      in case scall (purge_finished_tasks older 0) sv of
           (Inl _, sv1) \<Rightarrow> (write_err 500 ''purge finished tasks failed'', sv1)
         | (Inr (deleted, kept), sv1) \<Rightarrow>
             (write_json 200 [(''deleted'', JNum (int_str deleted)), (''kept'', JNum (int_str kept))], sv1))"

subsection \<open>Creation\<close>

definition task_of_req :: "task_req \<Rightarrow> string \<Rightarrow> time option \<Rightarrow> task" where
  "task_of_req q tid at = \<lparr>t_id = tid, t_session = tq_session q, t_dir = tq_dir q, t_name = tq_name q,
     t_prompt = tq_prompt q, t_depends = tq_depends q, t_status = TaskQueued, t_error = '''',
     t_result = '''', t_progress = '''', t_summary = '''', t_attempts = 0, t_created = 0, t_updated = 0,
     t_started = None, t_finished = None, t_available = 0, t_scheduled = at, t_cron = tq_cron q,
     t_last_fired = None\<rparr>"

text \<open>The status of a new task: time comes before dependency.\<close>

definition upstream_status :: "task_status \<Rightarrow> reply + task_status" where
  "upstream_status st =
     (case st of
        TaskSucceeded \<Rightarrow> Inr TaskQueued
      | TaskQueued \<Rightarrow> Inr TaskPending
      | TaskRunning \<Rightarrow> Inr TaskPending
      | TaskPending \<Rightarrow> Inr TaskPending
      | TaskScheduled \<Rightarrow> Inr TaskPending
      | TaskFailed \<Rightarrow> Inl (write_err 400 (''dependsOn task already finished with status '' @ status_str st))
      | TaskCanceled \<Rightarrow> Inl (write_err 400 (''dependsOn task already finished with status '' @ status_str st))
      | TaskBlocked \<Rightarrow> Inl (write_err 400 (''dependsOn task already finished with status '' @ status_str st)))"

definition initial_status :: "task_req \<Rightarrow> time option \<Rightarrow> server \<Rightarrow> (reply + task_status) \<times> server" where
  "initial_status q at sv =
     (if tq_cron q \<noteq> '''' then (Inr TaskScheduled, sv)
      else if (case at of None \<Rightarrow> False | Some t \<Rightarrow> now (sv_w sv) < t) then (Inr TaskScheduled, sv)
      else if tq_depends q = '''' then (Inr TaskQueued, sv)
      else (case scall (get_task (tq_depends q)) sv of
              (Inl _, sv1) \<Rightarrow> (Inl (write_err 400 ''dependsOn task not found''), sv1)
            | (Inr up, sv1) \<Rightarrow> (upstream_status (t_status up), sv1)))"

definition scheduled_at :: "task_req \<Rightarrow> reply + time option" where
  "scheduled_at q =
     (if tq_scheduled q = '''' then Inr None
      else case parse_rfc3339 (tq_scheduled q) of
        None \<Rightarrow> Inl (write_err 400 ''scheduledAt must be RFC3339'')
      | Some t \<Rightarrow> Inr (Some t))"

text \<open>The task is stored, announced when it is scheduled, and read back for the reply.\<close>

definition store_new_task :: "task \<Rightarrow> task_status \<Rightarrow> server \<Rightarrow> reply \<times> server" where
  "store_new_task t st sv =
     (case scall (create_task_with_status t st) sv of
        (Inl _, sv1) \<Rightarrow> (write_err 500 ''create task failed'', sv1)
      | (Inr _, sv1) \<Rightarrow>
          (let sv2 = (if st = TaskScheduled
                      then push_event (status_str TaskScheduled)
                        [(''id'', JStr (t_id t)), (''status'', JStr (status_str TaskScheduled))] sv1
                      else sv1)
           in case scall (get_task (t_id t)) sv2 of
                (Inl _, sv3) \<Rightarrow> (write_err 500 ''create task failed'', sv3)
              | (Inr row, sv3) \<Rightarrow> (reply 201 (PTask row), sv3)))"

definition create_task_page :: "int \<Rightarrow> request \<Rightarrow> server \<Rightarrow> reply \<times> server" where
  "create_task_page off r sv =
     (case read_body task_req_of r of
        Inl rp \<Rightarrow> (rp, sv)
      | Inr q \<Rightarrow>
          if tq_prompt q = '''' then (write_err 400 ''prompt is required'', sv)
          else (case scheduled_at q of
            Inl rp \<Rightarrow> (rp, sv)
          | Inr at \<Rightarrow>
              (case (if tq_cron q = '''' then Inr [] else parse_cron off (now (sv_w sv)) (tq_cron q)) of
                 Inl e \<Rightarrow> (write_err 400 (''invalid cron: '' @ cron_error_text e), sv)
               | Inr _ \<Rightarrow>
                   (case fresh_id ''task_'' sv of (tid, sv1) \<Rightarrow>
                     (case initial_status q at sv1 of
                        (Inl rp, sv2) \<Rightarrow> (rp, sv2)
                      | (Inr st, sv2) \<Rightarrow> store_new_task (task_of_req q tid at) st sv2)))))"

definition handle_tasks :: "crypto \<Rightarrow> int \<Rightarrow> request \<Rightarrow> server \<Rightarrow> reply \<times> server" where
  "handle_tasks c off r = guarded web_or_token_msg (web_or_token c r) (\<lambda>sv.
     if q_method r = ''GET'' then list_tasks_page r sv
     else if q_method r = ''POST'' then create_task_page off r sv
     else if q_method r = ''DELETE'' then purge_finished_page r sv
     else (not_allowed, sv))"

subsection \<open>One task\<close>

fun push_blocked :: "string \<Rightarrow> string \<Rightarrow> string list \<Rightarrow> server \<Rightarrow> server" where
  "push_blocked up reason [] sv = sv"
| "push_blocked up reason (d # ds) sv =
     push_blocked up reason ds (push_event (status_str TaskBlocked)
       [(''id'', JStr d), (''status'', JStr (status_str TaskBlocked)), (''upstream'', JStr up),
        (''reason'', JStr reason)] sv)"

definition block_dependents_of :: "string \<Rightarrow> string \<Rightarrow> server \<Rightarrow> nat \<times> server" where
  "block_dependents_of up reason sv =
     (case scall (block_dependents up reason) sv of
        (Inl _, sv1) \<Rightarrow> (0, sv1)
      | (Inr ids, sv1) \<Rightarrow> (length ids, push_blocked up reason ids sv1))"

definition cancel_task_page :: "string \<Rightarrow> server \<Rightarrow> reply \<times> server" where
  "cancel_task_page tid sv =
     (case scall (cancel_task tid) sv of
        (Inl _, sv1) \<Rightarrow> (write_err 500 ''cancel failed'', sv1)
      | (Inr False, sv1) \<Rightarrow>
          (case scall (cancel_scheduled_task tid) sv1 of
             (Inl _, sv2) \<Rightarrow> (write_err 500 ''cancel failed'', sv2)
           | (Inr False, sv2) \<Rightarrow> (write_err 409 ''task already finished'', sv2)
           | (Inr True, sv2) \<Rightarrow> (ok_reply, push_event (status_str TaskCanceled)
               [(''id'', JStr tid), (''status'', JStr (status_str TaskCanceled))] sv2))
      | (Inr True, sv1) \<Rightarrow>
          (case block_dependents_of tid ''upstream task canceled'' sv1 of
             (n, sv2) \<Rightarrow>
               (if 0 < n then write_json 200 [(''ok'', JBool True), (''blocked'', JNum (nat_digits n))]
                else ok_reply, sv2)))"

definition unblock_task_page :: "string \<Rightarrow> server \<Rightarrow> reply \<times> server" where
  "unblock_task_page tid sv =
     (case scall (unblock_task tid) sv of
        (Inl _, sv1) \<Rightarrow> (write_err 500 ''unblock failed'', sv1)
      | (Inr False, sv1) \<Rightarrow> (write_err 409 ''task is not blocked'', sv1)
      | (Inr True, sv1) \<Rightarrow> (ok_reply, push_event (status_str TaskQueued)
          [(''id'', JStr tid), (''status'', JStr (status_str TaskQueued)), (''reason'', JStr ''manual unblock'')] sv1))"

definition get_task_page :: "string \<Rightarrow> server \<Rightarrow> reply \<times> server" where
  "get_task_page tid sv =
     (case scall (get_task tid) sv of
        (Inl _, sv1) \<Rightarrow> (write_err 404 ''task not found'', sv1)
      | (Inr t, sv1) \<Rightarrow> (reply 200 (PTask t), sv1))"

definition token_gate :: "crypto \<Rightarrow> request \<Rightarrow> server \<Rightarrow> bool \<times> server" where
  "token_gate c r sv = (case require_token c r sv of (t, sv1) \<Rightarrow> (t \<noteq> None, sv1))"

definition handle_task_by_id :: "crypto \<Rightarrow> request \<Rightarrow> server \<Rightarrow> reply \<times> server" where
  "handle_task_by_id c r = guarded ''invalid token'' (token_gate c r) (\<lambda>sv.
     let tid = drop (length ''/api/tasks/'') (q_path r)
     in if tid = '''' then (write_err 400 ''missing task id'', sv)
        else if q_method r = ''GET'' then get_task_page tid sv
        else if q_method r = ''DELETE'' then cancel_task_page tid sv
        else if q_method r = ''POST'' then unblock_task_page tid sv
        else (not_allowed, sv))"

subsection \<open>Batches\<close>

definition batch_target :: "(string \<times> json) list \<Rightarrow> (string \<times> string) option" where
  "batch_target kvs = do {
     d \<leftarrow> str_field ''directory'' kvs;
     s \<leftarrow> str_field ''sessionId'' kvs;
     Some (d, s)}"

definition batch_req :: "(string \<times> json) list \<Rightarrow> (string \<times> (string \<times> string) list) option" where
  "batch_req kvs = do {
     p \<leftarrow> str_field ''prompt'' kvs;
     ts \<leftarrow> list_field (as_obj batch_target) ''targets'' kvs;
     Some (p, ts)}"

definition max_batch_targets :: nat where
  "max_batch_targets = 100"

definition batch_task :: "string \<Rightarrow> string \<times> string \<Rightarrow> string \<Rightarrow> task" where
  "batch_task p tg tid = task_of_req \<lparr>tq_name = '''', tq_prompt = p, tq_session = snd tg, tq_dir = fst tg,
     tq_depends = '''', tq_scheduled = '''', tq_cron = ''''\<rparr> tid None"

fun create_batch :: "string \<Rightarrow> (string \<times> string) list \<Rightarrow> string list \<Rightarrow> server \<Rightarrow> string list option \<times> server" where
  "create_batch p [] acc sv = (Some acc, sv)"
| "create_batch p (tg # tgs) acc sv =
     (case fresh_id ''task_'' sv of (tid, sv1) \<Rightarrow>
       (case scall (create_task (batch_task p tg tid)) sv1 of
          (Inl _, sv2) \<Rightarrow> (None, sv2)
        | (Inr _, sv2) \<Rightarrow> create_batch p tgs (acc @ [tid]) sv2))"

definition batch_page :: "request \<Rightarrow> server \<Rightarrow> reply \<times> server" where
  "batch_page r sv =
     (case read_body batch_req r of
        Inl rp \<Rightarrow> (rp, sv)
      | Inr (p, tgs) \<Rightarrow>
          if p = '''' then (write_err 400 ''prompt is required'', sv)
          else if tgs = [] then (write_err 400 ''targets must not be empty'', sv)
          else if max_batch_targets < length tgs then (write_err 400 ''too many targets, max 100 per batch'', sv)
          else (case create_batch p tgs [] sv of
                  (None, sv1) \<Rightarrow> (write_err 500 ''create task failed'', sv1)
                | (Some ids, sv1) \<Rightarrow>
                    (write_json 201 [(''created'', JArr (map JStr ids)), (''count'', JNum (nat_digits (length ids)))],
                     sv1)))"

definition handle_batch :: "crypto \<Rightarrow> request \<Rightarrow> server \<Rightarrow> reply \<times> server" where
  "handle_batch c r sv =
     (if q_method r \<noteq> ''POST'' then (not_allowed, sv)
      else guarded ''invalid token'' (token_gate c r) (batch_page r) sv)"

end
