(* ===== verification/Scheduler.thy ===== *)
theory Scheduler
  imports TaskApi
begin

text \<open>
  The task scheduler of \<open>internal/server/scheduler.go\<close>: it promotes scheduled tasks whose time has
  come and clones recurring templates. \<open>off\<close> is the offset of the location of the stored times.
\<close>

definition scheduler_interval :: duration where
  "scheduler_interval = 15 * second"

definition clone_of :: "task \<Rightarrow> string \<Rightarrow> task" where
  "clone_of t tid = task_of_req \<lparr>tq_name = t_name t, tq_prompt = t_prompt t, tq_session = t_session t,
     tq_dir = t_dir t, tq_depends = '''', tq_scheduled = '''', tq_cron = ''''\<rparr> tid None"

definition fire_base :: "task \<Rightarrow> time" where
  "fire_base t = (case t_last_fired t of None \<Rightarrow> t_created t | Some f \<Rightarrow> f)"

definition push_queued :: "string \<Rightarrow> server \<Rightarrow> server" where
  "push_queued tid = push_event (status_str TaskQueued)
     [(''id'', JStr tid), (''status'', JStr (status_str TaskQueued))]"

text \<open>The template's turn has come: claim the occurrence, clone, or put the cursor back.\<close>

definition clone_recurring :: "task \<Rightarrow> time \<Rightarrow> server \<Rightarrow> server" where
  "clone_recurring t at sv =
     (case scall (claim_recurring_fire (t_id t) (t_last_fired t) at) sv of
        (Inl _, sv1) \<Rightarrow> sv1
      | (Inr False, sv1) \<Rightarrow> sv1
      | (Inr True, sv1) \<Rightarrow>
          (case fresh_id ''task_'' sv1 of (tid, sv2) \<Rightarrow>
            (case scall (create_task (clone_of t tid)) sv2 of
               (Inl _, sv3) \<Rightarrow> srun (set_task_last_fired_at_ptr (t_id t) (t_last_fired t)) sv3
             | (Inr _, sv3) \<Rightarrow> push_queued tid sv3)))"

definition fire_recurring :: "int \<Rightarrow> task \<Rightarrow> time \<Rightarrow> server \<Rightarrow> server" where
  "fire_recurring off t at sv =
     (case next_cron off (now (sv_w sv)) (fire_base t) (t_cron t) of
        Inl _ \<Rightarrow> sv
      | Inr nxt \<Rightarrow> if at < nxt then sv else clone_recurring t at sv)"

definition promote_due :: "task \<Rightarrow> server \<Rightarrow> server" where
  "promote_due t sv =
     (case scall (promote_scheduled_task (t_id t)) sv of
        (Inr True, sv1) \<Rightarrow> push_queued (t_id t) sv1
      | (_, sv1) \<Rightarrow> sv1)"

definition due_once :: "time \<Rightarrow> task \<Rightarrow> bool" where
  "due_once at t \<longleftrightarrow> (case t_scheduled t of None \<Rightarrow> False | Some s \<Rightarrow> s \<le> at)"

fun poll_each :: "int \<Rightarrow> time \<Rightarrow> task list \<Rightarrow> server \<Rightarrow> server" where
  "poll_each off at [] sv = sv"
| "poll_each off at (t # ts) sv =
     poll_each off at ts
       (if t_cron t \<noteq> '''' then fire_recurring off t at sv
        else if due_once at t then promote_due t sv
        else sv)"

definition poll_scheduled :: "int \<Rightarrow> server \<Rightarrow> unit result \<times> server" where
  "poll_scheduled off sv =
     (case scall list_scheduled_tasks sv of
        (Inl e, sv1) \<Rightarrow> (Inl e, sv1)
      | (Inr ts, sv1) \<Rightarrow> (Inr (), poll_each off (now (sv_w sv1)) ts sv1))"

text \<open>\<open>RunScheduler\<close>: a poll at every tick until the context is canceled.\<close>

fun run_scheduler :: "int \<Rightarrow> nat \<Rightarrow> server \<Rightarrow> server" where
  "run_scheduler off 0 sv = sv"
| "run_scheduler off (Suc n) sv =
     run_scheduler off n (snd (poll_scheduled off (sv\<lparr>sv_w := advance scheduler_interval (sv_w sv)\<rparr>)))"

end
