(* ===== verification/OpenCode.thy ===== *)
theory OpenCode
  imports Llm
begin

text \<open>
  The client of the OpenCode server, \<open>internal/opencode/client.go\<close>: the requests it builds, what it
  makes of the answers, the framing of the event stream and the export of a session as Markdown.
  The server itself is an argument: a function from a request to a response or a transport error.
  A request keeps its query as a list; its encoding is left out.
\<close>

subsection \<open>Requests and responses\<close>

record oc_client =
  oc_base :: string
  oc_token :: string

record up_request =
  u_method :: string
  u_url :: string
  u_query :: "(string \<times> string) list"
  u_headers :: "(string \<times> string) list"
  u_body :: "json option"

record up_response = response +
  h_headers :: "(string \<times> string) list"

type_synonym upstream = "up_request \<Rightarrow> string + up_response"

definition new_client :: "string \<Rightarrow> oc_client" where
  "new_client url = \<lparr>oc_base = trim_right (CHR ''/'') url, oc_token = ''''\<rparr>"

definition set_auth_token :: "string \<Rightarrow> oc_client \<Rightarrow> oc_client" where
  "set_auth_token t oc = oc\<lparr>oc_token := trim_space t\<rparr>"

text \<open>\<open>Header.Set\<close> replaces; the names are compared in their canonical form.\<close>

definition apply_auth :: "oc_client \<Rightarrow> up_request \<Rightarrow> up_request" where
  "apply_auth oc q =
     (if oc_token oc = '''' then q
      else q\<lparr>u_headers := filter (\<lambda>(k, _). \<not> equal_fold k ''Authorization'') (u_headers q) @
             [(''Authorization'', ''Bearer '' @ oc_token oc)]\<rparr>)"

definition plain_get :: "oc_client \<Rightarrow> string \<Rightarrow> up_request" where
  "plain_get oc path = apply_auth oc \<lparr>u_method = ''GET'', u_url = oc_base oc @ path, u_query = [],
     u_headers = [], u_body = None\<rparr>"

subsection \<open>Health\<close>

definition health_of :: "(string \<times> json) list \<Rightarrow> (bool \<times> string) option" where
  "health_of kvs =
     (case (bool_field ''healthy'' kvs, str_field ''version'' kvs) of
        (Some h, Some v) \<Rightarrow> Some (h, v) | _ \<Rightarrow> None)"

definition decode_health :: "string \<Rightarrow> (bool \<times> string) option" where
  "decode_health raw = Option.bind (parse_json raw) (as_obj health_of)"

definition ping :: "upstream \<Rightarrow> oc_client \<Rightarrow> string option" where
  "ping up oc =
     (case up (plain_get oc ''/global/health'') of
        Inl e \<Rightarrow> Some e
      | Inr r \<Rightarrow>
          (let raw = take 65536 (h_raw r)
           in if h_code r \<noteq> 200 then Some (''opencode health returned '' @ h_status r @ '': '' @ trim_space raw)
              else case decode_health raw of
                None \<Rightarrow> Some (''opencode health: parse response: '' @ type_error)
              | Some (healthy, _) \<Rightarrow> if healthy then None else Some ''opencode reports unhealthy''))"

definition get_version :: "upstream \<Rightarrow> oc_client \<Rightarrow> string + string" where
  "get_version up oc =
     (case up (plain_get oc ''/global/health'') of
        Inl e \<Rightarrow> Inl (''opencode health: '' @ e)
      | Inr r \<Rightarrow>
          if h_code r \<noteq> 200 then Inl (''opencode health returned '' @ h_status r)
          else case decode_health (take 65536 (h_raw r)) of
            None \<Rightarrow> Inl (''opencode health: parse: '' @ type_error)
          | Some (_, v) \<Rightarrow> Inr v)"

subsection \<open>Sessions with their busy state\<close>

record session_info =
  si_id :: string
  si_slug :: string
  si_title :: string
  si_dir :: string
  si_path :: string
  si_agent :: string
  si_model :: string
  si_busy :: bool
  si_input :: int
  si_output :: int
  si_reasoning :: int
  si_cost :: int
  si_created :: int
  si_updated :: int

text \<open>A field that is a struct: later occurrences are stored over earlier ones, field by field.\<close>

definition obj_field :: "string \<Rightarrow> (string \<times> json) list \<Rightarrow> (string \<times> json) list option" where
  "obj_field key kvs =
     map_option concat (those (map (\<lambda>v. case v of JObj o' \<Rightarrow> Some o' | JNull \<Rightarrow> Some [] | _ \<Rightarrow> None) (field_vals key kvs)))"

definition raw_session :: "(string \<times> json) list \<Rightarrow> session_info option" where
  "raw_session kvs =
     (case (obj_field ''model'' kvs, obj_field ''tokens'' kvs, obj_field ''time'' kvs) of
        (Some model, Some tokens, Some tm) \<Rightarrow>
          (case (those [str_field ''id'' kvs, str_field ''slug'' kvs, str_field ''title'' kvs,
                        str_field ''directory'' kvs, str_field ''path'' kvs, str_field ''agent'' kvs,
                        str_field ''id'' model],
                 those [int_field ''input'' tokens, int_field ''output'' tokens, int_field ''reasoning'' tokens,
                        int_field ''cost'' kvs, int_field ''created'' tm, int_field ''updated'' tm]) of
             (Some [i, sl, ti, d, p, a, m], Some [ti_in, ti_out, ti_r, co, cr, u]) \<Rightarrow>
               Some \<lparr>si_id = i, si_slug = sl, si_title = ti, si_dir = d, si_path = p, si_agent = a, si_model = m,
                 si_busy = False, si_input = ti_in, si_output = ti_out, si_reasoning = ti_r, si_cost = co,
                 si_created = cr, si_updated = u\<rparr>
           | _ \<Rightarrow> None)
      | _ \<Rightarrow> None)"

text \<open>The busy map; every failure on the way leaves it empty.\<close>

definition busy_map :: "string + up_response \<Rightarrow> string \<Rightarrow> bool" where
  "busy_map resp sid =
     (case resp of
        Inl _ \<Rightarrow> False
      | Inr r \<Rightarrow>
          (case parse_json (take 4194304 (h_raw r)) of
             Some (JObj kvs) \<Rightarrow>
               if \<exists>kv \<in> set kvs. as_obj (str_field ''type'') (snd kv) = None then False
               else (case map_entry sid kvs of
                       None \<Rightarrow> False
                     | Some st \<Rightarrow> as_obj (str_field ''type'') st = Some ''busy'')
           | _ \<Rightarrow> False))"

definition list_sessions :: "upstream \<Rightarrow> oc_client \<Rightarrow> string + session_info list" where
  "list_sessions up oc =
     (case up (plain_get oc ''/session'') of
        Inl e \<Rightarrow> Inl (''opencode sessions: '' @ e)
      | Inr r \<Rightarrow>
          if h_code r \<noteq> 200 then Inl (''opencode sessions returned '' @ h_status r)
          else case Option.bind (parse_json (take 8388608 (h_raw r))) (as_list (as_obj raw_session)) of
            None \<Rightarrow> Inl (''opencode sessions: parse: '' @ type_error)
          | Some rs \<Rightarrow>
              Inr (map (\<lambda>x. x\<lparr>si_busy := busy_map (up (plain_get oc ''/session/status'')) (si_id x)\<rparr>) rs))"

subsection \<open>Passthrough and typed calls\<close>

text \<open>\<open>Do\<close>: the request the mirror proxy sends upstream.\<close>

definition do_request :: "oc_client \<Rightarrow> string \<Rightarrow> string \<Rightarrow> (string \<times> string) list \<Rightarrow> json option \<Rightarrow>
    (string \<times> string) list \<Rightarrow> up_request" where
  "do_request oc meth path qry body hdr = apply_auth oc \<lparr>u_method = meth, u_url = oc_base oc @ path,
     u_query = qry, u_headers = filter (\<lambda>(k, _). \<not> equal_fold k ''Authorization'') hdr, u_body = body\<rparr>"

definition do_call :: "upstream \<Rightarrow> oc_client \<Rightarrow> string \<Rightarrow> string \<Rightarrow> (string \<times> string) list \<Rightarrow> json option \<Rightarrow>
    (string \<times> string) list \<Rightarrow> string + up_response" where
  "do_call up oc meth path qry body hdr =
     (case up (do_request oc meth path qry body hdr) of
        Inl e \<Rightarrow> Inl (meth @ '' '' @ path @ '': '' @ e)
      | Inr r \<Rightarrow> Inr r)"

definition truncate_bytes :: "string \<Rightarrow> nat \<Rightarrow> string" where
  "truncate_bytes b n = trim_space (take n b)"

definition max_response_body :: nat where
  "max_response_body = 16777216"

text \<open>\<open>request\<close>: the raw body of a 2xx answer.\<close>

definition oc_call :: "upstream \<Rightarrow> oc_client \<Rightarrow> string \<Rightarrow> string \<Rightarrow> (string \<times> string) list \<Rightarrow> json option \<Rightarrow> string + string" where
  "oc_call up oc meth path qry body =
     (case up (apply_auth oc \<lparr>u_method = meth, u_url = oc_base oc @ path, u_query = qry,
            u_headers = (if body = None then [] else [(''Content-Type'', ''application/json'')]), u_body = body\<rparr>) of
        Inl e \<Rightarrow> Inl (meth @ '' '' @ path @ '': '' @ e)
      | Inr r \<Rightarrow>
          (let raw = take max_response_body (h_raw r)
           in if h_code r < 200 \<or> 300 \<le> h_code r
              then Inl (meth @ '' '' @ path @ '' returned '' @ h_status r @ '': '' @ truncate_bytes raw 512)
              else Inr raw))"

definition list_all_sessions_detailed :: "upstream \<Rightarrow> oc_client \<Rightarrow> string \<Rightarrow> string + string" where
  "list_all_sessions_detailed up oc dir = oc_call up oc ''GET'' ''/experimental/session''
     (if dir = '''' then [] else [(''directory'', dir)]) None"

definition list_projects :: "upstream \<Rightarrow> oc_client \<Rightarrow> string + string" where
  "list_projects up oc = oc_call up oc ''GET'' ''/project'' [] None"

text \<open>The one call that decodes what it got; the statuses stay documents.\<close>

definition list_session_statuses :: "upstream \<Rightarrow> oc_client \<Rightarrow> string + (string \<times> json) list" where
  "list_session_statuses up oc =
     (case oc_call up oc ''GET'' ''/session/status'' [] None of
        Inl e \<Rightarrow> Inl e
      | Inr raw \<Rightarrow>
          (case parse_json raw of
             Some (JObj kvs) \<Rightarrow> Inr kvs
           | Some JNull \<Rightarrow> Inr []
           | _ \<Rightarrow> Inl (''GET /session/status: parse response: '' @ type_error)))"

subsection \<open>The messages of a session\<close>

record chat_msg =
  cm_role :: string
  cm_content :: string

definition msg_part :: "(string \<times> json) list \<Rightarrow> (string \<times> string) option" where
  "msg_part kvs = (case (str_field ''type'' kvs, str_field ''text'' kvs) of
     (Some ty, Some tx) \<Rightarrow> Some (ty, tx) | _ \<Rightarrow> None)"

definition parts_text :: "(string \<times> string) list \<Rightarrow> string" where
  "parts_text ps = trim_space (concat (map (\<lambda>(ty, tx). if ty = ''text'' \<and> tx \<noteq> '''' then tx @ [CHR 0x0A] else []) ps))"

definition session_msg :: "(string \<times> json) list \<Rightarrow> chat_msg option" where
  "session_msg kvs =
     (case (Option.bind (obj_field ''info'' kvs) (str_field ''role''), list_field (as_obj msg_part) ''parts'' kvs) of
        (Some role, Some ps) \<Rightarrow> Some \<lparr>cm_role = role, cm_content = parts_text ps\<rparr>
      | _ \<Rightarrow> None)"

text \<open>
  The array is decoded element by element. \<open>More\<close> is false at the end of the input and at either
  closing bracket, so an answer cut off right after an element counts as complete.
\<close>

function msg_elems :: "bool \<Rightarrow> string \<Rightarrow> chat_msg list option" where
  "msg_elems first s =
     (case skip_ws s of
        [] \<Rightarrow> Some []
      | c # r \<Rightarrow>
          if c = CHR '']'' \<or> c = CHR ''}'' then Some []
          else if \<not> first \<and> c \<noteq> CHR '','' then None
          else (case json_value (if first then s else r) of
                  None \<Rightarrow> None
                | Some (v, r1) \<Rightarrow>
                    (case as_obj session_msg v of
                       None \<Rightarrow> None
                     | Some m \<Rightarrow>
                         if length r1 < length s
                         then map_option (\<lambda>ms. if cm_content m = '''' then ms else m # ms) (msg_elems False r1)
                         else None)))"
  by pat_completeness auto

termination by (relation "measure (\<lambda>(_, s). length s)") auto

declare msg_elems.simps [simp del]

definition fetch_session_messages :: "upstream \<Rightarrow> oc_client \<Rightarrow> string \<Rightarrow> string + chat_msg list" where
  "fetch_session_messages up oc sid =
     (case up (plain_get oc (''/session/'' @ sid @ ''/message'')) of
        Inl e \<Rightarrow> Inl (''fetch messages: '' @ e)
      | Inr r \<Rightarrow>
          if 300 \<le> h_code r
          then Inl (''fetch messages: '' @ h_status r @ '': '' @ trim_space (take 4096 (h_raw r)))
          else (case skip_ws (take 268435456 (h_raw r)) of
                  c # rest \<Rightarrow>
                    if c = CHR ''['' then
                      (case msg_elems True rest of
                         None \<Rightarrow> Inl (''parse messages: '' @ type_error)
                       | Some ms \<Rightarrow> Inr ms)
                    else Inl ''parse messages: expected JSON array''
                | [] \<Rightarrow> Inl ''parse messages: EOF''))"

definition nl :: string where
  "nl = [CHR 0x0A]"

definition msg_label :: "string \<Rightarrow> string" where
  "msg_label role = (if role = ''assistant'' then ''Assistant'' else if role = ''tool'' then ''Tool'' else ''User'')"

definition export_markdown :: "string \<Rightarrow> chat_msg list \<Rightarrow> string" where
  "export_markdown sid ms = trim_space (''# Session '' @ sid @ nl @ nl @
     concat (map (\<lambda>m. if trim_space (cm_content m) = '''' then []
       else ''## '' @ msg_label (cm_role m) @ nl @ nl @ cm_content m @ nl @ nl) ms))"

subsection \<open>The event stream\<close>

definition trim_crlf :: "string \<Rightarrow> string" where
  "trim_crlf b = trim_suffix (trim_suffix b [CHR 0x0A]) [CHR 0x0D]"

text \<open>
  The framing loop over the lines of the body; the last line ends with the body instead of a line
  feed and is absent when empty. \<open>on_event\<close> stops the loop with an error.
\<close>

fun sse_loop :: "(string \<Rightarrow> 's \<Rightarrow> string option \<times> 's) \<Rightarrow> string \<Rightarrow> string list \<Rightarrow> 's \<Rightarrow> string option \<times> 's" where
  "sse_loop on_event buf [] st = (if buf = [] then (None, st) else on_event buf st)"
| "sse_loop on_event buf (l # ls) st =
     (let trimmed = trim_crlf l
      in if has_prefix trimmed ''data:'' then sse_loop on_event (buf @ trim_space (drop 5 trimmed)) ls st
         else if trimmed = [] \<and> buf \<noteq> [] then
           (case on_event buf st of
              (Some e, st1) \<Rightarrow> (Some e, st1)
            | (None, st1) \<Rightarrow> sse_loop on_event [] ls st1)
         else sse_loop on_event buf ls st)"

definition body_lines :: "string \<Rightarrow> string list" where
  "body_lines body = (let ls = split_at (CHR 0x0A) body in if last ls = [] then butlast ls else ls)"

definition stream_events :: "upstream \<Rightarrow> oc_client \<Rightarrow> (string \<Rightarrow> 's \<Rightarrow> string option \<times> 's) \<Rightarrow> 's \<Rightarrow> string option \<times> 's" where
  "stream_events up oc on_event st =
     (case up (apply_auth oc \<lparr>u_method = ''GET'', u_url = oc_base oc @ ''/global/event'', u_query = [],
            u_headers = [(''Accept'', ''text/event-stream'')], u_body = None\<rparr>) of
        Inl e \<Rightarrow> (Some (''open event stream: '' @ e), st)
      | Inr r \<Rightarrow>
          if h_code r \<noteq> 200 then (Some (''open event stream: '' @ h_status r @ '': '' @ take 4096 (h_raw r)), st)
          else sse_loop on_event [] (body_lines (h_raw r)) st)"

text \<open>All events of a body, for a reader that takes every one.\<close>

definition take_event :: "string \<Rightarrow> string list \<Rightarrow> string option \<times> string list" where
  "take_event e es = (None, es @ [e])"

definition events_of :: "string \<Rightarrow> string list" where
  "events_of body = snd (sse_loop take_event [] (body_lines body) [])"

subsection \<open>Frames as the backend writes them\<close>

text \<open>An event on a stream to a client, and the first bytes of \<open>/api/stream\<close>.\<close>

definition sse_frame :: "string \<Rightarrow> string" where
  "sse_frame e = ''data: '' @ e @ nl @ nl"

definition greeting :: string where
  "greeting = ''event: connected'' @ nl @ ''data: {}'' @ nl @ nl"

end
