(* ===== verification/JsonPrint.thy ===== *)
theory JsonPrint
  imports JsonText
begin

text \<open>
  \<open>json.Marshal\<close> and \<open>json.MarshalIndent\<close>: compact or indented text, with the escapes of \<open>encoding/json\<close> in strings: control bytes,
  quote and backslash, the HTML characters, U+2028 and U+2029, and U+FFFD for invalid UTF-8. What is
  printed is read back by the parser of \<open>JsonText\<close>, up to invalid UTF-8.
\<close>

definition hex_char :: "int \<Rightarrow> char" where
  "hex_char n = char_of (if n < 10 then 48 + n else 87 + n)"

definition backslash :: char where
  "backslash = CHR 0x5C"

definition u_escape :: "int \<Rightarrow> string" where
  "u_escape n = [backslash, CHR ''u'', hex_char (n div 4096), hex_char (n div 256 mod 16),
     hex_char (n div 16 mod 16), hex_char (n mod 16)]"

definition escape_rune :: "int \<Rightarrow> string" where
  "escape_rune n =
     (if n = 34 \<or> n = 92 then [backslash, chr_of n]
      else if n = 8 then [backslash, CHR ''b'']
      else if n = 12 then [backslash, CHR ''f'']
      else if n = 10 then [backslash, CHR ''n'']
      else if n = 13 then [backslash, CHR ''r'']
      else if n = 9 then [backslash, CHR ''t'']
      else if n < 32 \<or> n \<in> {60, 62, 38, 8232, 8233} then u_escape n
      else encode_rune n)"

text \<open>A byte that is no UTF-8 becomes the escape of U+FFFD.\<close>

function escape_string :: "string \<Rightarrow> string" where
  "escape_string s =
     (if s = [] then []
      else case decode_rune s of (r, n) \<Rightarrow>
        (if r = rune_error \<and> n = 1 then u_escape rune_error else escape_rune r) @ escape_string (drop n s))"
  by pat_completeness auto

termination by (relation "measure length") (auto dest: decode_rune_pos[OF sym])

declare escape_string.simps [simp del]

definition quote_json :: "string \<Rightarrow> string" where
  "quote_json s = [CHR 0x22] @ escape_string s @ [CHR 0x22]"

text \<open>A new line at depth \<open>d\<close>, when the text is indented.\<close>

definition fresh_line :: "bool \<Rightarrow> nat \<Rightarrow> string" where
  "fresh_line p d = (if p then CHR 0x0A # replicate (2 * d) (CHR '' '') else [])"

text \<open>\<open>json.Marshal\<close>, and \<open>json.MarshalIndent\<close> with two spaces.\<close>

fun json_print :: "bool \<Rightarrow> nat \<Rightarrow> json \<Rightarrow> string" where
  "json_print p d JNull = ''null''"
| "json_print p d (JBool b) = (if b then ''true'' else ''false'')"
| "json_print p d (JNum n) = n"
| "json_print p d (JStr s) = quote_json s"
| "json_print p d (JArr vs) =
     (if vs = [] then ''[]''
      else ''['' @ fresh_line p (Suc d) @ join ('','' @ fresh_line p (Suc d)) (map (json_print p (Suc d)) vs) @ fresh_line p d @ '']'')"
| "json_print p d (JObj kvs) =
     (if kvs = [] then ''{}''
      else ''{'' @ fresh_line p (Suc d) @ join ('','' @ fresh_line p (Suc d))
        (map (\<lambda>(k, v). quote_json k @ '':'' @ (if p then '' '' else []) @ json_print p (Suc d) v) kvs) @ fresh_line p d @ ''}'')"

definition json_text :: "json \<Rightarrow> string" where
  "json_text j = json_print False 0 j"

subsection \<open>Strings read back\<close>

lemma digit_char_simps:
  "0 \<le> n \<Longrightarrow> n < 16 \<Longrightarrow> hex_val (hex_char n) = Some n"
  by (simp add: hex_val_def hex_char_def chr_of_def[symmetric] Let_def)

lemma hex4_escape:
  assumes "0 \<le> n" and "n < 65536"
  shows "hex4 (hex_char (n div 4096) # hex_char (n div 256 mod 16) # hex_char (n div 16 mod 16) #
    hex_char (n mod 16) # s) = Some n"
proof -
  have d1: "hex_val (hex_char (n div 4096)) = Some (n div 4096)"
    using assms by (intro digit_char_simps) auto
  have d2: "hex_val (hex_char (n div 256 mod 16)) = Some (n div 256 mod 16)"
    and d3: "hex_val (hex_char (n div 16 mod 16)) = Some (n div 16 mod 16)"
    and d4: "hex_val (hex_char (n mod 16)) = Some (n mod 16)"
    by (intro digit_char_simps; simp)+
  have sum: "4096 * (n div 4096) + 256 * (n div 256 mod 16) + 16 * (n div 16 mod 16) + n mod 16 = n"
  proof -
    have a: "n = n div 16 * 16 + n mod 16" by simp
    have b: "n div 16 = n div 256 * 16 + n div 16 mod 16"
      using div_mult_mod_eq[of "n div 16" 16] by (simp add: zdiv_zmult2_eq[symmetric])
    have c: "n div 256 = n div 4096 * 16 + n div 256 mod 16"
      using div_mult_mod_eq[of "n div 256" 16] by (simp add: zdiv_zmult2_eq[symmetric])
    show ?thesis using a b c by linarith
  qed
  show ?thesis unfolding hex4.simps d1 d2 d3 d4 by (simp add: sum)
qed

lemma json_chars_u:
  assumes "0 \<le> n" and "n < 65536" and "\<not> (55296 \<le> n \<and> n \<le> 57343)"
  shows "json_chars (u_escape n @ s) = prepend (encode_rune n) (json_chars s)"
proof -
  let ?h = "hex_char (n div 4096) # hex_char (n div 256 mod 16) # hex_char (n div 16 mod 16) # hex_char (n mod 16) # s"
  have "unicode_escape ?h = Some (n, 4)"
    unfolding unicode_escape_def hex4_escape[OF assms(1,2)] by (simp only: assms(3) option.case if_False)
  moreover have "json_chars (CHR 0x5C # CHR ''u'' # ?h) = (case unicode_escape ?h of None \<Rightarrow> None
      | Some (n, k) \<Rightarrow> prepend (encode_rune n) (json_chars (drop k ?h)))"
    by (subst json_chars.simps) (simp del: drop_Cons')
  moreover have "drop 4 ?h = s" by (simp add: numeral_eq_Suc)
  ultimately show ?thesis by (simp add: u_escape_def backslash_def)
qed

lemma json_chars_simple:
  assumes "simple_escape e = Some c" and "e \<noteq> CHR ''u''"
  shows "json_chars (backslash # e # s) = prepend [c] (json_chars s)"
  using assms by (subst json_chars.simps) (simp add: backslash_def)

lemma json_chars_plain:
  assumes "valid_rune n" and "32 \<le> n" and "n \<noteq> 34" and "n \<noteq> 92"
  shows "json_chars (encode_rune n @ s) = prepend (encode_rune n) (json_chars s)"
proof -
  obtain b bs where e: "encode_rune n = b # bs" by (cases "encode_rune n") auto
  have d: "decode_rune (b # bs @ s) = (n, Suc (length bs))"
    using decode_encode[OF assms(1), of s] e by simp
  have first: "byte_of b \<ge> 32 \<and> byte_of b \<noteq> 34 \<and> byte_of b \<noteq> 92"
  proof (cases "n < 128")
    case True
    with assms e show ?thesis by (auto simp: encode_rune_def valid_rune_def Let_def)
  next
    case False
    then have "\<not> byte_of b < 128"
      using d e by (auto simp: decode_rune_def Let_def split: if_splits list.splits prod.splits)
    then show ?thesis by simp
  qed
  then have "b \<noteq> CHR 0x22" and "b \<noteq> CHR 0x5C" by (auto simp: byte_of_def)
  with first d e show ?thesis by (subst json_chars.simps) simp
qed

lemma simple_cases:
  assumes "n \<in> {34, 92, 8, 12, 10, 13, 9}"
  shows "\<exists>e c. escape_rune n = [backslash, e] \<and> simple_escape e = Some c \<and> e \<noteq> CHR ''u'' \<and> encode_rune n = [c]"
proof -
  have "list_all (\<lambda>n. case escape_rune n of [b, e] \<Rightarrow> b = backslash \<and> e \<noteq> CHR ''u'' \<and>
      (case simple_escape e of Some c \<Rightarrow> encode_rune n = [c] | None \<Rightarrow> False) | _ \<Rightarrow> False)
      [34, 92, 8, 12, 10, 13, 9]"
    by code_simp
  moreover have "n \<in> set [34, 92, 8, 12, 10, 13, 9]" using assms by simp
  ultimately have "case escape_rune n of [b, e] \<Rightarrow> b = backslash \<and> e \<noteq> CHR ''u'' \<and>
      (case simple_escape e of Some c \<Rightarrow> encode_rune n = [c] | None \<Rightarrow> False) | _ \<Rightarrow> False"
    unfolding list_all_iff by (rule bspec)
  then show ?thesis by (auto split: list.splits option.splits)
qed

lemma json_chars_escape:
  assumes "valid_rune n"
  shows "json_chars (escape_rune n @ s) = prepend (encode_rune n) (json_chars s)"
proof -
  have pos: "0 \<le> n" using assms by (simp add: valid_rune_def)
  consider "n \<in> {34, 92, 8, 12, 10, 13, 9}"
    | "n \<notin> {34, 92, 8, 12, 10, 13, 9}" "n < 32 \<or> n \<in> {60, 62, 38, 8232, 8233}"
    | "n \<notin> {34, 92, 8, 12, 10, 13, 9}" "\<not> (n < 32 \<or> n \<in> {60, 62, 38, 8232, 8233})" by blast
  then show ?thesis
  proof cases
    case 1
    then obtain e c where "escape_rune n = [backslash, e]" "simple_escape e = Some c" "e \<noteq> CHR ''u''"
        "encode_rune n = [c]"
      using simple_cases by blast
    then show ?thesis by (simp add: json_chars_simple)
  next
    case 2
    then show ?thesis
      using assms pos json_chars_u[of n s] by (auto simp: escape_rune_def valid_rune_def)
  next
    case 3
    then show ?thesis
      using assms json_chars_plain[of n s] by (auto simp: escape_rune_def)
  qed
qed

lemma json_chars_quoted:
  "\<forall>r \<in> set rs. valid_rune r \<Longrightarrow>
     json_chars (concat (map escape_rune rs) @ CHR 0x22 # s) = Some (of_runes rs, s)"
proof (induction rs)
  case Nil
  then show ?case by (subst json_chars.simps) (simp add: of_runes_def)
next
  case (Cons r rs)
  then show ?case
    using json_chars_escape[of r "concat (map escape_rune rs) @ CHR 0x22 # s"]
    by (simp add: of_runes_def prepend_def)
qed

lemma decode_valid:
  assumes "s \<noteq> []" and "decode_rune s = (r, n)"
  shows "valid_rune r"
proof -
  have b: "0 \<le> byte_of c" "byte_of c < 256" for c
  proof -
    have "byte_of c = int (of_char c)" unfolding byte_of_def by (rule of_nat_of_char[symmetric])
    then show "0 \<le> byte_of c" "byte_of c < 256" by simp_all
  qed
  obtain a t where s: "s = a # t" using assms(1) by (cases s) auto
  show ?thesis
    using assms(2) b[of a] unfolding s
    by (auto simp: decode_rune_def Let_def second_range_def in_range_def valid_rune_def rune_error_def
        split: if_splits list.splits)
qed

lemma json_chars_back: "json_chars (escape_string s @ CHR 0x22 # t) = Some (of_runes (runes s), t)"
proof (induction s rule: escape_string.induct)
  case (1 s)
  show ?case
  proof (cases "s = []")
    case True
    then show ?thesis by (subst json_chars.simps) (simp add: escape_string.simps runes.simps of_runes_def)
  next
    case False
    obtain r n where d: "decode_rune s = (r, n)" by fastforce
    then have v: "valid_rune r" using decode_valid[OF False] by blast
    have u: "json_chars (u_escape rune_error @ x) = prepend (encode_rune rune_error) (json_chars x)" for x
      by (rule json_chars_u) (simp_all add: rune_error_def)
    have "escape_string s = (if r = rune_error \<and> n = 1 then u_escape rune_error else escape_rune r) @ escape_string (drop n s)"
      using False d by (subst escape_string.simps) simp
    moreover have "runes s = r # runes (drop n s)" using False d by (subst runes.simps) simp
    ultimately show ?thesis
      using 1[OF False d[symmetric]] u json_chars_escape[OF v] by (auto simp: of_runes_def prepend_def)
  qed
qed

subsection \<open>Numbers and layout\<close>

text \<open>What follows a value in a document: nothing, white space, a comma or a closing bracket.\<close>

definition stops :: "string \<Rightarrow> bool" where
  "stops r \<longleftrightarrow> r = [] \<or> hd r \<in> {CHR '' '', CHR 0x09, CHR 0x0A, CHR 0x0D, CHR '','', CHR '']'', CHR ''}''}"

lemma stops_cases: "stops r \<Longrightarrow> (r = [] \<Longrightarrow> P) \<Longrightarrow>
    (\<And>c t. r = c # t \<Longrightarrow> digit_val c = None \<Longrightarrow> c \<notin> {CHR ''.'', CHR ''e'', CHR ''E'', CHR ''+'', CHR ''-'', CHR ''0''} \<Longrightarrow> P) \<Longrightarrow> P"
  by (cases r) (auto simp: stops_def digit_val_def)

lemma digits_append: "stops r \<Longrightarrow> json_digits (s @ r) = (fst (json_digits s), snd (json_digits s) @ r)"
  by (induction s) (auto simp: json_digits_def elim: stops_cases)

lemma has_prefix_one: "has_prefix s [c] \<longleftrightarrow> s \<noteq> [] \<and> hd s = c"
  by (cases s) (auto simp: has_prefix_def)

lemma stops_hd: "stops r \<Longrightarrow> c \<in> {CHR ''.'', CHR ''e'', CHR ''E'', CHR ''+'', CHR ''-'', CHR ''0''} \<Longrightarrow>
    has_prefix (s @ r) [c] = has_prefix s [c]"
  by (cases s) (auto simp: has_prefix_one elim: stops_cases)

lemma fraction_append:
  assumes "stops r" and "json_fraction s = Some (f, t)"
  shows "json_fraction (s @ r) = Some (f, t @ r)"
  using assms(2) stops_hd[OF assms(1), of "CHR ''.''" s] digits_append[OF assms(1), of "tl s"]
  by (cases s) (auto simp: json_fraction_def has_prefix_one split: if_splits prod.splits)

definition exponent_sign :: "string \<Rightarrow> string" where
  "exponent_sign s = (if has_prefix s ''+'' \<or> has_prefix s ''-'' then take 1 s else [])"

lemma exponent_Cons:
  "json_exponent (c # s) =
     (if c = CHR ''e'' \<or> c = CHR ''E'' then
        (case json_digits (drop (length (exponent_sign s)) s) of
           (ds, r) \<Rightarrow> if ds = [] then None else Some (c # exponent_sign s @ ds, r))
      else Some ([], c # s))"
proof -
  have p: "has_prefix (c # s) ''e'' = (c = CHR ''e'')" "has_prefix (c # s) ''E'' = (c = CHR ''E'')" "take 1 (c # s) = [c]"
    by (simp_all add: has_prefix_one)
  show ?thesis
    unfolding json_exponent_def p Let_def list.sel exponent_sign_def[symmetric] by (simp split: prod.split)
qed

lemma exponent_append:
  assumes "stops r" and "json_exponent s = Some (f, t)"
  shows "json_exponent (s @ r) = Some (f, t @ r)"
proof (cases s)
  case Nil
  then show ?thesis
    using assms stops_hd[OF assms(1), of "CHR ''e''" "[]"] stops_hd[OF assms(1), of "CHR ''E''" "[]"]
    by (auto simp: json_exponent_def has_prefix_one)
next
  case (Cons c s1)
  have sg: "exponent_sign (s1 @ r) = exponent_sign s1"
    using stops_hd[OF assms(1), of "CHR ''+''" s1] stops_hd[OF assms(1), of "CHR ''-''" s1]
    by (cases s1) (auto simp: exponent_sign_def has_prefix_one)
  have dr: "drop (length (exponent_sign s1)) (s1 @ r) = drop (length (exponent_sign s1)) s1 @ r"
    by (cases s1) (auto simp: exponent_sign_def has_prefix_one)
  have e: "json_exponent (c # s1 @ r) =
     (if c = CHR ''e'' \<or> c = CHR ''E'' then
        (case json_digits (drop (length (exponent_sign s1)) s1 @ r) of
           (ds, r) \<Rightarrow> if ds = [] then None else Some (c # exponent_sign s1 @ ds, r))
      else Some ([], c # s1 @ r))"
    unfolding exponent_Cons sg dr by (rule refl)
  show ?thesis
    using assms(2)[unfolded Cons exponent_Cons] digits_append[OF assms(1), of "drop (length (exponent_sign s1)) s1"]
    unfolding Cons append_Cons e by (auto split: if_splits prod.splits)
qed

lemma number_append:
  assumes "stops r" and "json_number s = Some (n, t)"
  shows "json_number (s @ r) = Some (n, t @ r)"
proof -
  define sg where "sg = (if has_prefix s ''-'' then ''-'' else [])"
  define s1 where "s1 = drop (length sg) s"
  have m: "has_prefix (s @ r) ''-'' = has_prefix s ''-''" using stops_hd[OF assms(1)] by simp
  have d: "drop (length sg) (s @ r) = s1 @ r"
    by (cases s) (auto simp: sg_def s1_def has_prefix_one)
  have z: "has_prefix (s1 @ r) ''0'' = has_prefix s1 ''0''" using stops_hd[OF assms(1)] by simp
  obtain ds s2 where 2: "(if has_prefix s1 ''0'' then (''0'', tl s1) else json_digits s1) = (ds, s2)" by fastforce
  then have 3: "(if has_prefix s1 ''0'' then (''0'', tl (s1 @ r)) else json_digits (s1 @ r)) = (ds, s2 @ r)"
    using digits_append[OF assms(1), of s1] by (auto simp: has_prefix_one split: if_splits)
  obtain f s3 e s4 where "ds \<noteq> []" "json_fraction s2 = Some (f, s3)" "json_exponent s3 = Some (e, s4)" "n = sg @ ds @ f @ e" "t = s4"
    using assms(2) 2 by (auto simp: json_number_def Let_def sg_def[symmetric] s1_def[symmetric] split: if_splits option.splits prod.splits)
  then show ?thesis
    using 3 z fraction_append[OF assms(1)] exponent_append[OF assms(1)]
    unfolding json_number_def Let_def m sg_def[symmetric] d by simp
qed

subsection \<open>Documents read back\<close>

text \<open>Invalid bytes of a string come back as U+FFFD.\<close>

definition to_utf8 :: "string \<Rightarrow> string" where
  "to_utf8 s = of_runes (runes s)"

fun clean_json :: "json \<Rightarrow> json" where
  "clean_json (JStr s) = JStr (to_utf8 s)"
| "clean_json (JArr vs) = JArr (map clean_json vs)"
| "clean_json (JObj kvs) = JObj (map (\<lambda>(k, v). (to_utf8 k, clean_json v)) kvs)"
| "clean_json v = v"

fun numbers_ok :: "json \<Rightarrow> bool" where
  "numbers_ok (JNum n) = (json_number n = Some (n, []))"
| "numbers_ok (JArr vs) = list_all numbers_ok vs"
| "numbers_ok (JObj kvs) = list_all (\<lambda>(k, v). numbers_ok v) kvs"
| "numbers_ok v = True"

lemma skip_line [simp]: "skip_ws (fresh_line p d @ s) = skip_ws s"
proof -
  have "skip_ws (replicate n (CHR '' '') @ s) = skip_ws s" for n by (induction n) simp_all
  then show ?thesis by (simp add: fresh_line_def)
qed

lemma value_skip: "skip_ws s = skip_ws t \<Longrightarrow> json_value s = json_value t"
  by (simp add: json_value.simps)

text \<open>No number begins like another value, or with white space.\<close>

definition other_starts :: string where
  "other_starts = [CHR '' '', CHR 0x09, CHR 0x0A, CHR 0x0D, CHR ''['', CHR ''{'', CHR 0x22, CHR ''n'', CHR ''t'', CHR ''f'',
     CHR '']'', CHR ''}'', CHR '','']"

lemma number_first:
  assumes "json_number (c # s) = Some x"
  shows "c \<notin> set other_starts"
proof
  assume "c \<in> set other_starts"
  moreover have "list_all (\<lambda>x. digit_val x = None \<and> x \<noteq> CHR ''-'' \<and> x \<noteq> CHR ''0'') other_starts"
    by (simp add: other_starts_def digit_val_def)
  ultimately have "digit_val c = None" "c \<noteq> CHR ''-''" "c \<noteq> CHR ''0''" unfolding list_all_iff by blast+
  then have "json_number (c # s) = None" by (simp add: json_number_def has_prefix_one json_digits_def)
  then show False using assms by simp
qed

lemma has_prefix_Cons: "has_prefix (c # s) (d # p) \<longleftrightarrow> c = d \<and> has_prefix s p"
  by (auto simp: has_prefix_def)

lemma value_number:
  assumes "json_number n = Some (n, [])" and "stops r"
  shows "json_value (n @ r) = Some (JNum n, r)"
proof (cases n)
  case Nil
  then show ?thesis using assms(1) by (simp add: json_number_def json_digits_def has_prefix_def)
next
  case (Cons c s)
  then have c: "c \<notin> set other_starts" using assms(1) number_first by metis
  have "json_number (c # s @ r) = Some (n, r)" using number_append[OF assms(2,1)] Cons by simp
  moreover have "\<not> has_prefix (c # s @ r) ''null''" "\<not> has_prefix (c # s @ r) ''true''" "\<not> has_prefix (c # s @ r) ''false''"
    using c by (auto simp: has_prefix_Cons other_starts_def)
  ultimately have l: "json_literal (c # s @ r) = Some (JNum n, r)" unfolding json_literal_def by simp
  have k: "skip_ws (c # s @ r) = c # s @ r" "c \<noteq> CHR ''[''" "c \<noteq> CHR ''{''" "c \<noteq> CHR 0x22"
    using c by (auto simp: other_starts_def)
  show ?thesis
    unfolding Cons append_Cons json_value.simps[of "c # s @ r"] k(1) list.case
    using k(2-4) l Cons by (simp only: if_False)
qed

lemma value_string: "json_value (quote_json s @ r) = Some (JStr (to_utf8 s), r)"
  using json_chars_back[of s r] by (simp add: json_value.simps quote_json_def to_utf8_def)

lemma stops_line [simp]: "stops (fresh_line p d @ CHR '']'' # r)" "stops (fresh_line p d @ CHR ''}'' # r)" "stops (CHR '','' # r)"
  by (simp_all add: stops_def fresh_line_def)

lemma print_first:
  assumes "numbers_ok j"
  obtains c s where "json_print p d j = c # s" "skip_ws (c # s @ r) = c # s @ r" "c \<noteq> CHR '']''" "c \<noteq> CHR ''}''"
proof (cases "\<exists>n. j = JNum n")
  case True
  then obtain n c s where j: "j = JNum n" "n = c # s"
    using assms by (cases j; cases "case j of JNum n \<Rightarrow> n | _ \<Rightarrow> []") (auto simp: json_number_def json_digits_def has_prefix_def)
  then have "c \<notin> set other_starts" using assms number_first by simp
  then show thesis using that[of c s] j by (auto simp: other_starts_def)
next
  case False
  then have "\<exists>c s. json_print p d j = c # s \<and> c \<in> {CHR ''n'', CHR ''t'', CHR ''f'', CHR 0x22, CHR ''['', CHR ''{''}"
    by (cases j) (auto simp: quote_json_def)
  then obtain c s where c: "json_print p d j = c # s" "c \<in> {CHR ''n'', CHR ''t'', CHR ''f'', CHR 0x22, CHR ''['', CHR ''{''}"
    by blast
  then have "skip_ws (c # s @ r) = c # s @ r" "c \<noteq> CHR '']''" "c \<noteq> CHR ''}''" by auto
  then show thesis using that[of c s] c by blast
qed

lemma elems_last: "json_value s = Some (v, t) \<Longrightarrow> skip_ws t = CHR '']'' # r \<Longrightarrow> json_elems s = Some ([v], r)"
  by (subst json_elems.simps) simp

lemma elems_more:
  assumes "json_value s = Some (v, t)" and "skip_ws t = CHR '','' # r"
  shows "json_elems s = map_option (\<lambda>(vs, r). (v # vs, r)) (json_elems r)"
proof -
  have "length r < length s" using json_consumes(1)[OF assms(1)] skip_ws_Cons[OF assms(2)] by simp
  then show ?thesis by (subst json_elems.simps) (simp add: assms)
qed

lemma elems_back:
  assumes "vs \<noteq> []" and "\<forall>v \<in> set vs. \<forall>r. stops r \<longrightarrow> json_value (f v @ r) = Some (clean_json v, r)"
  shows "json_elems (fresh_line p k @ join (CHR '','' # fresh_line p k) (map f vs) @ fresh_line p d @ CHR '']'' # r) =
    Some (map clean_json vs, r)"
  using assms
proof (induction vs rule: list_nonempty_induct)
  case (single v)
  then have "json_value (fresh_line p k @ f v @ fresh_line p d @ CHR '']'' # r) = Some (clean_json v, fresh_line p d @ CHR '']'' # r)"
    using value_skip[OF skip_line] by simp
  then show ?case using elems_last by simp
next
  case (cons v vs)
  let ?rest = "fresh_line p k @ join (CHR '','' # fresh_line p k) (map f vs) @ fresh_line p d @ CHR '']'' # r"
  have j: "join x (map f (v # vs)) = f v @ x @ join x (map f vs)" for x using cons(1) by (cases vs) simp_all
  have "json_value (fresh_line p k @ f v @ CHR '','' # ?rest) = Some (clean_json v, CHR '','' # ?rest)"
    using cons(3) value_skip[OF skip_line] by simp
  from elems_more[OF this, of ?rest] show ?case using cons(2,3) j by simp
qed

lemma members_one:
  assumes "json_value t = Some (v, t2)"
  shows "skip_ws t2 = CHR ''}'' # r \<Longrightarrow> json_members (fresh_line p k @ quote_json key @ CHR '':'' # t) = Some ([(to_utf8 key, v)], r)"
    and "skip_ws t2 = CHR '','' # r \<Longrightarrow> json_members (fresh_line p k @ quote_json key @ CHR '':'' # t) =
      map_option (\<lambda>(ms, r). ((to_utf8 key, v) # ms, r)) (json_members r)"
proof -
  let ?s = "fresh_line p k @ quote_json key @ CHR '':'' # t"
  have q: "skip_ws ?s = CHR 0x22 # escape_string key @ CHR 0x22 # CHR '':'' # t" by (simp add: quote_json_def)
  have l: "length t < length ?s" by simp
  have m: "json_members ?s = (case skip_ws t2 of [] \<Rightarrow> None | c2 # r3 \<Rightarrow>
      if c2 = CHR ''}'' then Some ([(to_utf8 key, v)], r3)
      else if c2 = CHR '','' \<and> length r3 < length ?s
      then map_option (\<lambda>(ms, r). ((to_utf8 key, v) # ms, r)) (json_members r3) else None)"
    unfolding json_members.simps[of ?s] q
    using l by (simp add: json_chars_back assms to_utf8_def[symmetric])
  show "skip_ws t2 = CHR ''}'' # r \<Longrightarrow> json_members ?s = Some ([(to_utf8 key, v)], r)" unfolding m by simp
  assume c: "skip_ws t2 = CHR '','' # r"
  then have "length r < length ?s" using json_consumes(1)[OF assms] skip_ws_Cons[OF c] l by linarith
  then show "json_members ?s = map_option (\<lambda>(ms, r). ((to_utf8 key, v) # ms, r)) (json_members r)"
    unfolding m c by simp
qed

lemma members_back:
  assumes "kvs \<noteq> []" and "\<forall>(k, v) \<in> set kvs. \<forall>r. stops r \<longrightarrow> json_value (f v @ r) = Some (clean_json v, r)"
    and "\<And>s. skip_ws (sp @ s) = skip_ws s"
  shows "json_members (fresh_line p n @ join (CHR '','' # fresh_line p n)
      (map (\<lambda>(k, v). quote_json k @ CHR '':'' # sp @ f v) kvs) @ fresh_line p d @ CHR ''}'' # r) =
    Some (map (\<lambda>(k, v). (to_utf8 k, clean_json v)) kvs, r)"
  using assms(1,2)
proof (induction kvs rule: list_nonempty_induct)
  case (single kv)
  obtain k v where kv: "kv = (k, v)" by fastforce
  have "json_value (sp @ f v @ fresh_line p d @ CHR ''}'' # r) = Some (clean_json v, fresh_line p d @ CHR ''}'' # r)"
    using single value_skip[OF assms(3)] by (simp add: kv)
  from members_one(1)[OF this, of r p n k] show ?case by (simp add: kv)
next
  case (cons kv kvs)
  obtain k v where kv: "kv = (k, v)" by fastforce
  let ?g = "\<lambda>(k, v). quote_json k @ CHR '':'' # sp @ f v"
  let ?rest = "fresh_line p n @ join (CHR '','' # fresh_line p n) (map ?g kvs) @ fresh_line p d @ CHR ''}'' # r"
  have j: "join x (map ?g (kv # kvs)) = ?g kv @ x @ join x (map ?g kvs)" for x using cons(1) by (cases kvs) simp_all
  have "json_value (sp @ f v @ CHR '','' # ?rest) = Some (clean_json v, CHR '','' # ?rest)"
    using cons(3) value_skip[OF assms(3)] by (simp add: kv)
  from members_one(2)[OF this, of ?rest p n k] show ?case using cons(2,3) unfolding j by (simp add: kv)
qed

lemma print_back:
  "numbers_ok j \<Longrightarrow> stops r \<Longrightarrow> json_value (json_print p d j @ r) = Some (clean_json j, r)"
proof (induction j arbitrary: d r)
  case (JNum n)
  then show ?case using value_number by simp
next
  case (JStr s)
  then show ?case using value_string by simp
next
  case (JArr vs)
  show ?case
  proof (cases "vs = []")
    case True
    then show ?thesis by (simp add: json_value.simps has_prefix_one)
  next
    case False
    let ?s = "fresh_line p (Suc d) @ join (CHR '','' # fresh_line p (Suc d)) (map (json_print p (Suc d)) vs) @ fresh_line p d @ CHR '']'' # r"
    have e: "json_elems ?s = Some (map clean_json vs, r)"
      using JArr False by (intro elems_back) (auto simp: list_all_iff)
    have "\<exists>x. join (CHR '','' # fresh_line p (Suc d)) (map (json_print p (Suc d)) vs) = json_print p (Suc d) (hd vs) @ x"
      using False by (cases vs; cases "tl vs") auto
    then obtain x where x: "skip_ws ?s = skip_ws (json_print p (Suc d) (hd vs) @ x @ fresh_line p d @ CHR '']'' # r)" by auto
    have "numbers_ok (hd vs)" using JArr False by (cases vs) auto
    then have "\<not> has_prefix (skip_ws ?s) '']''"
      unfolding x by (rule print_first[of "hd vs" p "Suc d" "x @ fresh_line p d @ CHR '']'' # r"]) (simp add: has_prefix_one)
    then show ?thesis using False e by (simp add: json_value.simps)
  qed
next
  case (JObj kvs)
  show ?case
  proof (cases "kvs = []")
    case True
    then show ?thesis by (simp add: json_value.simps has_prefix_one)
  next
    case False
    let ?g = "\<lambda>(k, v). quote_json k @ CHR '':'' # (if p then '' '' else []) @ json_print p (Suc d) v"
    let ?s = "fresh_line p (Suc d) @ join (CHR '','' # fresh_line p (Suc d)) (map ?g kvs) @ fresh_line p d @ CHR ''}'' # r"
    have e: "json_members ?s = Some (map (\<lambda>(k, v). (to_utf8 k, clean_json v)) kvs, r)"
      using JObj False by (intro members_back) (auto simp: list_all_iff)
    have "\<exists>x. join (CHR '','' # fresh_line p (Suc d)) (map ?g kvs) = CHR 0x22 # x"
      using False by (cases kvs; cases "tl kvs") (auto simp: quote_json_def)
    then have "\<not> has_prefix (skip_ws ?s) ''}''" by (auto simp: has_prefix_one)
    then show ?thesis using False e by (simp add: json_value.simps)
  qed
qed (simp_all add: json_value.simps json_literal_def has_prefix_def)

lemma parse_print: "numbers_ok j \<Longrightarrow> parse_json (json_print p d j) = Some (clean_json j)"
  using print_back[of j "[]" p d] by (simp add: parse_json_def stops_def)

end
