(* ===== verification/AdminApi.thy ===== *)
theory AdminApi
  imports TaskApi OpenCode JsonPrint
begin

text \<open>
  The other endpoints served from the store and the language model: login and password, API tokens,
  the audit log, rules and webhooks, archives, statistics, unread marks, session events, and the
  configuration and use of the language model. The OpenCode server (\<open>up\<close>) and the language model
  (\<open>http\<close>) are arguments.
\<close>

subsection \<open>Login and password\<close>

text \<open>\<open>login\<close> is the part of \<open>handleWebSession\<close> after the password was read.\<close>

definition register_web_session :: "server \<Rightarrow> (store_error + string) \<times> server" where
  "register_web_session sv =
     (case read_rand 16 sv of (bs, sv1) \<Rightarrow>
       (let sid = hex_of_bytes bs; expires = now (sv_w sv1) + 24 * hour
        in case scall (create_web_session sid expires) sv1 of
             (Inl e, sv2) \<Rightarrow> (Inl e, sv2)
           | (Inr _, sv2) \<Rightarrow> (Inr sid, sv2)))"

definition login :: "crypto \<Rightarrow> string \<Rightarrow> string \<Rightarrow> server \<Rightarrow> reply \<times> server" where
  "login c key pw sv =
     (case allow (now (sv_w sv)) key (sv_login sv) of
        (False, l) \<Rightarrow> (write_err 429 ''too many login attempts, try again later'', sv\<lparr>sv_login := l\<rparr>)
      | (True, l) \<Rightarrow>
          (case scall (verify_password c pw) (sv\<lparr>sv_login := l\<rparr>) of
             (Inl _, sv1) \<Rightarrow> (write_err 500 ''auth error'', sv1)
           | (Inr False, sv1) \<Rightarrow> (write_err 401 ''invalid password'', sv1)
           | (Inr True, sv1) \<Rightarrow>
               (case register_web_session (sv1\<lparr>sv_login := clear key (sv_login sv1)\<rparr>) of
                  (Inl _, sv2) \<Rightarrow> (write_err 500 ''create session failed'', sv2)
                | (Inr sid, sv2) \<Rightarrow> (write_json 200 [(''session'', JStr sid)], sv2))))"

definition logout :: "request \<Rightarrow> server \<Rightarrow> reply \<times> server" where
  "logout r sv = (ok_reply, srun (delete_web_session (header ''X-Web-Session'' r)) sv)"

definition handle_web_session :: "crypto \<Rightarrow> request \<Rightarrow> server \<Rightarrow> reply \<times> server" where
  "handle_web_session c r sv =
     (if q_method r = ''POST'' then
        (case read_body (str_field ''password'') r of
           Inl rp \<Rightarrow> (rp, sv)
         | Inr pw \<Rightarrow> login c (client_key (q_remote r) (header ''X-Forwarded-For'' r)) pw sv)
      else if q_method r = ''DELETE'' then guarded ''not authorized'' (require_web r) (logout r) sv
      else (not_allowed, sv))"

text \<open>The message of a bcrypt or store error is that library's; it is abbreviated.\<close>

fun auth_error_text :: "auth_error \<Rightarrow> string" where
  "auth_error_text WeakPassword = ''password must be at least 8 characters and not a common weak password''"
| "auth_error_text BcryptFailed = ''bcrypt: error''"
| "auth_error_text (StoreErr _) = ''store: error''"

definition change_password :: "crypto \<Rightarrow> request \<Rightarrow> server \<Rightarrow> reply \<times> server" where
  "change_password c r sv =
     (case read_body (str_field ''newPassword'') r of
        Inl rp \<Rightarrow> (rp, sv)
      | Inr pw \<Rightarrow>
          (case scall (set_password c pw) sv of
             (Inl e, sv1) \<Rightarrow> (write_err 400 (auth_error_text e), sv1)
           | (Inr _, sv1) \<Rightarrow> (ok_reply, sv1)))"

definition handle_web_password :: "crypto \<Rightarrow> request \<Rightarrow> server \<Rightarrow> reply \<times> server" where
  "handle_web_password c r sv =
     (if q_method r \<noteq> ''POST'' then (not_allowed, sv)
      else guarded ''not authorized'' (require_web r) (change_password c r) sv)"

subsection \<open>Tokens\<close>

text \<open>\<open>CreateToken\<close> reads 32 random bytes for the token and 12 for its id.\<close>

definition new_token :: "crypto \<Rightarrow> string \<Rightarrow> server \<Rightarrow> (string option + string) \<times> server" where
  "new_token c name sv =
     (case sv_rand sv of
        rb # ib # rest \<Rightarrow> scall (issue_token c (Some rb) (Some ib) name) (sv\<lparr>sv_rand := rest\<rparr>)
      | _ \<Rightarrow> (Inl None, sv\<lparr>sv_rand := []\<rparr>))"

definition list_tokens_page :: "server \<Rightarrow> reply \<times> server" where
  "list_tokens_page sv =
     (case scall list_tokens sv of
        (Inl _, sv1) \<Rightarrow> (write_err 500 ''list tokens failed'', sv1)
      | (Inr ts, sv1) \<Rightarrow> (reply 200 (PTokens ts), sv1))"

definition create_token_page :: "crypto \<Rightarrow> request \<Rightarrow> server \<Rightarrow> reply \<times> server" where
  "create_token_page c r sv =
     (case read_body (str_field ''name'') r of
        Inl rp \<Rightarrow> (rp, sv)
      | Inr name \<Rightarrow>
          if trim_space name = '''' then (write_err 400 ''name is required'', sv)
          else (case new_token c name sv of
                  (Inl _, sv1) \<Rightarrow> (write_err 500 ''create token failed'', sv1)
                | (Inr raw, sv1) \<Rightarrow> (write_json 201 [(''token'', JStr raw)], sv1)))"

definition handle_tokens :: "crypto \<Rightarrow> request \<Rightarrow> server \<Rightarrow> reply \<times> server" where
  "handle_tokens c r = guarded web_or_token_msg (web_or_token c r) (\<lambda>sv.
     if q_method r = ''GET'' then list_tokens_page sv
     else if q_method r = ''POST'' then create_token_page c r sv
     else (not_allowed, sv))"

definition handle_token_by_id :: "crypto \<Rightarrow> request \<Rightarrow> server \<Rightarrow> reply \<times> server" where
  "handle_token_by_id c r = guarded web_or_token_msg (web_or_token c r) (\<lambda>sv.
     if q_method r \<noteq> ''DELETE'' then (not_allowed, sv)
     else let tid = drop (length ''/api/tokens/'') (q_path r)
     in if tid = '''' then (write_err 400 ''missing token id'', sv)
        else case scall (revoke_token tid) sv of
          (Inl _, sv1) \<Rightarrow> (write_err 404 ''token not found'', sv1)
        | (Inr _, sv1) \<Rightarrow> (ok_reply, sv1))"

subsection \<open>The audit log, statistics, unread marks\<close>

definition page_limit :: "request \<Rightarrow> int" where
  "page_limit = q_int ''limit'' 50 (\<lambda>n. 0 < n \<and> n \<le> 500)"

definition handle_audit :: "crypto \<Rightarrow> request \<Rightarrow> server \<Rightarrow> reply \<times> server" where
  "handle_audit c r sv =
     (if q_method r \<noteq> ''GET'' then (not_allowed, sv)
      else guarded web_or_token_msg (web_or_token c r) (\<lambda>sv.
        case scall (list_audit (q_get ''tokenId'' r) (page_limit r)) sv of
          (Inl _, sv1) \<Rightarrow> (write_err 500 ''list audit failed'', sv1)
        | (Inr es, sv1) \<Rightarrow> (reply 200 (PAudit es), sv1)) sv)"

definition stats_page :: "server \<Rightarrow> reply \<times> server" where
  "stats_page sv =
     (case scall task_stats_of sv of
        (Inl _, sv1) \<Rightarrow> (write_err 500 ''task stats failed'', sv1)
      | (Inr st, sv1) \<Rightarrow>
          (case scall (token_usage_by_audit 20) sv1 of
             (Inl _, sv2) \<Rightarrow> (write_err 500 ''token usage failed'', sv2)
           | (Inr us, sv2) \<Rightarrow>
               (case scall count_archives sv2 of
                  (Inl _, sv3) \<Rightarrow> (write_err 500 ''archive count failed'', sv3)
                | (Inr n, sv3) \<Rightarrow> (reply 200 (PStats st us n), sv3))))"

definition handle_stats :: "crypto \<Rightarrow> request \<Rightarrow> server \<Rightarrow> reply \<times> server" where
  "handle_stats c r sv =
     (if q_method r \<noteq> ''GET'' then (not_allowed, sv)
      else guarded web_or_token_msg (web_or_token c r) stats_page sv)"

definition handle_unread_list :: "crypto \<Rightarrow> request \<Rightarrow> server \<Rightarrow> reply \<times> server" where
  "handle_unread_list c r = guarded web_or_token_msg (token_or_web c r) (\<lambda>sv.
     if q_method r \<noteq> ''GET'' then (not_allowed, sv)
     else case scall list_unread sv of
       (Inl _, sv1) \<Rightarrow> (write_err 500 ''list unread failed'', sv1)
     | (Inr ids, sv1) \<Rightarrow> (write_json 200 [(''unread'', JObj (map (\<lambda>i. (i, JBool True)) ids))], sv1))"

definition handle_unread_mark :: "crypto \<Rightarrow> request \<Rightarrow> server \<Rightarrow> reply \<times> server" where
  "handle_unread_mark c r = guarded web_or_token_msg (token_or_web c r) (\<lambda>sv.
     if q_method r \<noteq> ''POST'' then (not_allowed, sv)
     else let sid = trim_prefix (q_path r) ''/api/unread/''
     in if sid = '''' \<or> sid = q_path r \<or> contains sid ''/'' then (write_err 400 ''invalid session id'', sv)
        else case scall (mark_session_read sid) sv of
          (Inl _, sv1) \<Rightarrow> (write_err 500 ''mark read failed'', sv1)
        | (Inr _, sv1) \<Rightarrow> (ok_reply, sv1))"

subsection \<open>Rules and webhooks\<close>

definition rule_req :: "(string \<times> json) list \<Rightarrow> rule option" where
  "rule_req kvs = do {
     n \<leftarrow> str_field ''name'' kvs;
     k \<leftarrow> str_field ''kind'' kvs;
     s \<leftarrow> str_field ''schedule'' kvs;
     d \<leftarrow> str_field ''directory'' kvs;
     p \<leftarrow> str_field ''prompt'' kvs;
     e \<leftarrow> bool_field ''enabled'' kvs;
     Some \<lparr>r_id = '''', r_name = n, r_kind = k, r_schedule = s, r_dir = d, r_prompt = p, r_enabled = e,
       r_last_fired = None, r_created = zero_time\<rparr>}"

definition create_rule_page :: "request \<Rightarrow> server \<Rightarrow> reply \<times> server" where
  "create_rule_page r sv =
     (case read_body rule_req r of
        Inl rp \<Rightarrow> (rp, sv)
      | Inr q \<Rightarrow>
          if r_kind q = '''' \<or> r_prompt q = '''' then (write_err 400 ''kind and prompt are required'', sv)
          else if r_kind q \<notin> {TriggerCron, TriggerGit, TriggerHTTP} then (write_err 400 ''invalid kind'', sv)
          else (case fresh_id ''rule_'' sv of (rid, sv1) \<Rightarrow>
                 (case scall (create_rule (q\<lparr>r_id := rid\<rparr>)) sv1 of
                    (Inl _, sv2) \<Rightarrow> (write_err 500 ''create rule failed'', sv2)
                  | (Inr _, sv2) \<Rightarrow> (reply 201 (PRule (q\<lparr>r_id := rid\<rparr>)), sv2))))"

definition list_rules_page :: "server \<Rightarrow> reply \<times> server" where
  "list_rules_page sv =
     (case scall list_rules sv of
        (Inl _, sv1) \<Rightarrow> (write_err 500 ''list rules failed'', sv1)
      | (Inr rs, sv1) \<Rightarrow> (reply 200 (PRules rs), sv1))"

definition handle_rules :: "crypto \<Rightarrow> request \<Rightarrow> server \<Rightarrow> reply \<times> server" where
  "handle_rules c r = guarded web_or_token_msg (web_or_token c r) (\<lambda>sv.
     if q_method r = ''GET'' then list_rules_page sv
     else if q_method r = ''POST'' then create_rule_page r sv
     else (not_allowed, sv))"

definition rule_executions_page :: "request \<Rightarrow> string \<Rightarrow> server \<Rightarrow> reply \<times> server" where
  "rule_executions_page r rid sv =
     (if q_method r \<noteq> ''GET'' then (not_allowed, sv)
      else case scall (list_rule_executions rid 50) sv of
        (Inl _, sv1) \<Rightarrow> (write_err 500 ''list executions failed'', sv1)
      | (Inr xs, sv1) \<Rightarrow>
          (case scall (count_rule_executions rid) sv1 of
             (Inl _, sv2) \<Rightarrow> (write_err 500 ''count executions failed'', sv2)
           | (Inr n, sv2) \<Rightarrow> (reply 200 (PExecs xs n), sv2)))"

definition handle_rule_by_id :: "crypto \<Rightarrow> request \<Rightarrow> server \<Rightarrow> reply \<times> server" where
  "handle_rule_by_id c r = guarded web_or_token_msg (web_or_token c r) (\<lambda>sv.
     let rest = drop (length ''/api/rules/'') (q_path r)
     in if rest = '''' then (write_err 400 ''missing rule id'', sv)
        else if has_suffix rest ''/executions'' then rule_executions_page r (trim_suffix rest ''/executions'') sv
        else if q_method r \<noteq> ''DELETE'' then (not_allowed, sv)
        else case scall (delete_rule rest) sv of
          (Inl _, sv1) \<Rightarrow> (write_err 404 ''rule not found'', sv1)
        | (Inr _, sv1) \<Rightarrow> (ok_reply, sv1))"

text \<open>\<open>secureCompare\<close> compares digests; \<open>stamp\<close> gives the time and random part of a task id.\<close>

definition secure_compare :: "crypto \<Rightarrow> string \<Rightarrow> string \<Rightarrow> bool" where
  "secure_compare c a b \<longleftrightarrow> cr_sha c a = cr_sha c b"

definition handle_rule_webhook :: "crypto \<Rightarrow> (string \<Rightarrow> string) \<Rightarrow> request \<Rightarrow> server \<Rightarrow> reply \<times> server" where
  "handle_rule_webhook c stamp r sv =
     (let provided = header ''X-Webhook-Secret'' r
      in if q_method r \<noteq> ''POST'' then (not_allowed, sv)
         else if sv_webhook_secret sv = '''' then (write_err 403 ''webhook disabled (no secret configured)'', sv)
         else if provided = '''' \<or> \<not> secure_compare c provided (sv_webhook_secret sv)
         then (write_err 401 ''invalid webhook secret'', sv)
         else (case fire_kind stamp TriggerHTTP (q_get ''target'' r) (sv_w sv) of
                 (Inl _, w) \<Rightarrow> (write_err 500 ''fire rule failed'', sv\<lparr>sv_w := w\<rparr>)
               | (Inr False, w) \<Rightarrow> (write_err 404 ''no matching rule'', sv\<lparr>sv_w := w\<rparr>)
               | (Inr True, w) \<Rightarrow> (write_json 200 [(''fired'', JBool True)], sv\<lparr>sv_w := w\<rparr>)))"

subsection \<open>Archives\<close>

definition id_char :: "char \<Rightarrow> bool" where
  "id_char x \<longleftrightarrow> (let n = of_char x :: int in
     48 \<le> n \<and> n \<le> 57 \<or> 65 \<le> n \<and> n \<le> 90 \<or> 97 \<le> n \<and> n \<le> 122 \<or> n = 45 \<or> n = 95)"

definition is_valid_session_id :: "string \<Rightarrow> bool" where
  "is_valid_session_id sid \<longleftrightarrow> 1 \<le> length sid \<and> length sid \<le> 128 \<and> list_all id_char sid"

definition archive_req :: "(string \<times> json) list \<Rightarrow> (string \<times> string) option" where
  "archive_req kvs = do {
     s \<leftarrow> str_field ''sessionId'' kvs;
     f \<leftarrow> str_field ''format'' kvs;
     Some (s, f)}"

definition message_doc :: "chat_msg \<Rightarrow> json" where
  "message_doc m = JObj [(''role'', JStr (cm_role m)), (''content'', JStr (cm_content m))]"

definition marshal_messages :: "chat_msg list \<Rightarrow> string" where
  "marshal_messages ms = json_print True 0 (JArr (map message_doc ms))"

definition archive_session :: "upstream \<Rightarrow> oc_client \<Rightarrow> request \<Rightarrow> server \<Rightarrow> reply \<times> server" where
  "archive_session up oc r sv =
     (case read_body archive_req r of
        Inl rp \<Rightarrow> (rp, sv)
      | Inr (sid, fmt0) \<Rightarrow>
          if sid = '''' then (write_err 400 ''sessionId is required'', sv)
          else if \<not> is_valid_session_id sid then (write_err 400 ''invalid sessionId'', sv)
          else (let fmt = (if fmt0 = '''' then ''markdown'' else fmt0)
                in if fmt \<noteq> ''markdown'' \<and> fmt \<noteq> ''json'' then (write_err 400 ''format must be markdown or json'', sv)
                   else case fetch_session_messages up oc sid of
                     Inl e \<Rightarrow> (write_err 502 (''opencode: '' @ e), sv)
                   | Inr ms \<Rightarrow>
                       (let txt = (if fmt = ''json'' then marshal_messages ms else export_markdown sid ms)
                        in case fresh_id ''arch_'' sv of (aid, sv1) \<Rightarrow>
                          (case scall (create_archive \<lparr>ar_id = aid, ar_session = sid, ar_title = ''Session '' @ sid,
                                  ar_format = fmt, ar_content = txt, ar_raw = '''', ar_size = int (length txt),
                                  ar_created = zero_time\<rparr>) sv1 of
                             (Inl _, sv2) \<Rightarrow> (write_err 500 ''create archive failed'', sv2)
                           | (Inr _, sv2) \<Rightarrow> (write_json 201 [(''id'', JStr aid),
                                (''size'', JNum (nat_digits (length txt))), (''format'', JStr fmt)], sv2)))))"

definition list_archives_page :: "request \<Rightarrow> server \<Rightarrow> reply \<times> server" where
  "list_archives_page r sv =
     (case scall (list_archives (page_limit r)) sv of
        (Inl _, sv1) \<Rightarrow> (write_err 500 ''list archives failed'', sv1)
      | (Inr as, sv1) \<Rightarrow> (reply 200 (PArchives as), sv1))"

definition handle_archives :: "crypto \<Rightarrow> upstream \<Rightarrow> oc_client \<Rightarrow> request \<Rightarrow> server \<Rightarrow> reply \<times> server" where
  "handle_archives c up oc r = guarded web_or_token_msg (web_or_token c r) (\<lambda>sv.
     if q_method r = ''GET'' then list_archives_page r sv
     else if q_method r = ''POST'' then archive_session up oc r sv
     else (not_allowed, sv))"

definition handle_archive_by_id :: "crypto \<Rightarrow> request \<Rightarrow> server \<Rightarrow> reply \<times> server" where
  "handle_archive_by_id c r = guarded web_or_token_msg (web_or_token c r) (\<lambda>sv.
     let aid = drop (length ''/api/archives/'') (q_path r)
     in if aid = '''' then (write_err 400 ''missing archive id'', sv)
        else if q_method r = ''GET'' then
          (case scall (get_archive aid) sv of
             (Inl _, sv1) \<Rightarrow> (write_err 404 ''archive not found'', sv1)
           | (Inr a, sv1) \<Rightarrow> (reply 200 (PArchive a), sv1))
        else if q_method r = ''DELETE'' then
          (case scall (delete_archive aid) sv of
             (Inl _, sv1) \<Rightarrow> (write_err 404 ''archive not found'', sv1)
           | (Inr _, sv1) \<Rightarrow> (ok_reply, sv1))
        else (not_allowed, sv))"

subsection \<open>An archive reads back\<close>

lemma message_doc_numbers: "numbers_ok (JArr (map message_doc ms))"
  by (simp add: list_all_iff message_doc_def)

lemma keys_clean: "to_utf8 ''role'' = ''role''" "to_utf8 ''content'' = ''content''"
  by code_simp+

lemma marshal_back:
  "parse_json (marshal_messages ms) = Some (JArr (map (\<lambda>m.
     JObj [(''role'', JStr (to_utf8 (cm_role m))), (''content'', JStr (to_utf8 (cm_content m)))]) ms))"
  unfolding marshal_messages_def parse_print[OF message_doc_numbers] by (simp add: message_doc_def keys_clean)

text \<open>
  C31. An archive reads back. Archiving a session as JSON adds one archive of that session whose text,
  read as JSON, is the list of the roles and contents that the server has answered, in order and
  unchanged up to bytes that are no UTF-8.
\<close>
theorem archive_reads_back:
  assumes "w_sched (sv_w sv) = []" and "db_faults (db_of_server sv) = []"
    and "read_body archive_req r = Inr (sid, ''json'')" and "is_valid_session_id sid"
    and "fetch_session_messages up oc sid = Inr ms"
    and "fst (fresh_id ''arch_'' sv) \<notin> ar_id ` set (db_archives (db_of_server sv))"
  shows "\<exists>a. db_archives (db_of_server (snd (archive_session up oc r sv))) = db_archives (db_of_server sv) @ [a] \<and>
     ar_session a = sid \<and> ar_format a = ''json'' \<and> ar_size a = int (length (ar_content a)) \<and>
     parse_json (ar_content a) = Some (JArr (map (\<lambda>m.
       JObj [(''role'', JStr (to_utf8 (cm_role m))), (''content'', JStr (to_utf8 (cm_content m)))]) ms))"
proof -
  obtain aid sv1 where f: "fresh_id ''arch_'' sv = (aid, sv1)" by fastforce
  then have sv1: "sv_w sv1 = sv_w sv" by (auto simp: fresh_id_def read_rand_def split: list.splits)
  have "sid \<noteq> ''''" using assms(4) by (auto simp: is_valid_session_id_def)
  then show ?thesis
    using assms f sv1
    by (simp add: archive_session_def scall_def call_def others_def create_archive_def marshal_back Let_def)
qed

definition one_body :: string where
  "one_body = json_text (JArr [JObj
     [(''info'', JObj [(''role'', JStr ''user'')]),
      (''parts'', JArr [JObj [(''type'', JStr ''text''), (''text'', JStr ''a<b'')]])]])"

definition one_message :: upstream where
  "one_message q = Inr \<lparr>h_code = 200, h_status = ''200 OK'', h_raw = one_body, h_json = Inl '''', h_headers = []\<rparr>"

definition archive_call :: request where
  "archive_call = \<lparr>q_method = ''POST'', q_path = ''/api/archives'', q_query = [], q_headers = [], q_remote = '''', q_host = '''',
     q_body = Doc (JObj [(''sessionId'', JStr ''s1''), (''format'', JStr ''json'')])\<rparr>"

lemma one_body_read:
  "length one_body \<le> 100"
  "case skip_ws one_body of
     c # rest \<Rightarrow> c = CHR ''['' \<and> msg_elems True rest = Some [\<lparr>cm_role = ''user'', cm_content = ''a<b''\<rparr>]
   | [] \<Rightarrow> False"
  by code_simp+

lemma archive_demo:
  "fetch_session_messages one_message (new_client '''') ''s1'' = Inr [\<lparr>cm_role = ''user'', cm_content = ''a<b''\<rparr>]"
  "read_body archive_req archive_call = Inr (''s1'', ''json'')" "is_valid_session_id ''s1''"
  "to_utf8 ''user'' = ''user''" "to_utf8 ''a<b'' = ''a<b''"
proof -
  have "take 268435456 one_body = one_body" using one_body_read(1) by simp
  then show "fetch_session_messages one_message (new_client '''') ''s1'' = Inr [\<lparr>cm_role = ''user'', cm_content = ''a<b''\<rparr>]"
    using one_body_read(2) by (simp add: fetch_session_messages_def one_message_def split: list.splits)
qed code_simp+

lemma archive_reads_back_witness:
  "let sv = new_server '''' \<lparr>w_db = empty_db 0, w_out = [], w_jobs = [], w_sched = []\<rparr>
   in map (parse_json \<circ> ar_content) (db_archives (db_of_server (snd (archive_session one_message (new_client '''') archive_call sv)))) =
     [Some (JArr [JObj [(''role'', JStr ''user''), (''content'', JStr ''a<b'')]])]"
proof -
  let ?sv = "new_server '''' \<lparr>w_db = empty_db 0, w_out = [], w_jobs = [], w_sched = []\<rparr>"
  have sv: "w_sched (sv_w ?sv) = []" "db_faults (db_of_server ?sv) = []" "db_archives (db_of_server ?sv) = []"
    by (simp_all add: new_server_def empty_db_def)
  show ?thesis
    using archive_reads_back[OF sv(1,2) archive_demo(2,3,1)] sv(3) archive_demo(4,5) by (auto simp: Let_def)
qed

end
