(* ===== verification/GoQuote.thy ===== *)
theory GoQuote
  imports JsonPrint
begin

text \<open>
  The verb \<open>%q\<close> of package fmt, which is \<open>strconv.Quote\<close>: a Go string literal. Printable runes stand for
  themselves; quotes, backslashes and the control characters with a letter of their own are escaped
  by a backslash, the others and bytes that are no UTF-8 by their number. \<open>printable\<close> is the table of
  package unicode for the runes beyond ASCII (\<open>strconv.IsPrint\<close>).
\<close>

definition two_hex :: "int \<Rightarrow> string" where
  "two_hex n = [hex_char (n div 16 mod 16), hex_char (n mod 16)]"

definition four_hex :: "int \<Rightarrow> string" where
  "four_hex n = two_hex (n div 256) @ two_hex n"

definition quote_rune :: "(int \<Rightarrow> bool) \<Rightarrow> int \<Rightarrow> string" where
  "quote_rune printable n =
     (if n = 34 \<or> n = 92 then [backslash, chr_of n]
      else if (if n < 128 then 32 \<le> n \<and> n < 127 else printable n) then encode_rune n
      else case map_of [(7, CHR ''a''), (8, CHR ''b''), (12, CHR ''f''), (10, CHR ''n''), (13, CHR ''r''),
                        (9, CHR ''t''), (11, CHR ''v'')] n of
        Some c \<Rightarrow> [backslash, c]
      | None \<Rightarrow>
          if n < 32 \<or> n = 127 then [backslash, CHR ''x''] @ two_hex n
          else if n < 65536 then [backslash, CHR ''u''] @ four_hex n
          else [backslash, CHR ''U''] @ four_hex (n div 65536) @ four_hex n)"

function quote_runes :: "(int \<Rightarrow> bool) \<Rightarrow> string \<Rightarrow> string" where
  "quote_runes printable s =
     (case s of
        [] \<Rightarrow> []
      | b # _ \<Rightarrow>
          (case decode_rune s of (r, n) \<Rightarrow>
             (if r = rune_error \<and> n = 1 then [backslash, CHR ''x''] @ two_hex (byte_of b)
              else quote_rune printable r) @ quote_runes printable (drop n s)))"
  by pat_completeness auto

termination by (relation "measure (\<lambda>(_, s). length s)") (auto dest: decode_rune_pos[OF sym])

declare quote_runes.simps [simp del]

definition go_quote :: "(int \<Rightarrow> bool) \<Rightarrow> string \<Rightarrow> string" where
  "go_quote printable s = [CHR 0x22] @ quote_runes printable s @ [CHR 0x22]"

text \<open>Text of printable ASCII without quotes and backslashes is only put between quotes.\<close>

definition plain_byte :: "char \<Rightarrow> bool" where
  "plain_byte c \<longleftrightarrow> 32 \<le> byte_of c \<and> byte_of c < 127 \<and> byte_of c \<noteq> 34 \<and> byte_of c \<noteq> 92"

lemma quote_plain_byte:
  assumes "plain_byte c"
  shows "quote_runes printable (c # s) = c # quote_runes printable s"
proof -
  have "decode_rune (c # s) = (byte_of c, 1)"
    using assms by (simp add: decode_rune_def plain_byte_def Let_def split: prod.split)
  moreover have "quote_rune printable (byte_of c) = [c]"
    using assms by (auto simp: quote_rune_def plain_byte_def encode_rune_def valid_rune_def rune_error_def chr_of_def byte_of_def)
  moreover have "byte_of c \<noteq> rune_error"
    using assms by (simp add: plain_byte_def rune_error_def)
  ultimately show ?thesis by (subst quote_runes.simps) simp
qed

lemma go_quote_plain: "list_all plain_byte s \<Longrightarrow> go_quote printable s = [CHR 0x22] @ s @ [CHR 0x22]"
proof -
  assume "list_all plain_byte s"
  hence "quote_runes printable s = s"
    by (induction s) (simp_all add: quote_runes.simps[of _ "[]"] quote_plain_byte)
  thus ?thesis by (simp add: go_quote_def)
qed

lemma go_quote_demo:
  "go_quote (\<lambda>_. True) [CHR ''a'', CHR 0x0A, CHR 0x22, CHR 0x01, CHR 0xC3, CHR 0xA9, CHR 0xFF] =
     [CHR 0x22, CHR ''a'', CHR 0x5C, CHR ''n'', CHR 0x5C, CHR 0x22, CHR 0x5C, CHR ''x'', CHR ''0'', CHR ''1'',
      CHR 0xC3, CHR 0xA9, CHR 0x5C, CHR ''x'', CHR ''f'', CHR ''f'', CHR 0x22]"
  by code_simp

end
