(* ===== verification/OpenCodeApi.thy ===== *)
theory OpenCodeApi
  imports OpenCode
begin

text \<open>
  The typed methods of \<open>internal/opencode/client.go\<close>: each is the request it sends, given by method,
  path, query and body (\<open>api_request\<close>), run by the shared \<open>request\<close> (\<open>run_api\<close>). \<open>json:",omitempty"\<close>
  fields are left out of a body when empty.
\<close>

subsection \<open>Path segments\<close>

definition unreserved :: "char \<Rightarrow> bool" where
  "unreserved c \<longleftrightarrow> (let n = of_char c :: int in
     48 \<le> n \<and> n \<le> 57 \<or> 65 \<le> n \<and> n \<le> 90 \<or> 97 \<le> n \<and> n \<le> 122) \<or>
     c \<in> {CHR ''-'', CHR ''_'', CHR ''.'', CHR ''~'', CHR ''$'', CHR ''&'', CHR ''+'', CHR '':'', CHR ''='', CHR ''@''}"

definition upper_hex :: "nat \<Rightarrow> char" where
  "upper_hex n = ''0123456789ABCDEF'' ! n"

text \<open>\<open>url.PathEscape\<close>\<close>

definition path_escape :: "string \<Rightarrow> string" where
  "path_escape s = concat (map (\<lambda>c. if unreserved c then [c]
     else [CHR ''%'', upper_hex (of_char c div 16), upper_hex (of_char c mod 16)]) s)"

text \<open>\<open>url.PathUnescape\<close>\<close>

fun path_unescape :: "string \<Rightarrow> string option" where
  "path_unescape [] = Some []"
| "path_unescape (c # s) =
     (if c = CHR ''%'' then
        (case s of
           a # b # r \<Rightarrow>
             (case (hex_val a, hex_val b) of
                (Some x, Some y) \<Rightarrow> map_option ((#) (chr_of (16 * x + y))) (path_unescape r)
              | _ \<Rightarrow> None)
         | _ \<Rightarrow> None)
      else map_option ((#) c) (path_unescape s))"

subsection \<open>The calls\<close>

datatype (plugins only: code) api_call =
    CreateSession string string string
  | ListAllSessions string
  | ListAllSessionsDetailed string
  | GetSession string
  | GetSessionChildren string
  | ListSessionStatuses
  | UpdateSession string string "(string \<times> json) list"
  | DeleteSession string
  | AbortSession string
  | GetSessionDiff string
  | ShareSession string
  | UnshareSession string
  | SummarizeSession string string string
  | RevertSession string string
  | UnrevertSession string
  | ForkSession string string
  | ExecuteCommand string string string
  | RunShellCommand string string string json
  | PromptAsync string json
  | PromptV2 string json string string
  | SwitchSessionAgent string string string string
  | SwitchSessionModel string string string string string string
  | ListMessages string int string
  | GetMessage string string
  | SearchText string
  | FindFiles string string string int string
  | ReadFile string string
  | ListDirectory string string
  | ListProjects
  | GetProjectDirectories string string string
  | GetCurrentProject
  | ListWorkspaces string string
  | GetServerPaths
  | ListAgents
  | ListCommands
  | ListSkills
  | ListPendingPermissions
  | ReplyToPermission string string string
  | ListPendingQuestions
  | ReplyToQuestion string "string list list"
  | RejectQuestion string
  | GetMcpStatus
  | ConnectMcp string
  | DisconnectMcp string
  | StartMcpAuth string
  | GetProviders
  | ListProviderCatalog
  | GetProviderAuthMethods
  | AuthorizeProviderOAuth string int
  | CompleteProviderOAuth string int string
  | SetProviderApiKey string string
  | RemoveProviderAuth string
  | GetConfig
  | GetGlobalConfig
  | UpdateConfig json
  | UpdateGlobalConfig json
  | DisposeGlobal
  | CreatePty string string
  | UpdatePtySize string int int
  | DeletePty string

type_synonym api_req = "string \<times> string \<times> (string \<times> string) list \<times> json option"

definition opt_pair :: "string \<Rightarrow> string \<Rightarrow> (string \<times> string) list" where
  "opt_pair k v = (if v = '''' then [] else [(k, v)])"

definition opt_str :: "string \<Rightarrow> string \<Rightarrow> (string \<times> json) list" where
  "opt_str k v = (if v = '''' then [] else [(k, JStr v)])"

definition dir_query :: "string \<Rightarrow> string \<Rightarrow> (string \<times> string) list" where
  "dir_query dir ws = opt_pair ''directory'' dir @ opt_pair ''workspace'' ws"

definition str_body :: "(string \<times> string) list \<Rightarrow> json option" where
  "str_body kvs = Some (JObj (map (\<lambda>(k, v). (k, JStr v)) kvs))"

definition limit_pair :: "int \<Rightarrow> (string \<times> string) list" where
  "limit_pair n = (if 0 < n then [(''limit'', int_str n)] else [])"

text \<open>The calls on sessions and messages.\<close>

definition session_request :: "api_call \<Rightarrow> api_req option" where
  "session_request x = (case x of
     CreateSession t p d \<Rightarrow> Some (''POST'', ''/session'', dir_query d '''', Some (JObj (opt_str ''title'' t @ opt_str ''parentID'' p)))
   | ListAllSessions d \<Rightarrow> Some (''GET'', ''/experimental/session'', (''roots'', ''true'') # opt_pair ''directory'' d, None)
   | ListAllSessionsDetailed d \<Rightarrow> Some (''GET'', ''/experimental/session'', opt_pair ''directory'' d, None)
   | GetSession s \<Rightarrow> Some (''GET'', ''/session/'' @ s, [], None)
   | GetSessionChildren s \<Rightarrow> Some (''GET'', ''/session/'' @ s @ ''/children'', [], None)
   | ListSessionStatuses \<Rightarrow> Some (''GET'', ''/session/status'', [], None)
   | UpdateSession s t tm \<Rightarrow> Some (''PATCH'', ''/session/'' @ s, [],
     Some (JObj (opt_str ''title'' t @ (if tm = [] then [] else [(''time'', JObj tm)]))))
   | DeleteSession s \<Rightarrow> Some (''DELETE'', ''/session/'' @ s, [], None)
   | AbortSession s \<Rightarrow> Some (''POST'', ''/session/'' @ s @ ''/abort'', [], None)
   | GetSessionDiff s \<Rightarrow> Some (''GET'', ''/session/'' @ s @ ''/diff'', [], None)
   | ShareSession s \<Rightarrow> Some (''POST'', ''/session/'' @ s @ ''/share'', [], None)
   | UnshareSession s \<Rightarrow> Some (''DELETE'', ''/session/'' @ s @ ''/share'', [], None)
   | SummarizeSession s p m \<Rightarrow> Some (''POST'', ''/session/'' @ s @ ''/summarize'', [],
     str_body [(''modelID'', m), (''providerID'', p)])
   | RevertSession s m \<Rightarrow> Some (''POST'', ''/session/'' @ s @ ''/revert'', [], str_body [(''messageID'', m)])
   | UnrevertSession s \<Rightarrow> Some (''POST'', ''/session/'' @ s @ ''/unrevert'', [], None)
   | ForkSession s m \<Rightarrow> Some (''POST'', ''/session/'' @ s @ ''/fork'', [], str_body [(''messageID'', m)])
   | ExecuteCommand s c a \<Rightarrow> Some (''POST'', ''/session/'' @ s @ ''/command'', [],
     str_body [(''arguments'', a), (''command'', c)])
   | RunShellCommand s a c m \<Rightarrow> Some (''POST'', ''/session/'' @ s @ ''/shell'', [],
     Some (JObj [(''agent'', JStr a), (''command'', JStr c), (''model'', m)]))
   | PromptAsync s b \<Rightarrow> Some (''POST'', ''/session/'' @ s @ ''/prompt_async'', [], Some b)
   | _ \<Rightarrow> None)"

definition message_request :: "api_call \<Rightarrow> api_req option" where
  "message_request x = (case x of
     PromptV2 s b d w \<Rightarrow> Some (''POST'', ''/api/session/'' @ s @ ''/prompt'', dir_query d w, Some b)
   | SwitchSessionAgent s a d w \<Rightarrow> Some (''POST'', ''/api/session/'' @ s @ ''/agent'', dir_query d w, str_body [(''agent'', a)])
   | SwitchSessionModel s p m v d w \<Rightarrow> Some (''POST'', ''/api/session/'' @ s @ ''/model'', dir_query d w,
     str_body [(''modelID'', m), (''providerID'', p), (''variant'', v)])
   | ListMessages s n b \<Rightarrow> Some (''GET'', ''/session/'' @ s @ ''/message'', limit_pair n @ opt_pair ''before'' b, None)
   | GetMessage s m \<Rightarrow> Some (''GET'', ''/session/'' @ s @ ''/message/'' @ m, [], None)
   | _ \<Rightarrow> None)"

text \<open>The calls on files, projects, permissions, questions and the lists of the server.\<close>

definition query_request :: "api_call \<Rightarrow> api_req option" where
  "query_request x = (case x of
     SearchText p \<Rightarrow> Some (''GET'', ''/find'', [(''pattern'', p)], None)
   | FindFiles q ty d n ds \<Rightarrow> Some (''GET'', ''/find/file'', (''query'', q) # opt_pair ''type'' ty @
     opt_pair ''directory'' d @ opt_pair ''dirs'' ds @ limit_pair n, None)
   | ReadFile p d \<Rightarrow> Some (''GET'', ''/file/content'', (''path'', p) # opt_pair ''directory'' d, None)
   | ListDirectory p d \<Rightarrow> Some (''GET'', ''/file'', opt_pair ''path'' p @ opt_pair ''directory'' d, None)
   | ListProjects \<Rightarrow> Some (''GET'', ''/project'', [], None)
   | GetProjectDirectories i d w \<Rightarrow> Some (''GET'', ''/project/'' @ i @ ''/directories'', dir_query d w, None)
   | GetCurrentProject \<Rightarrow> Some (''GET'', ''/project/current'', [], None)
   | ListWorkspaces d w \<Rightarrow> Some (''GET'', ''/experimental/workspace'', dir_query d w, None)
   | GetServerPaths \<Rightarrow> Some (''GET'', ''/path'', [], None)
   | ListAgents \<Rightarrow> Some (''GET'', ''/agent'', [], None)
   | ListCommands \<Rightarrow> Some (''GET'', ''/command'', [], None)
   | ListSkills \<Rightarrow> Some (''GET'', ''/skill'', [], None)
   | ListPendingPermissions \<Rightarrow> Some (''GET'', ''/permission'', [], None)
   | ReplyToPermission i r m \<Rightarrow> Some (''POST'', ''/permission/'' @ i @ ''/reply'', [],
     str_body [(''message'', m), (''reply'', r)])
   | ListPendingQuestions \<Rightarrow> Some (''GET'', ''/question'', [], None)
   | ReplyToQuestion i as \<Rightarrow> Some (''POST'', ''/question/'' @ i @ ''/reply'', [],
     Some (JObj [(''answers'', JArr (map (\<lambda>xs. JArr (map JStr xs)) as))]))
   | RejectQuestion i \<Rightarrow> Some (''POST'', ''/question/'' @ i @ ''/reject'', [], None)
   | GetMcpStatus \<Rightarrow> Some (''GET'', ''/mcp'', [], None)
   | _ \<Rightarrow> None)"

text \<open>The calls that administer the server; their path segments are escaped.\<close>

definition admin_request :: "api_call \<Rightarrow> api_req option" where
  "admin_request x = (case x of
     ConnectMcp n \<Rightarrow> Some (''POST'', ''/mcp/'' @ path_escape n @ ''/connect'', [], None)
   | DisconnectMcp n \<Rightarrow> Some (''POST'', ''/mcp/'' @ path_escape n @ ''/disconnect'', [], None)
   | StartMcpAuth n \<Rightarrow> Some (''POST'', ''/mcp/'' @ path_escape n @ ''/auth'', [], None)
   | GetProviders \<Rightarrow> Some (''GET'', ''/config/providers'', [], None)
   | ListProviderCatalog \<Rightarrow> Some (''GET'', ''/provider'', [], None)
   | GetProviderAuthMethods \<Rightarrow> Some (''GET'', ''/provider/auth'', [], None)
   | AuthorizeProviderOAuth i m \<Rightarrow> Some (''POST'', ''/provider/'' @ path_escape i @ ''/oauth/authorize'', [],
     Some (JObj [(''method'', JNum (int_str m))]))
   | CompleteProviderOAuth i m c \<Rightarrow> Some (''POST'', ''/provider/'' @ path_escape i @ ''/oauth/callback'', [],
     Some (JObj (opt_str ''code'' c @ [(''method'', JNum (int_str m))])))
   | SetProviderApiKey i k \<Rightarrow> Some (''PUT'', ''/auth/'' @ path_escape i, [],
     str_body [(''key'', k), (''type'', ''api'')])
   | RemoveProviderAuth i \<Rightarrow> Some (''DELETE'', ''/auth/'' @ path_escape i, [], None)
   | GetConfig \<Rightarrow> Some (''GET'', ''/config'', [], None)
   | GetGlobalConfig \<Rightarrow> Some (''GET'', ''/global/config'', [], None)
   | UpdateConfig p \<Rightarrow> Some (''PATCH'', ''/config'', [], Some p)
   | UpdateGlobalConfig p \<Rightarrow> Some (''PATCH'', ''/global/config'', [], Some p)
   | DisposeGlobal \<Rightarrow> Some (''POST'', ''/global/dispose'', [], None)
   | CreatePty t c \<Rightarrow> Some (''POST'', ''/pty'', [], Some (JObj (opt_str ''title'' t @ opt_str ''cwd'' c)))
   | UpdatePtySize i r c \<Rightarrow> Some (''PUT'', ''/pty/'' @ path_escape i, [],
     Some (JObj [(''size'', JObj [(''rows'', JNum (int_str r)), (''cols'', JNum (int_str c))])]))
   | DeletePty i \<Rightarrow> Some (''DELETE'', ''/pty/'' @ path_escape i, [], None)
   | _ \<Rightarrow> None)"

definition api_request :: "api_call \<Rightarrow> api_req" where
  "api_request x = (case session_request x of
     Some q \<Rightarrow> q
   | None \<Rightarrow> (case message_request x of Some q \<Rightarrow> q
   | None \<Rightarrow> (case query_request x of Some q \<Rightarrow> q | None \<Rightarrow> the (admin_request x))))"

definition run_api :: "upstream \<Rightarrow> oc_client \<Rightarrow> api_call \<Rightarrow> string + string" where
  "run_api up oc x = (case api_request x of (m, p, q, b) \<Rightarrow> oc_call up oc m p q b)"

lemma every_call_has_a_request: "session_request x \<noteq> None \<or> message_request x \<noteq> None \<or> query_request x \<noteq> None \<or> admin_request x \<noteq> None"
  by (cases x) (simp_all add: session_request_def message_request_def query_request_def admin_request_def)

end
