(* ===== verification/Origin.thy ===== *)
theory Origin
  imports Web OpenCodeApi
begin

text \<open>
  Which pages may open a web socket: \<open>CheckOrigin\<close> of the upgrader in \<open>internal/server/orchestrate.go\<close>,
  with the host that \<open>url.Parse\<close> reads from the \<open>Origin\<close> header. \<open>None\<close> is a parse error. The reading of
  an address literal in brackets is a parameter: it differs between releases of \<open>net/url\<close>.
\<close>

subsection \<open>\<open>url.Parse\<close>\<close>

definition is_letter :: "char \<Rightarrow> bool" where
  "is_letter c \<longleftrightarrow> (let n = byte_of c in 97 \<le> n \<and> n \<le> 122 \<or> 65 \<le> n \<and> n \<le> 90)"

definition is_digit :: "char \<Rightarrow> bool" where
  "is_digit c \<longleftrightarrow> 48 \<le> byte_of c \<and> byte_of c \<le> 57"

datatype scheme = NoScheme | BadScheme | Scheme string string

text \<open>\<open>seen\<close>: what has been passed so far.\<close>

fun get_scheme :: "string \<Rightarrow> string \<Rightarrow> scheme" where
  "get_scheme seen [] = NoScheme"
| "get_scheme seen (c # s) =
     (if is_letter c then get_scheme (seen @ [c]) s
      else if is_digit c \<or> c \<in> {CHR ''+'', CHR ''-'', CHR ''.''} then
        (if seen = [] then NoScheme else get_scheme (seen @ [c]) s)
      else if c = CHR '':'' then (if seen = [] then BadScheme else Scheme seen s)
      else NoScheme)"

definition host_char :: "char \<Rightarrow> bool" where
  "host_char c \<longleftrightarrow> is_letter c \<or> is_digit c \<or> 128 \<le> byte_of c \<or>
     c \<in> {CHR ''!'', CHR ''$'', CHR ''&'', CHR 0x27, CHR ''('', CHR '')'', CHR ''*'', CHR ''+'', CHR '','', CHR '';'',
       CHR ''='', CHR '':'', CHR ''['', CHR '']'', CHR ''<'', CHR ''>'', CHR 0x22, CHR ''-'', CHR ''_'', CHR ''.'', CHR ''~''}"

text \<open>Only bytes outside ASCII and the percent sign may be escaped in a host.\<close>

fun host_unescape :: "string \<Rightarrow> string option" where
  "host_unescape [] = Some []"
| "host_unescape (c # s) =
     (if c = CHR ''%'' then
        (case s of
           a # b # r \<Rightarrow>
             (case (hex_val a, hex_val b) of
                (Some x, Some y) \<Rightarrow>
                  if x < 8 \<and> \<not> (a = CHR ''2'' \<and> b = CHR ''5'') then None
                  else map_option ((#) (chr_of (16 * x + y))) (host_unescape r)
              | _ \<Rightarrow> None)
         | _ \<Rightarrow> None)
      else if host_char c then map_option ((#) c) (host_unescape s) else None)"

definition valid_port :: "string \<Rightarrow> bool" where
  "valid_port p \<longleftrightarrow> p = [] \<or> hd p = CHR '':'' \<and> list_all is_digit (tl p)"

text \<open>The text from the last colon on.\<close>

definition from_last :: "char \<Rightarrow> string \<Rightarrow> string" where
  "from_last c s = (if c \<in> set s then c # rev (takeWhile (\<lambda>x. x \<noteq> c) (rev s)) else [])"

definition parse_host :: "(string \<Rightarrow> string option) \<Rightarrow> string \<Rightarrow> string option" where
  "parse_host literal h =
     (if CHR ''['' \<in> set h then literal h
      else if valid_port (from_last (CHR '':'') h) then host_unescape h else None)"

definition userinfo_char :: "char \<Rightarrow> bool" where
  "userinfo_char c \<longleftrightarrow> is_letter c \<or> is_digit c \<or>
     c \<in> {CHR ''-'', CHR ''.'', CHR ''_'', CHR '':'', CHR ''~'', CHR ''!'', CHR ''$'', CHR ''&'', CHR 0x27, CHR ''('',
       CHR '')'', CHR ''*'', CHR ''+'', CHR '','', CHR '';'', CHR ''='', CHR ''%'', CHR ''@''}"

definition parse_authority :: "(string \<Rightarrow> string option) \<Rightarrow> string \<Rightarrow> string option" where
  "parse_authority literal a =
     (if CHR ''@'' \<notin> set a then parse_host literal a
      else let host = tl (from_last (CHR ''@'') a); user = take (length a - length host - 1) a
           in if list_all userinfo_char user \<and> path_unescape user \<noteq> None then parse_host literal host else None)"

text \<open>The host of a reference after its scheme, query and fragment have been taken off.\<close>

definition rest_host :: "(string \<Rightarrow> string option) \<Rightarrow> bool \<Rightarrow> string \<Rightarrow> string option" where
  "rest_host literal has_scheme rest =
     (if \<not> has_prefix rest ''/'' \<and> has_scheme then Some []
      else if \<not> has_prefix rest ''/'' \<and> CHR '':'' \<in> set (takeWhile (\<lambda>c. c \<noteq> CHR ''/'') rest) then None
      else if (has_scheme \<or> \<not> has_prefix rest ''///'') \<and> has_prefix rest ''//'' then
        (let a = takeWhile (\<lambda>c. c \<noteq> CHR ''/'') (drop 2 rest); path = dropWhile (\<lambda>c. c \<noteq> CHR ''/'') (drop 2 rest)
         in case parse_authority literal a of
              None \<Rightarrow> None
            | Some h \<Rightarrow> if path_unescape path = None then None else Some h)
      else if path_unescape rest = None then None
      else Some [])"

definition reference_host :: "(string \<Rightarrow> string option) \<Rightarrow> string \<Rightarrow> string option" where
  "reference_host literal u =
     (if \<exists>c \<in> set u. byte_of c < 32 \<or> byte_of c = 127 then None
      else if u = ''*'' then Some []
      else let before = takeWhile (\<lambda>c. c \<noteq> CHR ''?'')
           in case get_scheme [] u of
                BadScheme \<Rightarrow> None
              | NoScheme \<Rightarrow> rest_host literal False (before u)
              | Scheme _ rest \<Rightarrow> rest_host literal True (before rest))"

definition url_host :: "(string \<Rightarrow> string option) \<Rightarrow> string \<Rightarrow> string option" where
  "url_host literal s =
     (let u = takeWhile (\<lambda>c. c \<noteq> CHR ''#'') s; fragment = tl (dropWhile (\<lambda>c. c \<noteq> CHR ''#'') s)
      in case reference_host literal u of
           None \<Rightarrow> None
         | Some h \<Rightarrow> if fragment \<noteq> [] \<and> path_unescape fragment = None then None else Some h)"

lemma url_host_demo:
  "url_host (\<lambda>_. None) ''https://example.com:8080'' = Some ''example.com:8080''"
  "url_host (\<lambda>_. None) ''https://user:pw@example.com/x?y#z'' = Some ''example.com''"
  "url_host (\<lambda>_. None) ''null'' = Some []"
  "url_host (\<lambda>_. None) ''mailto:a@b'' = Some []"
  "url_host (\<lambda>_. None) ''http://a b'' = None"
  "url_host (\<lambda>_. None) ''http://a:x'' = None"
  "url_host (\<lambda>_. None) '':x'' = None"
  by code_simp+

subsection \<open>The check\<close>

text \<open>A client without the header is no browser.\<close>

definition check_origin :: "(string \<Rightarrow> string option) \<Rightarrow> request \<Rightarrow> bool" where
  "check_origin literal r \<longleftrightarrow> header ''Origin'' r = [] \<or> url_host literal (header ''Origin'' r) = Some (q_host r)"

text \<open>An origin as browsers send it: a scheme and a host, perhaps with a port.\<close>

definition is_scheme :: "string \<Rightarrow> bool" where
  "is_scheme s \<longleftrightarrow> s \<noteq> [] \<and> list_all is_letter s"

definition site_char :: "char \<Rightarrow> bool" where
  "site_char c \<longleftrightarrow> is_letter c \<or> is_digit c \<or> c \<in> {CHR ''-'', CHR ''.'', CHR ''_''}"

definition is_site :: "string \<Rightarrow> bool" where
  "is_site s \<longleftrightarrow> (\<exists>h p. s = h @ p \<and> h \<noteq> [] \<and> list_all site_char h \<and> valid_port p)"

lemma get_scheme_letters:
  "list_all is_letter s \<Longrightarrow> seen @ s \<noteq> [] \<Longrightarrow> get_scheme seen (s @ CHR '':'' # rest) = Scheme (seen @ s) rest"
proof (induction s arbitrary: seen)
  case Nil
  have "\<not> is_letter (CHR '':'')" "\<not> is_digit (CHR '':'')" by code_simp+
  then show ?case using Nil by simp
qed simp

lemma host_unescape_plain: "list_all host_char s \<Longrightarrow> CHR ''%'' \<notin> set s \<Longrightarrow> host_unescape s = Some s"
  by (induction s) auto

definition odd_chars :: string where
  "odd_chars = ''/?#@%[''"

lemma site_char_plain: "site_char c \<Longrightarrow> host_char c \<and> c \<notin> set odd_chars \<and> c \<noteq> CHR '':'' \<and> 32 \<le> byte_of c \<and> byte_of c < 127"
proof -
  assume s: "site_char c"
  have odd: "\<not> site_char x" if "x \<in> set odd_chars \<union> {CHR '':''}" for x
  proof -
    have "list_all (\<lambda>x. \<not> site_char x) (CHR '':'' # odd_chars)" by code_simp
    then show ?thesis using that by (auto simp: list_all_iff)
  qed
  have "byte_of (CHR ''-'') = 45" "byte_of (CHR ''.'') = 46" "byte_of (CHR ''_'') = 95" by code_simp+
  then have "32 \<le> byte_of c \<and> byte_of c < 127"
    using s by (auto simp: site_char_def is_letter_def is_digit_def Let_def)
  moreover have "host_char c" using s by (auto simp: site_char_def host_char_def)
  ultimately show ?thesis using odd[of c] s by auto
qed


lemma digit_site: "is_digit c \<Longrightarrow> site_char c"
  by (simp add: site_char_def)

lemma site_chars:
  assumes "is_site s" and "c \<in> set s"
  shows "host_char c" and "c \<notin> set odd_chars" and "32 \<le> byte_of c" and "byte_of c < 127"
proof -
  have colon: "host_char (CHR '':'') \<and> CHR '':'' \<notin> set odd_chars \<and> 32 \<le> byte_of (CHR '':'') \<and> byte_of (CHR '':'') < 127"
    by code_simp
  obtain h p where s: "s = h @ p" "list_all site_char h" "valid_port p" using assms(1) by (auto simp: is_site_def)
  have "site_char c \<or> c = CHR '':''"
    using assms(2) s digit_site by (cases p) (auto simp: valid_port_def list_all_iff)
  then show "host_char c" "c \<notin> set odd_chars" "32 \<le> byte_of c" "byte_of c < 127"
    using colon site_char_plain by blast+
qed

lemma site_port:
  assumes "is_site s"
  shows "valid_port (from_last (CHR '':'') s)"
proof -
  obtain h p where s: "s = h @ p" "list_all site_char h" "valid_port p" using assms by (auto simp: is_site_def)
  have nocolon: "CHR '':'' \<notin> set xs" if "list_all site_char xs" for xs
    using that site_char_plain by (auto simp: list_all_iff)
  show ?thesis
  proof (cases p)
    case Nil
    then show ?thesis using s nocolon[OF s(2)] by (simp add: from_last_def valid_port_def)
  next
    case (Cons c ds)
    then have c: "c = CHR '':''" "list_all site_char ds" "list_all is_digit ds"
      using s(3) digit_site by (auto simp: valid_port_def list_all_iff)
    have "takeWhile (\<lambda>x. x \<noteq> CHR '':'') (rev ds @ CHR '':'' # rev h) = rev ds"
      using nocolon[OF c(2)] by (subst takeWhile_append2) auto
    then show ?thesis using c s(1) Cons by (simp add: from_last_def valid_port_def)
  qed
qed

lemma parse_site: "is_site s \<Longrightarrow> parse_authority literal s = Some s"
  using site_chars[of s] site_port[of s] host_unescape_plain[of s]
  by (auto simp: parse_authority_def parse_host_def odd_chars_def list_all_iff)

lemma letter_plain: "is_letter c \<Longrightarrow> site_char c"
  by (simp add: site_char_def)

lemma browser_origin_host:
  assumes "is_scheme sch" and "is_site s"
  shows "url_host literal (sch @ ''://'' @ s) = Some s"
proof -
  let ?u = "sch @ ''://'' @ s"
  have sch: "list_all is_letter sch" "sch \<noteq> []" using assms(1) by (simp_all add: is_scheme_def)
  have plain: "32 \<le> byte_of c \<and> byte_of c < 127 \<and> c \<noteq> CHR ''#'' \<and> c \<noteq> CHR ''?''" if "c \<in> set ?u" for c
  proof -
    have "list_all (\<lambda>c. 32 \<le> byte_of c \<and> byte_of c < 127 \<and> c \<noteq> CHR ''#'' \<and> c \<noteq> CHR ''?'') ''://''" by code_simp
    moreover have "CHR ''#'' \<in> set odd_chars" "CHR ''?'' \<in> set odd_chars" by code_simp+
    ultimately show ?thesis
      using that sch(1) site_char_plain[OF letter_plain, of c] site_chars[OF assms(2), of c]
      by (auto simp: list_all_iff)
  qed
  have "CHR ''/'' \<in> set odd_chars" by code_simp
  then have slash: "\<forall>c \<in> set s. c \<noteq> CHR ''/''" using site_chars(2)[OF assms(2)] by blast
  have whole: "takeWhile (\<lambda>c. c \<noteq> CHR ''#'') ?u = ?u" "dropWhile (\<lambda>c. c \<noteq> CHR ''#'') ?u = []"
    using plain by (auto simp: takeWhile_eq_all_conv dropWhile_eq_Nil_conv)
  have rest: "takeWhile (\<lambda>c. c \<noteq> CHR ''?'') (''//'' @ s) = ''//'' @ s"
    using plain by (auto simp: takeWhile_eq_all_conv)
  have parts: "takeWhile (\<lambda>c. c \<noteq> CHR ''/'') s = s" "dropWhile (\<lambda>c. c \<noteq> CHR ''/'') s = []"
    using slash by (auto simp: takeWhile_eq_all_conv dropWhile_eq_Nil_conv)
  have "get_scheme [] ?u = Scheme sch (''//'' @ s)" using get_scheme_letters[OF sch(1), of "[]" "''//'' @ s"] sch(2) by simp
  moreover have "rest_host literal True (''//'' @ s) = Some s"
    by (simp add: parts rest_host_def has_prefix_def parse_site[OF assms(2)])
  moreover have "?u \<noteq> ''*''" by simp
  moreover have "\<not> (byte_of c < 32 \<or> byte_of c = 127)" if "c \<in> set ?u" for c using plain[OF that] by linarith
  then have "\<not> (\<exists>c \<in> set ?u. byte_of c < 32 \<or> byte_of c = 127)" by blast
  ultimately have "reference_host literal ?u = Some s"
    unfolding reference_host_def Let_def by (simp only: rest if_False scheme.case)
  then show ?thesis unfolding url_host_def Let_def whole by simp
qed

text \<open>For the origin a browser sends, the check is equality of the hosts.\<close>

lemma check_browser_origin:
  assumes "header ''Origin'' r = sch @ ''://'' @ s" and "is_scheme sch" and "is_site s"
  shows "check_origin literal r \<longleftrightarrow> s = q_host r"
  using browser_origin_host[OF assms(2,3), of literal] by (simp add: check_origin_def assms(1))

end
