(* ===== verification/LlmApi.thy ===== *)
theory LlmApi
  imports AdminApi GoQuote Origin
begin

text \<open>
  The endpoints around the language model: its configuration, suggestions and completions, drafts of
  rules and of task plans, the streamed draft (\<open>llm_*.go\<close>, \<open>rules_generate.go\<close>,
  \<open>tasks_generate.go\<close>), and the setting up of the two push channels (\<open>handleWebSocket\<close>,
  \<open>handleStream\<close>) up to the point where the connection is established. The texts of the system
  prompts are an argument (\<open>prompts\<close>).
\<close>

record prompts =
  pr_suggest :: string
  pr_rule :: string
  pr_task :: string
  pr_refine :: "string \<times> string"

subsection \<open>Configuration\<close>

definition get_llm_config :: "server \<Rightarrow> reply" where
  "get_llm_config sv =
     (let (url, key, model) = (case sv_llm sv of None \<Rightarrow> ('''', '''', '''') | Some c \<Rightarrow> snapshot c)
      in write_json 200 [(''url'', JStr url), (''model'', JStr model), (''keySet'', JBool (key \<noteq> '''')),
           (''enabled'', JBool (llm_enabled (sv_llm sv)))])"

definition llm_req :: "(string \<times> json) list \<Rightarrow> (string \<times> string \<times> string) option" where
  "llm_req kvs = do {
     u \<leftarrow> str_field ''url'' kvs;
     k \<leftarrow> str_field ''key'' kvs;
     m \<leftarrow> str_field ''model'' kvs;
     Some (u, k, m)}"

definition update_llm_config :: "request \<Rightarrow> server \<Rightarrow> reply \<times> server" where
  "update_llm_config r sv =
     (case sv_llm sv of
        None \<Rightarrow> (write_err 503 ''llm not configured'', sv)
      | Some c \<Rightarrow>
          (case read_body llm_req r of
             Inl rp \<Rightarrow> (rp, sv)
           | Inr (url, key0, model) \<Rightarrow>
               (let key = (if key0 = '''' then lc_key c else key0);
                    sv1 = srun (set_setting ''llm.model'' model)
                            (srun (set_setting ''llm.key'' key) (srun (set_setting ''llm.url'' url) sv));
                    sv2 = sv1\<lparr>sv_llm := Some (set_config url key model)\<rparr>
                in (get_llm_config sv2, sv2))))"

definition handle_llm_config :: "request \<Rightarrow> server \<Rightarrow> reply \<times> server" where
  "handle_llm_config r = guarded ''web session required'' (require_web r) (\<lambda>sv.
     if q_method r = ''GET'' then (get_llm_config sv, sv)
     else if q_method r = ''POST'' then update_llm_config r sv
     else (not_allowed, sv))"

text \<open>\<open>loadLLMConfig\<close> of \<open>main.go\<close>: stored settings first, then the flags, which are then stored.\<close>

definition load_setting :: "string \<Rightarrow> string \<Rightarrow> db \<Rightarrow> string \<times> db" where
  "load_setting k flag s =
     (case get_setting k s of
        (Inr v, s1) \<Rightarrow>
          if v \<noteq> '''' then (v, s1)
          else (flag, if flag \<noteq> '''' then snd (set_setting k flag s1) else s1)
      | (Inl _, s1) \<Rightarrow> (flag, if flag \<noteq> '''' then snd (set_setting k flag s1) else s1))"

definition load_llm_config :: "string \<times> string \<times> string \<Rightarrow> db \<Rightarrow> llm_config \<times> db" where
  "load_llm_config flags s =
     (case flags of (fu, fk, fm) \<Rightarrow>
        case load_setting ''llm.url'' fu s of (url, s1) \<Rightarrow>
        case load_setting ''llm.key'' fk s1 of (key, s2) \<Rightarrow>
        case load_setting ''llm.model'' fm s2 of (model, s3) \<Rightarrow> (set_config url key model, s3))"

subsection \<open>Suggestions and completions\<close>

text \<open>
  The opening of the endpoints an API token pays for: token, method, a configured model, and the
  limit per token, in this order.
\<close>

definition metered :: "crypto \<Rightarrow> request \<Rightarrow> (server \<Rightarrow> reply \<times> server) \<Rightarrow> server \<Rightarrow> reply \<times> server" where
  "metered c r h sv =
     (case require_token c r sv of
        (None, sv1) \<Rightarrow> (write_err 401 ''invalid token'', sv1)
      | (Some t, sv1) \<Rightarrow>
          if q_method r \<noteq> ''POST'' then (not_allowed, sv1)
          else if \<not> llm_enabled (sv_llm sv1) then (write_err 503 ''orchestration LLM is not configured'', sv1)
          else (case allow (now (sv_w sv1)) (tok_id t) (sv_gen sv1) of
                  (False, l) \<Rightarrow> (write_err 429 ''rate limit exceeded'', sv1\<lparr>sv_gen := l\<rparr>)
                | (True, l) \<Rightarrow> h (sv1\<lparr>sv_gen := l\<rparr>)))"

definition ask_req :: "(string \<times> json) list \<Rightarrow> (string \<times> string) option" where
  "ask_req kvs = do {
     s \<leftarrow> str_field ''system'' kvs;
     u \<leftarrow> str_field ''user'' kvs;
     Some (s, u)}"

definition generate_page :: "llm_http \<Rightarrow> prompts \<Rightarrow> request \<Rightarrow> server \<Rightarrow> reply \<times> server" where
  "generate_page http pr r sv =
     (case read_body ask_req r of
        Inl rp \<Rightarrow> (rp, sv)
      | Inr (sys0, user) \<Rightarrow>
          if user = '''' then (write_err 400 ''empty user context'', sv)
          else (case complete_json http (sv_llm sv) (if sys0 = '''' then pr_suggest pr else sys0) user (as_list as_str) of
                  Inl e \<Rightarrow> (write_err 502 (''generate suggestions failed: '' @ e), sv)
                | Inr [] \<Rightarrow> (write_err 502 ''model returned no suggestions'', sv)
                | Inr (x # xs) \<Rightarrow> (write_json 200 [(''suggestions'', JArr (map JStr (x # xs)))], sv)))"

definition handle_llm_generate :: "crypto \<Rightarrow> llm_http \<Rightarrow> prompts \<Rightarrow> request \<Rightarrow> server \<Rightarrow> reply \<times> server" where
  "handle_llm_generate c http pr r = metered c r (generate_page http pr r)"

definition complete_page :: "llm_http \<Rightarrow> request \<Rightarrow> server \<Rightarrow> reply \<times> server" where
  "complete_page http r sv =
     (case read_body ask_req r of
        Inl rp \<Rightarrow> (rp, sv)
      | Inr (sys, user) \<Rightarrow>
          if user = '''' then (write_err 400 ''empty user context'', sv)
          else (case complete http (sv_llm sv) sys user of
                  Inl e \<Rightarrow> (write_err 502 (''complete failed: '' @ e), sv)
                | Inr txt \<Rightarrow> (write_json 200 [(''text'', JStr txt)], sv)))"

definition handle_llm_complete :: "crypto \<Rightarrow> llm_http \<Rightarrow> request \<Rightarrow> server \<Rightarrow> reply \<times> server" where
  "handle_llm_complete c http r = metered c r (complete_page http r)"

subsection \<open>Drafts of rules\<close>

text \<open>The draft is decoded like a rule of a request and written back with the same fields.\<close>

definition rule_draft_json :: "rule \<Rightarrow> json" where
  "rule_draft_json q = JObj [(''name'', JStr (r_name q)), (''kind'', JStr (r_kind q)),
     (''schedule'', JStr (r_schedule q)), (''directory'', JStr (r_dir q)), (''prompt'', JStr (r_prompt q)),
     (''enabled'', JBool (r_enabled q))]"

definition rule_generate_page :: "llm_http \<Rightarrow> prompts \<Rightarrow> request \<Rightarrow> server \<Rightarrow> reply \<times> server" where
  "rule_generate_page http pr r sv =
     (if q_method r \<noteq> ''POST'' then (not_allowed, sv)
      else if \<not> llm_enabled (sv_llm sv) then (write_err 503 ''orchestration LLM is not configured'', sv)
      else case read_body (str_field ''description'') r of
        Inl rp \<Rightarrow> (rp, sv)
      | Inr d \<Rightarrow>
          if d = '''' then (write_err 400 ''description is required'', sv)
          else (case complete_json http (sv_llm sv) (pr_rule pr) d (as_obj rule_req) of
                  Inl e \<Rightarrow> (write_err 502 (''generate rule failed: '' @ e), sv)
                | Inr q \<Rightarrow>
                    if r_kind q \<notin> {TriggerCron, TriggerGit, TriggerHTTP}
                    then (write_err 502 ''model returned invalid kind'', sv)
                    else if r_prompt q = '''' then (write_err 502 ''model returned empty prompt'', sv)
                    else (write_json 200 [(''draft'', rule_draft_json q)], sv)))"

definition handle_rule_generate :: "crypto \<Rightarrow> llm_http \<Rightarrow> prompts \<Rightarrow> request \<Rightarrow> server \<Rightarrow> reply \<times> server" where
  "handle_rule_generate c http pr r = guarded web_or_token_msg (web_or_token c r) (rule_generate_page http pr r)"

subsection \<open>Drafts of task plans\<close>

record step_draft =
  sd_name :: string
  sd_prompt :: string
  sd_dir :: string

record schedule_draft =
  sc_type :: string
  sc_minutes :: int
  sc_cron :: string
  sc_at :: string

text \<open>\<open>pd_steps\<close> is \<open>None\<close> for the nil slice, which is written as \<open>null\<close>.\<close>

record plan_draft =
  pd_name :: string
  pd_dir :: string
  pd_steps :: "step_draft list option"
  pd_schedule :: "schedule_draft option"

definition step_draft_of :: "(string \<times> json) list \<Rightarrow> step_draft option" where
  "step_draft_of kvs = do {
     n \<leftarrow> str_field ''name'' kvs;
     p \<leftarrow> str_field ''prompt'' kvs;
     d \<leftarrow> str_field ''directory'' kvs;
     Some \<lparr>sd_name = n, sd_prompt = p, sd_dir = d\<rparr>}"

definition schedule_draft_of :: "(string \<times> json) list \<Rightarrow> schedule_draft option" where
  "schedule_draft_of kvs = do {
     t \<leftarrow> str_field ''type'' kvs;
     m \<leftarrow> int_field ''minutes'' kvs;
     c \<leftarrow> str_field ''cron'' kvs;
     a \<leftarrow> str_field ''at'' kvs;
     Some \<lparr>sc_type = t, sc_minutes = m, sc_cron = c, sc_at = a\<rparr>}"

definition plan_draft_of :: "(string \<times> json) list \<Rightarrow> plan_draft option" where
  "plan_draft_of kvs = do {
     n \<leftarrow> str_field ''name'' kvs;
     d \<leftarrow> str_field ''directory'' kvs;
     s \<leftarrow> ptr_field (as_list (as_obj step_draft_of)) ''steps'' kvs;
     sc \<leftarrow> ptr_field (as_obj schedule_draft_of) ''schedule'' kvs;
     Some \<lparr>pd_name = n, pd_dir = d, pd_steps = s, pd_schedule = sc\<rparr>}"

definition step_json :: "step_draft \<Rightarrow> json" where
  "step_json s = JObj [(''name'', JStr (sd_name s)), (''prompt'', JStr (sd_prompt s)), (''directory'', JStr (sd_dir s))]"

definition schedule_json :: "schedule_draft option \<Rightarrow> json" where
  "schedule_json sc = (case sc of
     None \<Rightarrow> JNull
   | Some s \<Rightarrow> JObj [(''type'', JStr (sc_type s)), (''minutes'', JNum (int_str (sc_minutes s))),
       (''cron'', JStr (sc_cron s)), (''at'', JStr (sc_at s))])"

definition plan_json :: "plan_draft \<Rightarrow> json" where
  "plan_json p = JObj [(''name'', JStr (pd_name p)), (''directory'', JStr (pd_dir p)),
     (''steps'', (case pd_steps p of None \<Rightarrow> JNull | Some ss \<Rightarrow> JArr (map step_json ss))), (''schedule'', schedule_json (pd_schedule p))]"

definition schedule_types :: "string list" where
  "schedule_types = ['''', ''immediate'', ''delay'', ''at'', ''cron'']"

definition draft_steps :: "plan_draft \<Rightarrow> step_draft list" where
  "draft_steps p = (case pd_steps p of None \<Rightarrow> [] | Some ss \<Rightarrow> ss)"

text \<open>\<open>printable\<close> is the table the verb \<open>%q\<close> consults.\<close>

definition validate_task_draft :: "(int \<Rightarrow> bool) \<Rightarrow> plan_draft \<Rightarrow> string option" where
  "validate_task_draft printable p =
     (if draft_steps p = [] then Some ''no steps''
      else if \<exists>s \<in> set (draft_steps p). sd_prompt s = '''' then Some ''empty step prompt''
      else case pd_schedule p of
        None \<Rightarrow> None
      | Some sc \<Rightarrow>
          if sc_type sc \<notin> set schedule_types
          then Some (''invalid schedule type '' @ go_quote printable (sc_type sc)) else None)"

definition generate_req :: "(string \<times> json) list \<Rightarrow> (string \<times> plan_draft option \<times> string) option" where
  "generate_req kvs = do {
     d \<leftarrow> str_field ''description'' kvs;
     p \<leftarrow> ptr_field (as_obj plan_draft_of) ''draft'' kvs;
     i \<leftarrow> str_field ''instruction'' kvs;
     Some (d, p, i)}"

text \<open>Which prompts a request leads to: a fresh plan, or a revision of the draft it carries.\<close>

definition plan_prompt :: "prompts \<Rightarrow> string \<times> plan_draft option \<times> string \<Rightarrow> (string \<times> string) option" where
  "plan_prompt pr q =
     (case q of (d, p, i) \<Rightarrow>
        case p of
          None \<Rightarrow> if d \<noteq> '''' then Some (pr_task pr, d) else None
        | Some draft \<Rightarrow>
            if i \<noteq> '''' then Some (fst (pr_refine pr) @ json_text (plan_json draft) @ snd (pr_refine pr), i) else None)"

text \<open>
  The streamed draft: the bytes sent to the client, a frame for each event. \<open>flushed\<close> says which
  writes succeed.
\<close>

definition sse_write :: "(json \<Rightarrow> bool) \<Rightarrow> json \<Rightarrow> string \<Rightarrow> string option \<times> string" where
  "sse_write flushed v out =
     (if flushed v then (None, out @ sse_frame (json_text v)) else (Some ''write error'', out))"

definition delta_event :: "string \<Rightarrow> json" where
  "delta_event d = JObj [(''text'', JStr d), (''type'', JStr ''delta'')]"

definition error_event :: "string \<Rightarrow> json" where
  "error_event e = JObj [(''message'', JStr e), (''type'', JStr ''error'')]"

definition draft_event :: "plan_draft \<Rightarrow> json" where
  "draft_event p = JObj [(''draft'', plan_json p), (''type'', JStr ''draft'')]"

text \<open>The prefix of the parse errors, in UTF-8.\<close>

definition parse_failed :: string where
  "parse_failed = map (char_of :: nat \<Rightarrow> char) [232, 167, 163, 230, 158, 144, 229, 164, 177, 232, 180, 165, 58, 32]"

definition stream_task_generate :: "(int \<Rightarrow> bool) \<Rightarrow> llm_http \<Rightarrow> llm_config option \<Rightarrow> (json \<Rightarrow> bool) \<Rightarrow> string \<Rightarrow> string \<Rightarrow> string" where
  "stream_task_generate printable http oc flushed sys user =
     (case complete_json_stream http oc sys user (\<lambda>d out. sse_write flushed (delta_event d) out) [] of
        (Inl e, out) \<Rightarrow> snd (sse_write flushed (error_event e) out)
      | (Inr txt, out) \<Rightarrow>
          (case decode_json (as_obj plan_draft_of) txt of
             Inl e \<Rightarrow> snd (sse_write flushed (error_event (parse_failed @ e)) out)
           | Inr p \<Rightarrow>
               (case validate_task_draft printable p of
                  Some e \<Rightarrow> snd (sse_write flushed (error_event (parse_failed @ e)) out)
                | None \<Rightarrow> snd (sse_write flushed (draft_event p) out))))"

definition task_generate_page :: "(int \<Rightarrow> bool) \<Rightarrow> llm_http \<Rightarrow> prompts \<Rightarrow> (json \<Rightarrow> bool) \<Rightarrow> request \<Rightarrow> server \<Rightarrow> reply \<times> server" where
  "task_generate_page printable http pr flushed r sv =
     (case read_body generate_req r of
        Inl rp \<Rightarrow> (rp, sv)
      | Inr q \<Rightarrow>
          (case plan_prompt pr q of
             None \<Rightarrow> (write_err 400 ''provide description (fresh) or draft+instruction (refine)'', sv)
           | Some (sys, user) \<Rightarrow>
               if q_get ''stream'' r = ''1''
               then (reply 200 (PText (stream_task_generate printable http (sv_llm sv) flushed sys user)), sv)
               else (case complete_json http (sv_llm sv) sys user (as_obj plan_draft_of) of
                       Inl e \<Rightarrow> (write_err 502 (''generate plan failed: '' @ e), sv)
                     | Inr p \<Rightarrow>
                         (case validate_task_draft printable p of
                            Some e \<Rightarrow> (write_err 502 (''model returned invalid draft: '' @ e), sv)
                          | None \<Rightarrow> (write_json 200 [(''draft'', plan_json p)], sv)))))"

definition handle_task_generate :: "crypto \<Rightarrow> (int \<Rightarrow> bool) \<Rightarrow> llm_http \<Rightarrow> prompts \<Rightarrow> (json \<Rightarrow> bool) \<Rightarrow> request \<Rightarrow> server \<Rightarrow> reply \<times> server" where
  "handle_task_generate c printable http pr flushed r = metered c r (task_generate_page printable http pr flushed r)"

subsection \<open>What a client sees of a streamed draft\<close>

definition delta_frames :: "string list \<Rightarrow> string" where
  "delta_frames ds = concat (map (\<lambda>d. sse_frame (json_text (delta_event d))) ds)"

lemma delta_frames_simps [simp]: "delta_frames [] = []"
  "delta_frames (d # ds) = sse_frame (json_text (delta_event d)) @ delta_frames ds"
  by (simp_all add: delta_frames_def)

lemma stream_lines_frames:
  "\<exists>ds ended. stream_lines (\<lambda>d out. sse_write (\<lambda>_. True) (delta_event d) out) acc ls out =
     (Inr (acc @ concat ds, ended), out @ delta_frames ds)"
proof (induction ls arbitrary: acc out)
  case Nil
  show ?case by (intro exI[of _ "[]"] exI[of _ False]) simp
next
  case (Cons l ls)
  let ?w = "\<lambda>d out. sse_write (\<lambda>_. True) (delta_event d) out"
  have "stream_lines ?w acc (l # ls) out = stream_lines ?w acc ls out \<or>
      stream_lines ?w acc (l # ls) out = (Inr (acc, True), out) \<or>
      (\<exists>d. stream_lines ?w acc (l # ls) out = stream_lines ?w (acc @ d) ls (out @ sse_frame (json_text (delta_event d))))"
    by (auto simp: Let_def sse_write_def split: option.split)
  then consider (skip) "stream_lines ?w acc (l # ls) out = stream_lines ?w acc ls out"
    | (stop) "stream_lines ?w acc (l # ls) out = (Inr (acc, True), out)"
    | (delta) d where "stream_lines ?w acc (l # ls) out =
        stream_lines ?w (acc @ d) ls (out @ sse_frame (json_text (delta_event d)))" by blast
  then show ?case
  proof cases
    case skip
    then show ?thesis using Cons by simp
  next
    case stop
    then show ?thesis by (intro exI[of _ "[]"] exI[of _ True]) simp
  next
    case delta
    obtain ds ended where "stream_lines ?w (acc @ d) ls (out @ sse_frame (json_text (delta_event d))) =
        (Inr ((acc @ d) @ concat ds, ended), (out @ sse_frame (json_text (delta_event d))) @ delta_frames ds)"
      using Cons by blast
    with delta show ?thesis by (intro exI[of _ "d # ds"] exI[of _ ended]) simp
  qed
qed

lemma complete_stream_frames:
  "\<exists>ds. snd (complete_json_stream http oc sys user (\<lambda>d out. sse_write (\<lambda>_. True) (delta_event d) out) []) = delta_frames ds \<and>
     (\<forall>t. fst (complete_json_stream http oc sys user (\<lambda>d out. sse_write (\<lambda>_. True) (delta_event d) out) []) = Inr t \<longrightarrow>
        t = trim_space (concat ds))"
proof (cases "\<exists>c r. oc = Some c \<and> llm_enabled oc \<and> http (chat_request_of c (chat_messages sys user) ''0.1'' True) = Inr r \<and> h_code r = 200")
  case True
  then obtain c r where c: "oc = Some c" "llm_enabled oc"
      "http (chat_request_of c (chat_messages sys user) ''0.1'' True) = Inr r" "h_code r = 200" by blast
  obtain ls ok where "scan_lines 2097152 (h_raw r) = (ls, ok)" by fastforce
  with c show ?thesis
    using stream_lines_frames[of "[]" ls "[]"] by (auto simp: complete_json_stream_def chat_stream_def)
next
  case False
  then show ?thesis
    by (intro exI[of _ "[]"]) (auto simp: complete_json_stream_def chat_stream_def split: option.splits sum.splits)
qed

text \<open>
  A client that stays sees the deltas and then one last event: an error, or the plan that is read from
  the deltas it has seen, and that can be submitted as it stands.
\<close>

theorem draft_stream_ends_once:
  "\<exists>ds ev. stream_task_generate printable http oc (\<lambda>_. True) sys user = delta_frames ds @ sse_frame (json_text ev) \<and>
     ((\<exists>e. ev = error_event e) \<or>
      (\<exists>p. ev = draft_event p \<and> decode_json (as_obj plan_draft_of) (trim_space (concat ds)) = Inr p \<and>
         validate_task_draft printable p = None))"
proof -
  obtain ds where ds: "snd (complete_json_stream http oc sys user (\<lambda>d out. sse_write (\<lambda>_. True) (delta_event d) out) []) = delta_frames ds"
    "\<And>t. fst (complete_json_stream http oc sys user (\<lambda>d out. sse_write (\<lambda>_. True) (delta_event d) out) []) = Inr t \<Longrightarrow>
        t = trim_space (concat ds)"
    using complete_stream_frames by blast
  show ?thesis
    by (intro exI[of _ ds]) (use ds in \<open>auto simp: stream_task_generate_def sse_write_def split: sum.splits prod.splits option.splits\<close>)
qed

subsection \<open>Health, system, and the push channels\<close>

text \<open>A time that cannot be written fails the encoding after the status has been sent: the body is empty.\<close>

definition handle_health :: "upstream \<Rightarrow> oc_client \<Rightarrow> request \<Rightarrow> server \<Rightarrow> reply \<times> server" where
  "handle_health up oc r sv =
     (if q_method r \<noteq> ''GET'' then (not_allowed, sv)
      else (case rfc3339_text 0 (now (sv_w sv)) of
              None \<Rightarrow> reply 200 (PText [])
            | Some t \<Rightarrow> write_json 200 [(''status'', JStr ''ok''), (''time'', JStr t),
                (''upstream'', JBool (ping up oc = None)),
                (''upstreamError'', JStr (case ping up oc of None \<Rightarrow> [] | Some e \<Rightarrow> e))], sv))"

definition handle_system :: "crypto \<Rightarrow> upstream \<Rightarrow> oc_client \<Rightarrow> string \<times> string \<times> string \<Rightarrow> request \<Rightarrow> server \<Rightarrow> reply \<times> server" where
  "handle_system c up oc cfg r sv =
     (if q_method r \<noteq> ''GET'' then (not_allowed, sv)
      else guarded ''invalid token'' (any_token_or_web c r) (\<lambda>sv.
        case cfg of (version, url, driver) \<Rightarrow>
          (write_json 200 [(''backend'', JStr ''starburst-backend''), (''version'', JStr version),
             (''opencodeURL'', JStr url),
             (''opencodeVersion'', JStr (case get_version up oc of Inl _ \<Rightarrow> '''' | Inr v \<Rightarrow> v)),
             (''db'', JStr driver)], sv)) sv)"

text \<open>
  The checks both channels make. A session in the query lets a request without token or header
  session pass the first check; it is then looked up, whoever asks.
\<close>

definition channel_gate :: "crypto \<Rightarrow> request \<Rightarrow> server \<Rightarrow> string option \<times> server" where
  "channel_gate c r sv =
     (case any_token_or_web c r sv of
        (ok, sv1) \<Rightarrow>
          if \<not> ok \<and> q_get ''session'' r = '''' then (Some ''invalid token'', sv1)
          else if q_get ''session'' r = '''' then (None, sv1)
          else (case scall (get_web_session (q_get ''session'' r)) sv1 of
                  (Inl _, sv2) \<Rightarrow> (Some ''invalid session'', sv2)
                | (Inr _, sv2) \<Rightarrow> (None, sv2)))"

text \<open>
  \<open>upgrades r ok\<close>: what the websocket library makes of a handshake whose origin the check accepts or
  not; \<open>Some code\<close> when it refuses, and has replied with that status itself.
\<close>

definition handle_websocket :: "crypto \<Rightarrow> (string \<Rightarrow> string option) \<Rightarrow> (request \<Rightarrow> bool \<Rightarrow> int option) \<Rightarrow> request \<Rightarrow>
    server \<Rightarrow> reply \<times> server" where
  "handle_websocket c literal upgrades r sv =
     (case channel_gate c r sv of
        (Some msg, sv1) \<Rightarrow> (write_err 401 msg, sv1)
      | (None, sv1) \<Rightarrow> (case upgrades r (check_origin literal r) of
                          None \<Rightarrow> reply 101 PUpgraded
                        | Some code \<Rightarrow> reply code (PText []), sv1))"

definition handle_stream :: "crypto \<Rightarrow> request \<Rightarrow> server \<Rightarrow> reply \<times> server" where
  "handle_stream c r sv =
     (if q_method r \<noteq> ''GET'' then (not_allowed, sv)
      else case channel_gate c r sv of
        (Some msg, sv1) \<Rightarrow> (write_err 401 msg, sv1)
      | (None, sv1) \<Rightarrow> (reply 200 (PText greeting), sv1))"

text \<open>The pauses between attempts to reopen the upstream stream.\<close>

definition next_backoff :: "duration \<Rightarrow> duration" where
  "next_backoff b = (if b < 30 * second then b * 2 else second)"

end
