(* ===== verification/Events.thy ===== *)
theory Events
  imports Web OpenCode GoTime "HOL-Library.AList"
begin

text \<open>
  The collector of session events and what is served from it, \<open>internal/server/events.go\<close>: parsing
  of the upstream frames, the bounded queue and the batching writer, unread marks, the table of
  session states, retention, the event listing and the merged session status.

  The read loop and the writer are two goroutines that share a channel; a run is a sequence of
  their steps (\<open>Arrive\<close>, \<open>Recv\<close>, \<open>Tick\<close>), and \<open>drain\<close> is what the writer does when it is stopped.
  The maps are association lists; Go visits a map in an unspecified order.
\<close>

subsection \<open>Frames\<close>

definition lookup_session_id :: "(string \<times> json) list \<Rightarrow> string" where
  "lookup_session_id m =
     (case Option.bind (map_entry ''sessionID'' m) as_str of
        Some s \<Rightarrow> s
      | None \<Rightarrow> (case Option.bind (map_entry ''sessionId'' m) as_str of Some s \<Rightarrow> s | None \<Rightarrow> ''''))"

fun as_map :: "json \<Rightarrow> (string \<times> json) list option" where
  "as_map (JObj kvs) = Some kvs"
| "as_map _ = None"

definition payload_object :: "(string \<times> json) list \<Rightarrow> (string \<times> json) list" where
  "payload_object p =
     (case Option.bind (map_entry ''properties'' p) as_map of
        Some m \<Rightarrow> m
      | None \<Rightarrow> (case Option.bind (map_entry ''data'' p) as_map of Some m \<Rightarrow> m | None \<Rightarrow> []))"

text \<open>A field that is a map: an object adds to it, \<open>null\<close> makes it nil.\<close>

definition map_field :: "string \<Rightarrow> (string \<times> json) list \<Rightarrow> (string \<times> json) list option" where
  "map_field key kvs = fold (\<lambda>v acc. case (v, acc) of
     (JObj m, Some m0) \<Rightarrow> Some (m0 @ m) | (JNull, Some _) \<Rightarrow> Some [] | _ \<Rightarrow> None) (field_vals key kvs) (Some [])"

text \<open>The fields of a frame; a field of the wrong kind is a decoding error, as for any struct.\<close>

definition frame_of :: "(string \<times> json) list \<Rightarrow> (string \<times> string) option" where
  "frame_of kvs =
     (case (str_field ''type'' kvs, str_field ''sessionID'' kvs, map_field ''properties'' kvs,
            map_field ''data'' kvs, map_field ''payload'' kvs) of
        (Some ty0, Some ses, Some props, Some dat, Some pl) \<Rightarrow>
          (let ty1 = (if trim_space ty0 = '''' then
                  (case Option.bind (map_entry ''type'' pl) as_str of Some t \<Rightarrow> trim_space t | None \<Rightarrow> '''')
                else trim_space ty0);
               ty = (if ty1 = '''' then ''unknown'' else ty1);
               s1 = (if ses = '''' then lookup_session_id dat else ses);
               s2 = (if s1 = '''' then lookup_session_id props else s1);
               s3 = (if s2 = '''' then lookup_session_id (payload_object pl) else s2)
           in Some (s3, ty))
      | _ \<Rightarrow> None)"

definition parse_session_event :: "time \<Rightarrow> string \<Rightarrow> session_event option" where
  "parse_session_event at raw =
     (case Option.bind (parse_json raw) (as_obj frame_of) of
        None \<Rightarrow> None
      | Some (sid, ty) \<Rightarrow> Some \<lparr>e_id = 0, e_session = sid, e_type = ty, e_payload = raw, e_created = at\<rparr>)"

definition is_high_frequency_event :: "string \<Rightarrow> bool" where
  "is_high_frequency_event ty \<longleftrightarrow> has_suffix ty ''.delta'' \<or> contains ty ''progress'' \<or>
     ty \<in> {''message.part.updated'', ''message.part.removed'', ''heartbeat''}"

definition is_message_activity_event :: "string \<Rightarrow> bool" where
  "is_message_activity_event ty \<longleftrightarrow>
     ty \<in> {''message.part.delta'', ''message.part.updated'', ''message.updated'', ''message.complete''}"

definition is_unread_trigger_event :: "string \<Rightarrow> bool" where
  "is_unread_trigger_event ty \<longleftrightarrow>
     ty \<in> {''message.complete'', ''message.created'', ''message.updated'', ''question.asked'', ''question.updated'',
       ''permission.asked'', ''session.idle'', ''session.status'', ''session.error'', ''session.failed''}"

definition nested :: "string list \<Rightarrow> (string \<times> json) list \<Rightarrow> (string \<times> json) list option" where
  "nested path kvs = fold (\<lambda>k acc. Option.bind acc (obj_field k)) path (Some kvs)"

definition parse_status_from_payload :: "string \<Rightarrow> string" where
  "parse_status_from_payload raw =
     (case Option.bind (parse_json raw) (as_obj (\<lambda>kvs.
            Option.bind (nested [''payload'', ''properties'', ''status''] kvs) (str_field ''type''))) of
        None \<Rightarrow> ''''
      | Some t \<Rightarrow> trim_space t)"

subsection \<open>The collector\<close>

definition event_queue_size :: nat where "event_queue_size = 512"

definition event_flush_batch :: nat where "event_flush_batch = 100"

definition event_retention :: duration where "event_retention = 7 * 24 * hour"

record collector =
  cl_status :: "(string \<times> string) list"
  cl_activity :: "(string \<times> time) list"
  cl_queue :: "session_event list"
  cl_batch :: "session_event list"
  cl_w :: world

definition note_status :: "session_event \<Rightarrow> collector \<Rightarrow> collector" where
  "note_status e c =
     (if e_type e = ''session.status'' then
        (let st = parse_status_from_payload (e_payload e)
         in if st = '''' then c else c\<lparr>cl_status := AList.update (e_session e) st (cl_status c)\<rparr>)
      else if e_type e = ''session.idle'' then c\<lparr>cl_status := AList.update (e_session e) ''idle'' (cl_status c)\<rparr>
      else c)"

definition push_session_event :: "session_event \<Rightarrow> world \<Rightarrow> world" where
  "push_session_event e = broadcast_msg \<lparr>m_type = ''session.event'',
     m_payload = JObj [(''sessionId'', JStr (e_session e)), (''eventType'', JStr (e_type e)),
       (''payload'', case parse_json (e_payload e) of Some v \<Rightarrow> v | None \<Rightarrow> JNull)], m_severity = ''''\<rparr>"

text \<open>One frame: states and activity are noted; the event is queued, or dropped when the queue is full.\<close>

definition arrive :: "string \<Rightarrow> collector \<Rightarrow> collector" where
  "arrive raw c =
     (case parse_session_event (now (cl_w c)) raw of
        None \<Rightarrow> c
      | Some e \<Rightarrow>
          (let c1 = note_status e c;
               c2 = (if is_message_activity_event (e_type e)
                     then c1\<lparr>cl_activity := AList.update (e_session e) (now (cl_w c1)) (cl_activity c1)\<rparr> else c1);
               c3 = (if length (cl_queue c2) < event_queue_size then c2\<lparr>cl_queue := cl_queue c2 @ [e]\<rparr> else c2)
           in if is_high_frequency_event (e_type e) then c3
              else c3\<lparr>cl_w := push_session_event e (cl_w c3)\<rparr>))"

definition unread_ids :: "session_event list \<Rightarrow> string list" where
  "unread_ids es = fold (\<lambda>e ids. if is_unread_trigger_event (e_type e) \<and> e_session e \<noteq> '''' \<and>
     e_session e \<notin> set ids then ids @ [e_session e] else ids) es []"

text \<open>A failed insert loses the batch; the unread marks are set all the same.\<close>

definition flush :: "collector \<Rightarrow> collector" where
  "flush c =
     (if cl_batch c = [] then c
      else (let w1 = run_call (insert_events (cl_batch c)) (cl_w c);
                ids = unread_ids (cl_batch c)
            in c\<lparr>cl_w := (if ids = [] then w1 else run_call (set_sessions_unread ids) w1), cl_batch := []\<rparr>))"

definition recv :: "collector \<Rightarrow> collector" where
  "recv c =
     (case cl_queue c of
        [] \<Rightarrow> c
      | e # q \<Rightarrow>
          (let c1 = c\<lparr>cl_queue := q, cl_batch := cl_batch c @ [e]\<rparr>
           in if event_flush_batch \<le> length (cl_batch c1) then flush c1 else c1))"

datatype collector_event = Arrive string | Recv | Tick

fun collector_step :: "collector_event \<Rightarrow> collector \<Rightarrow> collector" where
  "collector_step (Arrive raw) c = arrive raw c"
| "collector_step Recv c = recv c"
| "collector_step Tick c = flush c"

definition run_collector :: "collector_event list \<Rightarrow> collector \<Rightarrow> collector" where
  "run_collector xs c = fold collector_step xs c"

text \<open>When the context ends, the writer empties the queue and flushes once more.\<close>

lemma flush_queue [simp]: "cl_queue (flush c) = cl_queue c"
  by (simp add: flush_def Let_def)

lemma recv_queue [simp]: "cl_queue (recv c) = tl (cl_queue c)"
  by (auto simp: recv_def Let_def split: list.split)

function drain_queue :: "collector \<Rightarrow> collector" where
  "drain_queue c = (if cl_queue c = [] then flush c else drain_queue (recv c))"
  by pat_completeness auto

termination by (relation "measure (\<lambda>c. length (cl_queue c))") auto

declare drain_queue.simps [simp del]

subsection \<open>Start and retention\<close>

definition seed_session_statuses :: "collector \<Rightarrow> collector" where
  "seed_session_statuses c =
     (case call (list_events '''' (Some (now (cl_w c) - hour)) 1000) (cl_w c) of
        (Inl _, w1) \<Rightarrow> c\<lparr>cl_w := w1\<rparr>
      | (Inr es, w1) \<Rightarrow> fold note_status es (c\<lparr>cl_w := w1\<rparr>))"

definition cleanup_events :: "collector \<Rightarrow> collector" where
  "cleanup_events c = c\<lparr>cl_w := run_call (delete_events_older_than (now (cl_w c) - event_retention)) (cl_w c)\<rparr>"

text \<open>\<open>StartEventCollector\<close> up to its loop: a sweep, then the states of the last hour.\<close>

definition start_event_collector :: "world \<Rightarrow> collector" where
  "start_event_collector w = seed_session_statuses (cleanup_events
     \<lparr>cl_status = [], cl_activity = [], cl_queue = [], cl_batch = [], cl_w = w\<rparr>)"

subsection \<open>The merged session status\<close>

definition active_window :: duration where "active_window = 30 * second"

text \<open>
  The upstream snapshot; each value must be an object, its \<open>type\<close> counts when it is a non-empty string.
\<close>

definition snapshot_statuses :: "string + up_response \<Rightarrow> (string \<times> string) list" where
  "snapshot_statuses resp =
     (case resp of
        Inl _ \<Rightarrow> []
      | Inr r \<Rightarrow>
          (case json_value (h_raw r) of
             Some (JObj kvs, _) \<Rightarrow>
               if \<exists>kv \<in> set kvs. snd kv \<noteq> JNull \<and> as_map (snd kv) = None then []
               else fold (\<lambda>(k, v) out.
                 (case Option.bind (as_map v) (\<lambda>m. Option.bind (map_entry ''type'' m) as_str) of
                    Some t \<Rightarrow> if t = '''' then out else AList.update k t out
                  | None \<Rightarrow> out)) kvs []
           | _ \<Rightarrow> []))"

definition merge_status :: "string \<times> string \<Rightarrow> (string \<times> string) list \<Rightarrow> (string \<times> string) list" where
  "merge_status p out = (case p of (k, st) \<Rightarrow>
     if map_of out k \<noteq> None \<or> st = '''' then out else AList.update k st out)"

definition mark_active :: "time \<Rightarrow> string \<times> time \<Rightarrow> (string \<times> string) list \<Rightarrow> (string \<times> string) list" where
  "mark_active at p out = (case p of (k, seen) \<Rightarrow>
     if active_window < at - seen then out
     else (case map_of out k of
             None \<Rightarrow> AList.update k ''busy'' out
           | Some st \<Rightarrow> if st = ''idle'' \<or> st = '''' then AList.update k ''busy'' out else out))"

definition session_status_agg :: "string + up_response \<Rightarrow> time \<Rightarrow> collector \<Rightarrow> (string \<times> string) list" where
  "session_status_agg resp at c =
     fold (mark_active at) (cl_activity c) (fold merge_status (cl_status c) (snapshot_statuses resp))"

definition handle_session_status_agg :: "string + up_response \<Rightarrow> time \<Rightarrow> collector \<Rightarrow> reply" where
  "handle_session_status_agg resp at c =
     write_json 200 (map (\<lambda>(k, st). (k, JObj [(''type'', JStr st)])) (session_status_agg resp at c))"

subsection \<open>Listing\<close>

definition parse_event_since :: "string \<Rightarrow> time option" where
  "parse_event_since v0 =
     (let v = trim_space v0
      in if v = '''' then None
         else case parse_rfc3339 v of
           Some t \<Rightarrow> Some t
         | None \<Rightarrow> map_option (\<lambda>ms. ms * 1000000) (atoi v))"

definition event_limit :: "request \<Rightarrow> int" where
  "event_limit r =
     (let v = q_get ''limit'' r
      in if v = '''' then 200
         else case atoi v of None \<Rightarrow> 200 | Some n \<Rightarrow> if 0 < n then (if 1000 < n then 1000 else n) else 200)"

definition since_of :: "request \<Rightarrow> reply + time option" where
  "since_of r =
     (let v = q_get ''since'' r
      in if v = '''' then Inr None
         else case parse_event_since v of
           None \<Rightarrow> Inl (write_err 400 ''invalid since: use RFC3339 or unix milliseconds'')
         | Some t \<Rightarrow> Inr (if t = zero_time then None else Some t))"

definition handle_events :: "crypto \<Rightarrow> request \<Rightarrow> server \<Rightarrow> reply \<times> server" where
  "handle_events c r = guarded web_or_token_msg (token_or_web c r) (\<lambda>sv.
     if q_method r \<noteq> ''GET'' then (not_allowed, sv)
     else case since_of r of
       Inl rp \<Rightarrow> (rp, sv)
     | Inr since \<Rightarrow>
         (case scall (list_events (q_get ''sessionId'' r) since (event_limit r)) sv of
            (Inl _, sv1) \<Rightarrow> (write_err 500 ''list events failed'', sv1)
          | (Inr es, sv1) \<Rightarrow> (reply 200 (PEvents es), sv1)))"

end
