(* ===== verification/Proxy.thy ===== *)
theory Proxy
  imports Events OpenCodeApi
begin

text \<open>
  The mirror proxy \<open>/api/opencode\<close> (\<open>internal/server/opencode_proxy.go\<close>) and the project view
  (\<open>orchestrate.go\<close>). A body that is passed through is the document of the request.
\<close>

subsection \<open>The mirror proxy\<close>

definition proxy_prefix :: string where
  "proxy_prefix = ''/api/opencode''"

definition proxy_is_sensitive :: "string \<Rightarrow> bool" where
  "proxy_is_sensitive path \<longleftrightarrow>
     has_prefix path ''/auth/'' \<or> path = ''/auth'' \<or>
     path = ''/pty'' \<or> has_prefix path ''/pty/'' \<or>
     path = ''/global/dispose'' \<or> has_prefix path ''/global/dispose/'' \<or>
     path = ''/config'' \<or> has_prefix path ''/config/''"

definition hop_by_hop_headers :: "string list" where
  "hop_by_hop_headers = [''Connection'', ''Proxy-Connection'', ''Keep-Alive'', ''Proxy-Authenticate'',
     ''Proxy-Authorization'', ''Te'', ''Trailer'', ''Transfer-Encoding'', ''Upgrade'', ''Host'']"

definition is_hop_by_hop_header :: "string \<Rightarrow> bool" where
  "is_hop_by_hop_header k \<longleftrightarrow> (\<exists>h \<in> set hop_by_hop_headers. equal_fold k h)"

definition relayed_headers :: "(string \<times> string) list \<Rightarrow> (string \<times> string) list" where
  "relayed_headers hs = filter (\<lambda>(k, _). \<not> is_hop_by_hop_header k \<and> \<not> equal_fold k ''Authorization'') hs"

text \<open>The path below the prefix; \<open>None\<close> outside of it.\<close>

definition upstream_path :: "string \<Rightarrow> string option" where
  "upstream_path p =
     (if p = proxy_prefix \<or> p = proxy_prefix @ ''/'' then Some ''/''
      else if has_prefix p (proxy_prefix @ ''/'') then Some (''/'' @ trim_prefix p (proxy_prefix @ ''/''))
      else None)"

definition relay_reply :: "up_response \<Rightarrow> reply" where
  "relay_reply x = reply (h_code x) (PProxied
     (filter (\<lambda>(k, _). \<not> is_hop_by_hop_header k \<and> \<not> equal_fold k ''X-Accel-Buffering'') (h_headers x) @
       [(''X-Accel-Buffering'', ''no'')]) (h_raw x))"

definition forward :: "upstream \<Rightarrow> oc_client \<Rightarrow> string \<Rightarrow> request \<Rightarrow> reply" where
  "forward up oc path r =
     (case do_call up oc (q_method r) path (q_query r)
            (case q_body r of Doc j \<Rightarrow> Some j | _ \<Rightarrow> None) (relayed_headers (q_headers r)) of
        Inl _ \<Rightarrow> write_err 502 ''upstream opencode request failed''
      | Inr x \<Rightarrow> relay_reply x)"

definition proxy_page :: "upstream \<Rightarrow> oc_client \<Rightarrow> collector \<Rightarrow> request \<Rightarrow> server \<Rightarrow> reply \<times> server" where
  "proxy_page up oc coll r sv =
     (case upstream_path (q_path r) of
        None \<Rightarrow> (write_err 404 ''not found'', sv)
      | Some path \<Rightarrow>
          (case require_web r sv of
             (admin, sv1) \<Rightarrow>
               if \<not> admin \<and> proxy_is_sensitive path then (write_err 403 ''operation requires admin web session'', sv1)
               else if q_method r = ''GET'' \<and> path = ''/session/status''
               then (handle_session_status_agg (do_call up oc ''GET'' ''/session/status'' [] None [])
                       (now (sv_w sv1)) coll, sv1)
               else (forward up oc path r, sv1)))"

definition handle_opencode_proxy :: "crypto \<Rightarrow> upstream \<Rightarrow> oc_client \<Rightarrow> collector \<Rightarrow> request \<Rightarrow> server \<Rightarrow> reply \<times> server" where
  "handle_opencode_proxy c up oc coll r = guarded web_or_token_msg (token_or_web c r) (proxy_page up oc coll r)"

subsection \<open>Projects\<close>

text \<open>
  The sessions are decoded with errors ignored: a field of the wrong kind is skipped, an element that
  is no object is empty, and a document that is no array gives no sessions.
\<close>

definition lenient :: "(json \<Rightarrow> 'a option) \<Rightarrow> 'a \<Rightarrow> string \<Rightarrow> (string \<times> json) list \<Rightarrow> 'a" where
  "lenient dec z key kvs = fold (\<lambda>v acc. case dec v of Some x \<Rightarrow> x | None \<Rightarrow> acc) (field_vals key kvs) z"

definition lenient_info :: "(string \<times> json) list \<Rightarrow> session_info" where
  "lenient_info kvs =
     (let str = (\<lambda>k. lenient as_str [] k kvs); num = (\<lambda>k. lenient as_int 0 k kvs)
      in \<lparr>si_id = str ''id'', si_slug = str ''slug'', si_title = str ''title'', si_dir = str ''directory'',
        si_path = str ''path'', si_agent = str ''agent'', si_model = str ''model'',
        si_busy = lenient as_bool False ''busy'' kvs, si_input = num ''inputTokens'',
        si_output = num ''outputTokens'', si_reasoning = num ''reasoningTokens'', si_cost = num ''cost'',
        si_created = num ''createdMs'', si_updated = num ''updatedMs''\<rparr>)"

text \<open>\<open>None\<close> is the nil slice: the answer was no JSON, or no array.\<close>

definition lenient_infos :: "string \<Rightarrow> session_info list option" where
  "lenient_infos raw =
     (case parse_json raw of
        Some (JArr vs) \<Rightarrow> Some (map (\<lambda>v. case v of JObj kvs \<Rightarrow> lenient_info kvs | _ \<Rightarrow> lenient_info []) vs)
      | _ \<Rightarrow> None)"

definition session_info_json :: "session_info \<Rightarrow> json" where
  "session_info_json i = JObj ((''id'', JStr (si_id i)) # opt_str ''slug'' (si_slug i) @ opt_str ''title'' (si_title i) @
     opt_str ''directory'' (si_dir i) @ opt_str ''path'' (si_path i) @ opt_str ''agent'' (si_agent i) @
     opt_str ''model'' (si_model i) @ [(''busy'', JBool (si_busy i)), (''inputTokens'', JNum (int_str (si_input i))),
       (''outputTokens'', JNum (int_str (si_output i))), (''reasoningTokens'', JNum (int_str (si_reasoning i))),
       (''cost'', JNum (int_str (si_cost i))), (''createdMs'', JNum (int_str (si_created i))),
       (''updatedMs'', JNum (int_str (si_updated i)))])"

definition session_dir :: "string \<times> string \<Rightarrow> string" where
  "session_dir it = (if fst it \<noteq> '''' then fst it else snd it)"

definition lenient_sessions :: "string \<Rightarrow> (string \<times> string) list" where
  "lenient_sessions raw =
     (case lenient_infos raw of None \<Rightarrow> [] | Some is \<Rightarrow> map (\<lambda>i. (si_dir i, si_path i)) is)"

type_synonym groups = "string list \<times> (string \<times> int) list"

text \<open>Step 2: order and counts of the directories.\<close>

definition count_dir :: "string \<times> string \<Rightarrow> groups \<Rightarrow> groups" where
  "count_dir it g =
     (case g of (order, counts) \<Rightarrow>
        let d = trim_right (CHR ''/'') (session_dir it)
        in if d = '''' then g
           else (if map_of counts d = None then order @ [d] else order,
                 AList.update d ((case map_of counts d of None \<Rightarrow> 0 | Some n \<Rightarrow> n) + 1) counts))"

text \<open>Step 3: the worktrees without sessions.\<close>

definition worktree_of :: "(string \<times> json) list \<Rightarrow> string option" where
  "worktree_of kvs = (case (str_field ''id'' kvs, str_field ''worktree'' kvs) of
     (Some _, Some w) \<Rightarrow> Some w | _ \<Rightarrow> None)"

definition worktrees :: "string + string \<Rightarrow> string list" where
  "worktrees res = (case res of
     Inl _ \<Rightarrow> []
   | Inr raw \<Rightarrow> (case Option.bind (parse_json raw) (as_list (as_obj worktree_of)) of None \<Rightarrow> [] | Some ws \<Rightarrow> ws))"

definition add_worktree :: "string \<Rightarrow> string list \<Rightarrow> string list" where
  "add_worktree w0 order =
     (let w = trim_right (CHR ''/'') w0 in if w = '''' \<or> w = ''/'' \<or> w \<in> set order then order else order @ [w])"

definition count_of :: "(string \<times> int) list \<Rightarrow> string \<Rightarrow> int" where
  "count_of counts d = (case map_of counts d of None \<Rightarrow> 0 | Some n \<Rightarrow> n)"

text \<open>Step 4: the directories with sessions come first.\<close>

definition project_list :: "(string \<times> string) list \<Rightarrow> string list \<Rightarrow> (string \<times> int) list" where
  "project_list sessions ws =
     (case fold count_dir sessions ([], []) of (order, counts) \<Rightarrow>
        let all_dirs = fold add_worktree ws order;
            entry = (\<lambda>d. (d, count_of counts d))
        in map entry (filter (\<lambda>d. 0 < count_of counts d) all_dirs) @
           map entry (filter (\<lambda>d. \<not> 0 < count_of counts d) all_dirs))"

definition project_json :: "string \<times> int \<Rightarrow> json" where
  "project_json p = JObj [(''id'', JStr (fst p)), (''directory'', JStr (fst p)), (''sessionCount'', JNum (int_str (snd p)))]"

definition handle_projects :: "crypto \<Rightarrow> upstream \<Rightarrow> oc_client \<Rightarrow> request \<Rightarrow> server \<Rightarrow> reply \<times> server" where
  "handle_projects c up oc r sv =
     (if q_method r \<noteq> ''GET'' then (not_allowed, sv)
      else guarded web_or_token_msg (web_or_token c r) (\<lambda>sv.
        case list_all_sessions_detailed up oc '''' of
          Inl e \<Rightarrow> (write_err 502 (''opencode: '' @ e), sv)
        | Inr raw \<Rightarrow> (write_json 200 [(''projects'', JArr (map project_json
            (project_list (lenient_sessions raw) (worktrees (list_projects up oc)))))], sv)) sv)"

text \<open>The first segment after the prefix of the escaped path, unescaped.\<close>

definition project_id_from_path :: "string \<Rightarrow> string + string" where
  "project_id_from_path escaped =
     (let raw = fst (cut_at (CHR ''/'') (drop (length ''/api/projects/'') escaped))
      in if raw = '''' then Inl ''missing project id''
         else case path_unescape raw of None \<Rightarrow> Inl ''invalid URL escape'' | Some d \<Rightarrow> Inr d)"

definition handle_project_sessions :: "crypto \<Rightarrow> upstream \<Rightarrow> oc_client \<Rightarrow> string \<Rightarrow> request \<Rightarrow> server \<Rightarrow> reply \<times> server" where
  "handle_project_sessions c up oc escaped r sv =
     (if q_method r \<noteq> ''GET'' then (not_allowed, sv)
      else guarded web_or_token_msg (web_or_token c r) (\<lambda>sv.
        case project_id_from_path escaped of
          Inl e \<Rightarrow> (write_err 400 e, sv)
        | Inr d \<Rightarrow>
            (case list_all_sessions_detailed up oc d of
               Inl e \<Rightarrow> (write_err 502 (''opencode: '' @ e), sv)
             | Inr raw \<Rightarrow> (write_json 200 [(''directory'', JStr d), (''sessions'',
                 case lenient_infos raw of None \<Rightarrow> JNull | Some is \<Rightarrow> JArr (map session_info_json is))], sv))) sv)"

text \<open>
  The sessions of a project are decoded by the field names of the backend's own reply, which are not
  those of the upstream: usage and times are lost, where \<open>list_sessions\<close> keeps them.
\<close>

definition upstream_session :: "(string \<times> json) list" where
  "upstream_session = [(''id'', JStr ''s1''), (''directory'', JStr ''/w''), (''model'', JObj [(''id'', JStr ''m'')]),
     (''tokens'', JObj [(''input'', JNum ''5''), (''output'', JNum ''7'')]), (''time'', JObj [(''created'', JNum ''1''), (''updated'', JNum ''2'')])]"

lemma project_sessions_lose_usage:
  "map_option (\<lambda>i. (si_model i, si_input i, si_output i, si_created i, si_updated i)) (raw_session upstream_session) =
     Some (''m'', 5, 7, 1, 2)"
  "(\<lambda>i. (si_id i, si_dir i, si_model i, si_input i, si_output i, si_created i, si_updated i)) (lenient_info upstream_session) =
     (''s1'', ''/w'', [], 0, 0, 0, 0)"
  by code_simp+

subsection \<open>What the project view shows\<close>

definition group_invar :: "groups \<Rightarrow> bool" where
  "group_invar g \<longleftrightarrow> distinct (fst g) \<and> (\<forall>d. d \<in> set (fst g) \<longleftrightarrow> map_of (snd g) d \<noteq> None) \<and> '''' \<notin> set (fst g) \<and>
     (\<forall>d n. map_of (snd g) d = Some n \<longrightarrow> 0 < n)"

definition trimmed_dirs :: "(string \<times> string) list \<Rightarrow> string list" where
  "trimmed_dirs sessions = filter (\<lambda>d. d \<noteq> '''') (map (\<lambda>it. trim_right (CHR ''/'') (session_dir it)) sessions)"

lemma count_dir_invar: "group_invar g \<Longrightarrow> group_invar (count_dir it g)"
  by (fastforce simp: group_invar_def count_dir_def Let_def update_conv split: prod.splits option.splits)

lemma count_dir_count:
  "count_of (snd (count_dir it g)) d =
     count_of (snd g) d + (if trim_right (CHR ''/'') (session_dir it) = d \<and> d \<noteq> '''' then 1 else 0)"
  by (auto simp: count_dir_def count_of_def Let_def update_conv split: prod.splits option.splits)

lemma fold_count_dir:
  assumes "group_invar g"
  shows "group_invar (fold count_dir ss g) \<and>
    (\<forall>d. count_of (snd (fold count_dir ss g)) d = count_of (snd g) d + int (count_list (trimmed_dirs ss) d))"
  using assms
proof (induction ss arbitrary: g)
  case Nil
  then show ?case by (simp add: trimmed_dirs_def)
next
  case (Cons it ss)
  from Cons.IH[OF count_dir_invar[OF Cons.prems, of it]] show ?case
    by (simp add: count_dir_count trimmed_dirs_def)
qed

lemma add_worktree_distinct: "distinct order \<Longrightarrow> distinct (fold add_worktree ws order)"
  by (induction ws arbitrary: order) (auto simp: add_worktree_def Let_def)

lemma add_worktree_keeps: "set order \<subseteq> set (fold add_worktree ws order)"
proof (induction ws arbitrary: order)
  case (Cons w ws)
  have "set order \<subseteq> set (add_worktree w order)" by (auto simp: add_worktree_def Let_def)
  with Cons.IH[of "add_worktree w order"] show ?case by auto
qed simp

text \<open>
  The project view partitions the sessions. Every working directory that a session has (its
  directory, or its path, without trailing slashes) appears exactly once, with the number of its
  sessions; every other entry has none and comes after those with sessions; and the counts add up to
  the number of sessions that have a directory at all.
\<close>
lemma projects_partition_sessions:
  "distinct (map fst (project_list ss ws)) \<and>
   (\<forall>d n. (d, n) \<in> set (project_list ss ws) = (d \<in> fst ` set (project_list ss ws) \<and> n = int (count_list (trimmed_dirs ss) d))) \<and>
   set (trimmed_dirs ss) \<subseteq> fst ` set (project_list ss ws) \<and>
   (\<exists>xs ys. project_list ss ws = xs @ ys \<and> list_all (\<lambda>(_, n). 0 < n) xs \<and> list_all (\<lambda>(_, n). n = 0) ys) \<and>
   sum_list (map snd (project_list ss ws)) = int (length (trimmed_dirs ss))"
proof -
  obtain order counts where g: "fold count_dir ss ([], []) = (order, counts)" by fastforce
  have start: "group_invar ([], [])" by (simp add: group_invar_def)
  note folded = fold_count_dir[OF start, of ss, unfolded g]
  have inv: "group_invar (order, counts)" using folded by blast
  have cnt: "count_of counts d = int (count_list (trimmed_dirs ss) d)" for d
    using folded by (simp add: count_of_def)
  define all_dirs where "all_dirs = fold add_worktree ws order"
  have dist: "distinct all_dirs"
    using inv add_worktree_distinct by (auto simp: group_invar_def all_dirs_def)
  define f where "f d = (d, int (count_list (trimmed_dirs ss) d))" for d
  let ?P = "\<lambda>d. 0 < int (count_list (trimmed_dirs ss) d)"
  have pl: "project_list ss ws = map f (filter ?P all_dirs) @ map f (filter (\<lambda>d. \<not> ?P d) all_dirs)"
    by (simp add: project_list_def g Let_def all_dirs_def cnt f_def)
  have setp: "set (project_list ss ws) = f ` set all_dirs" unfolding pl by auto
  have sub: "set (trimmed_dirs ss) \<subseteq> set all_dirs"
  proof
    fix d assume "d \<in> set (trimmed_dirs ss)"
    then have "count_of counts d \<noteq> 0" by (simp add: cnt count_list_0_iff)
    then have "d \<in> set order" using inv by (auto simp: group_invar_def count_of_def split: option.splits)
    then show "d \<in> set all_dirs" using add_worktree_keeps[of order ws] by (auto simp: all_dirs_def)
  qed
  have "map fst (map f xs) = xs" for xs by (simp add: f_def comp_def)
  then have "distinct (map fst (project_list ss ws))"
    unfolding pl map_append using dist by auto
  moreover have "sum_list (map snd (project_list ss ws)) = (\<Sum>d\<leftarrow>all_dirs. int (count_list (trimmed_dirs ss) d))"
  proof -
    have "sum_list (map snd (map f (filter ?P xs) @ map f (filter (\<lambda>d. \<not> ?P d) xs))) =
        (\<Sum>d\<leftarrow>xs. int (count_list (trimmed_dirs ss) d))" for xs
      by (induction xs) (auto simp: f_def)
    then show ?thesis unfolding pl .
  qed
  moreover have "(\<Sum>d\<leftarrow>all_dirs. int (count_list (trimmed_dirs ss) d)) = int (length (trimmed_dirs ss))"
  proof -
    have "(\<Sum>d\<leftarrow>all_dirs. int (count_list (trimmed_dirs ss) d)) = int (\<Sum>d\<in>set all_dirs. count_list (trimmed_dirs ss) d)"
      using dist by (simp add: sum_list_distinct_conv_sum_set)
    also have "\<dots> = int (\<Sum>d\<in>set (trimmed_dirs ss). count_list (trimmed_dirs ss) d)"
      using sub by (intro arg_cong[of _ _ int] sum.mono_neutral_right) (auto simp: count_list_0_iff)
    finally show ?thesis by (simp add: sum_count_set)
  qed
  moreover have "\<exists>xs ys. project_list ss ws = xs @ ys \<and> list_all (\<lambda>(_, n). 0 < n) xs \<and> list_all (\<lambda>(_, n). n = 0) ys"
    unfolding pl by (intro exI conjI, rule refl) (auto simp: list_all_iff f_def)
  ultimately show ?thesis
    using sub by (auto simp: setp f_def image_iff)
qed

end
