(* ===== verification/Refine.thy ===== *)
theory Refine
  imports Llm Utf8 "HOL-Library.Multiset" "HOL-Library.Sublist"
begin

text \<open>
  The local rules that clean a transcript of speech, \<open>internal/server/stt_refine.go\<close>: repeated words,
  marks, characters and blocks, known misrecognitions, punctuation, the cutting of long texts, and
  the check of what the language model returns. A text is the list of its runes; the strings that
  reach these functions come out of the JSON decoder and are valid UTF-8. Lengths of texts are far
  below the range where the quotients of the plausibility check would round.
\<close>

type_synonym runes = "int list"

subsection \<open>Runes\<close>

text \<open>\<open>unicode.IsSpace\<close> and \<open>strings.TrimSpace\<close>\<close>

definition rune_space :: "int \<Rightarrow> bool" where
  "rune_space r \<longleftrightarrow> 9 \<le> r \<and> r \<le> 13 \<or> 8192 \<le> r \<and> r \<le> 8202 \<or>
     r \<in> {32, 133, 160, 5760, 8232, 8233, 8239, 8287, 12288}"

definition trim_by :: "(int \<Rightarrow> bool) \<Rightarrow> runes \<Rightarrow> runes" where
  "trim_by P rs = rev (dropWhile P (rev (dropWhile P rs)))"

definition trim :: "runes \<Rightarrow> runes" where
  "trim = trim_by rune_space"

fun rune_fields :: "runes \<Rightarrow> runes \<Rightarrow> runes list" where
  "rune_fields cur [] = (if cur = [] then [] else [cur])"
| "rune_fields cur (r # rs) =
     (if rune_space r then (if cur = [] then [] else [cur]) @ rune_fields [] rs
      else rune_fields (cur @ [r]) rs)"

definition is_punct_rune :: "int \<Rightarrow> bool" where
  "is_punct_rune r \<longleftrightarrow> r \<in> {65292, 12290, 65281, 65311, 12289, 65307, 65306}"

definition is_digit_rune :: "int \<Rightarrow> bool" where
  "is_digit_rune r \<longleftrightarrow> 48 \<le> r \<and> r \<le> 57"

definition letter :: "int \<Rightarrow> bool" where
  "letter r \<longleftrightarrow> 97 \<le> r \<and> r \<le> 122 \<or> 65 \<le> r \<and> r \<le> 90"

definition is_ascii_letter_run :: "runes \<Rightarrow> bool" where
  "is_ascii_letter_run s \<longleftrightarrow> s \<noteq> [] \<and> list_all letter s"

definition is_space_run :: "runes \<Rightarrow> bool" where
  "is_space_run s \<longleftrightarrow> list_all (\<lambda>r. r = 32 \<or> r = 9) s"

subsection \<open>Repeated words\<close>

text \<open>The classes of the token expression: letters, its white space, everything else.\<close>

definition token_class :: "int \<Rightarrow> nat" where
  "token_class r = (if letter r then 0 else if r \<in> {9, 10, 12, 13, 32} then 1 else 2)"

function word_tokens :: "runes \<Rightarrow> runes list" where
  "word_tokens rs =
     (case rs of
        [] \<Rightarrow> []
      | r # rest \<Rightarrow>
          (r # takeWhile (\<lambda>x. token_class x = token_class r) rest) #
          word_tokens (dropWhile (\<lambda>x. token_class x = token_class r) rest))"
  by pat_completeness auto

termination by (relation "measure length") (auto simp: le_imp_less_Suc length_dropWhile_le)

declare word_tokens.simps [simp del]

definition lower_runes :: "runes \<Rightarrow> runes" where
  "lower_runes = map (\<lambda>r. if 65 \<le> r \<and> r \<le> 90 then r + 32 else r)"

fun words_loop :: "runes list \<Rightarrow> runes \<Rightarrow> bool \<Rightarrow> runes \<Rightarrow> runes" where
  "words_loop [] word at_end out = out"
| "words_loop (f # fs) word at_end out =
     (if is_ascii_letter_run f then
        (if at_end \<and> word = lower_runes f
         then words_loop fs word at_end (rev (dropWhile (\<lambda>r. r = 32 \<or> r = 9) (rev out)))
         else words_loop fs (lower_runes f) True (out @ f))
      else words_loop fs word (at_end \<and> is_space_run f) (out @ f))"

definition dedup_words :: "runes \<Rightarrow> runes" where
  "dedup_words s = (let fs = word_tokens s in if length fs < 3 then s else words_loop fs [] False [])"

subsection \<open>Repeated marks and characters\<close>

fun punct_loop :: "bool \<Rightarrow> runes \<Rightarrow> runes" where
  "punct_loop was [] = []"
| "punct_loop was (r # rs) =
     (if is_punct_rune r then (if was then punct_loop True rs else r # punct_loop True rs)
      else r # punct_loop False rs)"

definition dedup_punct :: "runes \<Rightarrow> runes" where
  "dedup_punct s = punct_loop False s"

text \<open>The characters that may legitimately be doubled.\<close>

definition legal_redup :: runes where
  "legal_redup = [
     30475, 30475, 21543, 35828, 35828, 35265, 38754, 24819, 24819, 38382, 38382, 21548, 21548,
     35835, 20889, 32451, 35797, 35797, 25214, 36208, 36208, 29609, 29609, 23581, 23581, 25293,
     25293, 22352, 22352, 32842, 32842, 24930, 24930, 28176, 28176, 24448, 24448, 24120, 24120,
     21018, 21018, 22825, 22825, 26085, 26085, 24180, 24180, 26376, 26376, 22812, 22812, 26102,
     26102, 21051, 21051, 27599, 27599, 38544, 38544, 24494, 24494, 36731, 36731, 32039, 32039,
     20599, 20599, 24708, 24708, 40664, 40664, 21254, 21254, 24537, 24537, 23478, 23478, 25143,
     25143, 20154, 20154, 26465, 26465, 20214, 20214, 31181, 31181, 26679, 26679, 26143, 26143,
     28857, 28857, 28404, 28404, 35874, 35874, 35265, 35265, 22826, 22826, 23043, 23043, 23453,
     23453, 19968, 19968, 29240, 29240, 22920, 22920, 21733, 21733, 22992, 22992, 24351, 24351,
     22969, 22969, 29239, 29239, 22902, 22902, 21460, 21460, 22993, 22993, 33285, 33285, 23013,
     23013, 21704, 21704, 21621, 21621, 22079, 22079, 22075, 22075, 21756, 21756, 27754, 27754,
     21941, 21941, 21617, 21617]"

function dedup_runs :: "runes \<Rightarrow> runes" where
  "dedup_runs rs =
     (case rs of
        [] \<Rightarrow> []
      | r # rest \<Rightarrow>
          (let n = Suc (length (takeWhile (\<lambda>x. x = r) rest))
           in replicate (if n = 2 \<and> r \<in> set legal_redup then 2 else 1) r @
              dedup_runs (dropWhile (\<lambda>x. x = r) rest)))"
  by pat_completeness auto

termination by (relation "measure length") (auto simp: le_imp_less_Suc length_dropWhile_le)

declare dedup_runs.simps [simp del]

subsection \<open>Repeated blocks\<close>

definition dedup_scan_runes :: nat where
  "dedup_scan_runes = 2000"

text \<open>
  A block of length \<open>l\<close> at \<open>i\<close> that is followed by a copy of itself, at once or after one space.
\<close>

definition repeated_at :: "runes \<Rightarrow> nat \<Rightarrow> nat \<Rightarrow> bool" where
  "repeated_at r l i \<longleftrightarrow>
     take l (drop i r) = take l (drop (i + l) r) \<or>
     r ! (i + l) = 32 \<and> i + 2 * l + 1 \<le> length r \<and> take l (drop i r) = take l (drop (i + l + 1) r)"

text \<open>The two loops of the scan, with the best block so far.\<close>

definition scan_step :: "runes \<Rightarrow> nat \<Rightarrow> nat \<Rightarrow> nat \<times> nat \<Rightarrow> nat \<times> nat" where
  "scan_step r l i best = (if repeated_at r l i \<and> fst best < l then (l, i) else best)"

definition best_block :: "runes \<Rightarrow> nat \<times> nat" where
  "best_block r =
     fold (\<lambda>l best. fold (scan_step r l) [0..<Suc (length r) - 2 * l] best)
       [2..<Suc (length r div 2)] (0, 0)"

text \<open>What the loops have found is what they started with, or a repeated block in their range.\<close>

definition found_in :: "runes \<Rightarrow> nat set \<Rightarrow> nat \<times> nat \<Rightarrow> bool" where
  "found_in r ls b \<longleftrightarrow> fst b \<in> ls \<and> snd b + 2 * fst b \<le> length r \<and> repeated_at r (fst b) (snd b)"

lemma scan_inner:
  "fold (scan_step r l) ixs best = best \<or>
   (\<exists>i \<in> set ixs. fold (scan_step r l) ixs best = (l, i) \<and> repeated_at r l i)"
proof (induction ixs arbitrary: best)
  case (Cons i ixs)
  show ?case using Cons[of "scan_step r l i best"] by (auto simp: scan_step_def)
qed simp

lemma scan_outer:
  "fold (\<lambda>l best. fold (scan_step r l) [0..<Suc (length r) - 2 * l] best) ls best = best \<or>
   found_in r (set ls) (fold (\<lambda>l best. fold (scan_step r l) [0..<Suc (length r) - 2 * l] best) ls best)"
proof (induction ls arbitrary: best)
  case (Cons l ls)
  let ?b = "fold (scan_step r l) [0..<Suc (length r) - 2 * l] best"
  have "?b = best \<or> found_in r {l} ?b"
    using scan_inner[where r = r and l = l and best = best and ixs = "[0..<Suc (length r) - 2 * l]"]
    by (auto simp: found_in_def)
  with Cons[of ?b] show ?case unfolding fold_simps by (auto simp: found_in_def)
qed simp

lemma best_block_ok:
  "best_block r = (l, i) \<Longrightarrow> l \<noteq> 0 \<Longrightarrow> 2 \<le> l \<and> i + 2 * l \<le> length r \<and> repeated_at r l i"
  using scan_outer[where r = r and ls = "[2..<Suc (length r div 2)]" and best = "(0, 0)"]
  unfolding best_block_def[symmetric] by (auto simp: found_in_def)

lemma trim_length: "length (trim rs) \<le> length rs"
  unfolding trim_def trim_by_def by (metis length_dropWhile_le length_rev order_trans)

definition cut_block :: "runes \<Rightarrow> nat \<Rightarrow> nat \<Rightarrow> runes" where
  "cut_block r l i =
     (let second = (if i + l < length r \<and> r ! (i + l) = 32 then Suc (i + l) else i + l)
      in trim (take i r @ drop second r))"

lemma cut_block_shorter:
  assumes "best_block r = (l, i)" and "l \<noteq> 0"
  shows "length (cut_block r l i) < length r"
proof -
  have "2 \<le> l" "i + 2 * l \<le> length r" using best_block_ok[OF assms] by auto
  then have "length (trim (take i r @ drop s r)) < length r" if "i + l \<le> s" for s
    using that by (intro le_less_trans[OF trim_length]) auto
  then show ?thesis unfolding cut_block_def Let_def by simp
qed

function repeat_loop :: "runes \<Rightarrow> runes" where
  "repeat_loop r =
     (case best_block r of (l, i) \<Rightarrow> if l = 0 then r else repeat_loop (cut_block r l i))"
  by pat_completeness auto

termination by (relation "measure length") (simp_all add: cut_block_shorter[OF sym])

declare repeat_loop.simps [simp del]

definition dedup_adjacent_repeat :: "runes \<Rightarrow> runes" where
  "dedup_adjacent_repeat s =
     (let r = trim s
      in if length r < 4 then r
         else repeat_loop (if dedup_scan_runes < length r then take dedup_scan_runes r else r))"

text \<open>A repeated last word, or else the shortest repeated end of at least two runes.\<close>

definition trim_tail_repeat :: "runes \<Rightarrow> runes" where
  "trim_tail_repeat s =
     (let r = trim s; n = length r; ws = rune_fields [] r
      in if n < 2 then r
         else if 2 \<le> length ws \<and> last ws = last (butlast ws) then trim (take (n - length (last ws)) r)
         else case find (\<lambda>k. drop (n - k) r = take k (drop (n - 2 * k) r)) [2..<Suc (n div 2)] of
           None \<Rightarrow> r
         | Some k \<Rightarrow> trim (take (n - k) r))"

definition dedup_transcript :: "runes \<Rightarrow> runes" where
  "dedup_transcript s = trim_tail_repeat (dedup_adjacent_repeat (dedup_runs (dedup_punct (dedup_words s))))"

subsection \<open>Known misrecognitions\<close>

definition starts_with :: "runes \<Rightarrow> runes \<Rightarrow> bool" where
  "starts_with s p \<longleftrightarrow> take (length p) s = p"

fun replace_runes :: "runes \<Rightarrow> runes \<Rightarrow> nat \<Rightarrow> runes \<Rightarrow> runes" where
  "replace_runes old new k [] = []"
| "replace_runes old new (Suc k) (r # rs) = replace_runes old new k rs"
| "replace_runes old new 0 (r # rs) =
     (if old \<noteq> [] \<and> starts_with (r # rs) old then new @ replace_runes old new (length old - 1) rs
      else r # replace_runes old new 0 rs)"

definition common_misrecognitions :: "(runes \<times> runes) list" where
  "common_misrecognitions = [
     ([20197, 32463], [24050, 32463]), ([21608, 26410], [21608, 26411]),
     ([36827, 37117, 34920], [36827, 24230, 34920]), ([36827, 37117], [36827, 24230]),
     ([25105, 38376], [25105, 20204]), ([20320, 38376], [20320, 20204]),
     ([22312, 20877], [20877]), ([30340, 37027], [30340]),
     ([37027, 37027, 37027, 20320], [37027, 20320])]"

definition fix_common_misrecognitions :: "runes \<Rightarrow> runes" where
  "fix_common_misrecognitions s = fold (\<lambda>(old, new) t. replace_runes old new 0 t) common_misrecognitions s"

subsection \<open>Punctuation\<close>

definition punct_unit :: "runes list" where
  "punct_unit = [
     [28982, 21518], [20294, 26159], [20294, 26159, 21602], [25152, 20197], [22240, 20026],
     [22914, 26524], [32780, 19988], [36824, 26377], [25509, 30528], [26368, 21518],
     [37027, 20040], [36825, 26679], [20877, 35828], [24182, 19988], [20197, 21450],
     [25110, 32773], [36824, 26159], [29978, 33267], [20854, 23454], [19981, 36807],
     [20110, 26159], [24635, 20043], [39318, 20808], [20854, 27425], [21478, 22806],
     [20877, 35828, 21602], [38543, 21518], [32467, 26524], [21453, 27491]]"

definition punct_question :: "runes list" where
  "punct_question = [
     [24590, 20040, 21150], [20026, 20160, 20040], [24590, 20040, 20570], [24590, 20040],
     [20160, 20040], [22810, 23569], [20960, 28857], [21738, 37324], [21738, 20010], [35841],
     [21435, 21738, 20799], [21435, 19981, 21435], [26159, 19981, 26159],
     [34892, 19981, 34892], [21487, 19981, 21487, 20197], [21527], [21602], [20040], [21543]]"

abbreviation comma_mark :: int where "comma_mark \<equiv> 65292"

abbreviation question_mark :: int where "question_mark \<equiv> 65311"

text \<open>The loop over the runes; \<open>prev\<close> is the rune before, if there is one.\<close>

fun comma_loop :: "int option \<Rightarrow> runes \<Rightarrow> runes" where
  "comma_loop prev [] = []"
| "comma_loop prev (r # rs) =
     (case prev of
        None \<Rightarrow> []
      | Some p \<Rightarrow>
          if \<not> is_punct_rune p \<and> \<not> is_digit_rune p \<and> list_ex (starts_with (r # rs)) punct_unit
          then [comma_mark] else []) @ r # comma_loop (Some r) rs"

definition ends_with :: "runes \<Rightarrow> runes \<Rightarrow> bool" where
  "ends_with s p \<longleftrightarrow> starts_with (rev s) (rev p)"

definition local_punctuate :: "runes \<Rightarrow> runes" where
  "local_punctuate s =
     (let t = trim s
      in if t = [] then t
         else if list_ex is_punct_rune t then t
         else let out = comma_loop None t
              in if is_punct_rune (last out) then trim out
                 else if list_ex (ends_with out) punct_question then trim (out @ [question_mark])
                 else trim out)"

subsection \<open>Long texts\<close>

definition is_clause_boundary :: "runes \<Rightarrow> bool" where
  "is_clause_boundary rest \<longleftrightarrow> is_punct_rune (hd rest) \<or> list_ex (starts_with rest) punct_unit"

definition min_clause_runes :: nat where
  "min_clause_runes = 40"

definition cut_step :: "runes \<Rightarrow> nat \<Rightarrow> runes list \<times> nat \<Rightarrow> runes list \<times> nat" where
  "cut_step rs i st = (case st of (parts, start) \<Rightarrow>
     if \<not> is_digit_rune (rs ! (i - 1)) \<and> is_clause_boundary (drop i rs) \<and> min_clause_runes \<le> i - start
     then (parts @ [take (i - start) (drop start rs)], i) else st)"

definition split_clauses :: "runes \<Rightarrow> runes list" where
  "split_clauses rs =
     (case fold (cut_step rs) [1..<length rs] ([], 0) of (parts, start) \<Rightarrow>
        filter (\<lambda>p. p \<noteq> []) (map trim (parts @ [drop start rs])))"

subsection \<open>The model's answer\<close>

definition strip_fences :: "runes \<Rightarrow> runes" where
  "strip_fences s0 =
     (let s = trim s0; fence = [96, 96, 96]
      in if starts_with s fence then
           (let body = (if 10 \<in> set s then tl (dropWhile (\<lambda>r. r \<noteq> 10) s) else s); t = trim body
            in trim (if ends_with t fence then take (length t - 3) t else t))
         else s)"

text \<open>How many runes of the second text the first can supply, each used once.\<close>

fun shared_runes :: "(int \<Rightarrow> int) \<Rightarrow> runes \<Rightarrow> int" where
  "shared_runes counts [] = 0"
| "shared_runes counts (r # rs) =
     (if 0 < counts r then 1 + shared_runes (counts(r := counts r - 1)) rs else shared_runes counts rs)"

definition rune_counts :: "runes \<Rightarrow> int \<Rightarrow> int" where
  "rune_counts rs = fold (\<lambda>r m. m(r := m r + 1)) rs (\<lambda>_. 0)"

definition refine_plausible :: "runes \<Rightarrow> runes \<Rightarrow> bool" where
  "refine_plausible original cleaned =
     (let o' = int (length original); c = int (length cleaned)
      in trim cleaned \<noteq> [] \<and> o' \<noteq> 0 \<and> c \<noteq> 0 \<and> \<not> (10 * c < 3 * o' \<or> 3 * o' < c) \<and>
         6 * c \<le> 10 * shared_runes (rune_counts original) cleaned)"

end
