(* ===== verification/RefineSpec.thy ===== *)
theory RefineSpec
  imports Refine
begin

text \<open>
  What the cleaning of transcripts does: no block is left repeated, runs of equal characters collapse
  as in the library's \<open>remdups_adj\<close>, punctuation only adds marks, and the plausibility check is a
  comparison of multisets.
\<close>

subsection \<open>Trimming\<close>

lemma subseq_trim: "subseq (trim rs) rs"
proof -
  define a where "a = dropWhile rune_space rs"
  have "prefix (rev (dropWhile rune_space (rev a))) a"
    using suffix_dropWhile[of rune_space "rev a"] by (simp add: suffix_to_prefix)
  moreover have "suffix a rs" by (simp add: a_def suffix_dropWhile)
  ultimately show ?thesis
    unfolding trim_def trim_by_def a_def[symmetric] by (meson prefix_imp_subseq subseq_order.order_trans suffix_imp_subseq)
qed

lemma hd_dropWhile_not: "dropWhile P xs \<noteq> [] \<Longrightarrow> \<not> P (hd (dropWhile P xs))"
  by (rule hd_dropWhile)

lemma trim_ends:
  assumes "trim rs \<noteq> []"
  shows "\<not> rune_space (hd (trim rs)) \<and> \<not> rune_space (last (trim rs))"
proof -
  define a where "a = dropWhile rune_space rs"
  have t: "trim rs = rev (dropWhile rune_space (rev a))" by (simp add: trim_def trim_by_def a_def)
  then have ne: "dropWhile rune_space (rev a) \<noteq> []" using assms by simp
  have "last (trim rs) = hd (dropWhile rune_space (rev a))" by (simp add: t last_rev ne)
  moreover obtain ys where a: "a = trim rs @ ys" 
    unfolding t by (metis rev_append rev_rev_ident takeWhile_dropWhile_id)
  then have "a \<noteq> []" "hd a = hd (trim rs)" using assms by auto
  then have "\<not> rune_space (hd (trim rs))" using hd_dropWhile_not[of rune_space rs] by (simp add: a_def)
  ultimately show ?thesis using hd_dropWhile_not[OF ne] by simp
qed

lemma trim_nop: "rs \<noteq> [] \<Longrightarrow> \<not> rune_space (hd rs) \<Longrightarrow> \<not> rune_space (last rs) \<Longrightarrow> trim rs = rs"
proof -
  assume a: "rs \<noteq> []" "\<not> rune_space (hd rs)" "\<not> rune_space (last rs)"
  have "dropWhile rune_space rs = rs" using a(1,2) by (cases rs) auto
  moreover have "dropWhile rune_space (rev rs) = rev rs" using a(1,3) by (cases rs rule: rev_cases) auto
  ultimately show ?thesis by (simp add: trim_def trim_by_def)
qed

subsection \<open>Repeated blocks\<close>

lemma inner_mono: "fst best \<le> fst (fold (scan_step r l) ixs best)"
proof (induction ixs arbitrary: best)
  case (Cons i ixs)
  have "fst best \<le> fst (scan_step r l i best)" by (simp add: scan_step_def)
  with Cons[of "scan_step r l i best"] show ?case by simp
qed simp

lemma inner_hit: "i \<in> set ixs \<Longrightarrow> repeated_at r l i \<Longrightarrow> l \<le> fst (fold (scan_step r l) ixs best)"
proof (induction ixs arbitrary: best)
  case (Cons j ixs)
  show ?case
  proof (cases "i = j")
    case True
    then have "l \<le> fst (scan_step r l j best)" using Cons.prems(2) by (simp add: scan_step_def)
    then show ?thesis using inner_mono[of "scan_step r l j best" r l ixs] by simp
  qed (use Cons in auto)
qed simp

lemma outer_mono: "fst best \<le> fst (fold (\<lambda>l. fold (scan_step r l) (f l)) ls best)"
proof (induction ls arbitrary: best)
  case (Cons l ls)
  show ?case using inner_mono[of best r l "f l"] Cons[of "fold (scan_step r l) (f l) best"] by simp
qed simp

lemma outer_hit:
  "l \<in> set ls \<Longrightarrow> i \<in> set (f l) \<Longrightarrow> repeated_at r l i \<Longrightarrow> l \<le> fst (fold (\<lambda>l. fold (scan_step r l) (f l)) ls best)"
proof (induction ls arbitrary: best)
  case (Cons k ls)
  show ?case
  proof (cases "l = k")
    case True
    then show ?thesis
      using inner_hit[OF Cons.prems(2,3), of best]
        outer_mono[of "fold (scan_step r k) (f k) best" r f ls] by simp
  qed (use Cons in auto)
qed simp

text \<open>No block of two or more runes is followed by a copy of itself, at once or after a space.\<close>

definition no_repeat :: "runes \<Rightarrow> bool" where
  "no_repeat r \<longleftrightarrow> (\<forall>l i. 2 \<le> l \<longrightarrow> i + 2 * l \<le> length r \<longrightarrow> \<not> repeated_at r l i)"

lemma best_block_none: "fst (best_block r) = 0 \<longleftrightarrow> no_repeat r"
proof
  assume z: "fst (best_block r) = 0"
  show "no_repeat r"
    unfolding no_repeat_def
  proof (intro allI impI notI)
    fix l i assume a: "2 \<le> l" "i + 2 * l \<le> length r" "repeated_at r l i"
    have "l \<in> set [2..<Suc (length r div 2)]" "i \<in> set [0..<Suc (length r) - 2 * l]"
      using a(1,2) by auto
    from outer_hit[where f = "\<lambda>l. [0..<Suc (length r) - 2 * l]", OF this a(3), of "(0, 0)"] z a(1)
    show False by (simp add: best_block_def)
  qed
next
  assume n: "no_repeat r"
  show "fst (best_block r) = 0"
    using best_block_ok[of r "fst (best_block r)" "snd (best_block r)"] n by (auto simp: no_repeat_def)
qed

lemma repeat_loop_spec: "no_repeat (repeat_loop r) \<and> subseq (repeat_loop r) r \<and> (no_repeat r \<longrightarrow> repeat_loop r = r)"
proof (induction r rule: repeat_loop.induct)
  case (1 r)
  obtain l i where b: "best_block r = (l, i)" by fastforce
  show ?case
  proof (cases "l = 0")
    case True
    then show ?thesis
      using b best_block_none[of r] by (subst (1 2 3) repeat_loop.simps) simp
  next
    case False
    then have eq: "repeat_loop r = repeat_loop (cut_block r l i)" using b by (subst repeat_loop.simps) simp
    have cut: "subseq (take i r @ drop s r) r" if "i \<le> s" for s
    proof -
      have "drop s r = drop (s - i) (drop i r)" using that by simp
      then have "subseq (drop s r) (drop i r)" by (metis suffix_drop suffix_imp_subseq)
      then have "subseq (take i r @ drop s r) (take i r @ drop i r)" by (simp only: subseq_append')
      then show ?thesis by simp
    qed
    have "subseq (cut_block r l i) r"
      unfolding cut_block_def Let_def by (rule subseq_order.order_trans[OF subseq_trim cut]) simp
    then show ?thesis
      using 1[OF b[symmetric] False] False b best_block_none[of r] unfolding eq
      by (auto intro: subseq_order.order_trans)
  qed
qed

text \<open>
  C32. Repeated blocks. Whatever the transcript, after the pass over adjacent blocks no block of at
  least two runes is followed by a copy of itself, neither at once nor after a single space; the
  result only leaves runes out; and a trimmed transcript of at most 2000 runes without such a block is
  returned as it is.
\<close>
theorem adjacent_repeats_removed:
  "no_repeat (dedup_adjacent_repeat s) \<and> subseq (dedup_adjacent_repeat s) s \<and>
   (no_repeat (trim s) \<and> length (trim s) \<le> 2000 \<longrightarrow> dedup_adjacent_repeat s = trim s)"
proof (cases "length (trim s) < 4")
  case True
  then have "no_repeat (trim s)" by (auto simp: no_repeat_def)
  then show ?thesis using True by (simp add: dedup_adjacent_repeat_def Let_def subseq_trim)
next
  case False
  define r where "r = (if 2000 < length (trim s) then take 2000 (trim s) else trim s)"
  have d: "dedup_adjacent_repeat s = repeat_loop r"
    using False by (simp add: dedup_adjacent_repeat_def Let_def r_def dedup_scan_runes_def)
  have "prefix r (trim s)" by (simp add: r_def take_is_prefix)
  then have "subseq r s" by (meson prefix_imp_subseq subseq_order.order_trans subseq_trim)
  then show ?thesis
    using repeat_loop_spec[of r] by (auto simp: d r_def intro: subseq_order.order_trans)
qed

text \<open>The text "ab ab c" in code points.\<close>

lemma adjacent_repeats_removed_witness:
  "no_repeat (dedup_adjacent_repeat [97, 98, 32, 97, 98, 32, 99]) \<and>
   dedup_adjacent_repeat [97, 98, 32, 99] = [97, 98, 32, 99]"
proof -
  have n: "no_repeat (trim [97, 98, 32, 99])"
    unfolding best_block_none[symmetric] by code_simp
  have t: "trim [97, 98, 32, 99] = [97, 98, 32, 99]" by code_simp
  show ?thesis
    using adjacent_repeats_removed[of "[97, 98, 32, 97, 98, 32, 99]"]
      adjacent_repeats_removed[of "[97, 98, 32, 99]"] n t by simp
qed

text \<open>
  What follows the first 2000 runes is dropped, although the comment on \<open>dedupScanRunes\<close> says that
  longer texts pass mostly unchanged; and the space before a repeated block can go with the block,
  which joins the numbers of "12 34 34".
\<close>

lemma adjacent_truncates: "length (dedup_adjacent_repeat s) \<le> 2000"
proof -
  have "length (repeat_loop r) \<le> length r" for r
    using repeat_loop_spec[of r] list_emb_length by blast
  from this[of "take 2000 (trim s)"] this[of "trim s"] show ?thesis
    unfolding dedup_adjacent_repeat_def Let_def dedup_scan_runes_def by auto
qed

lemma adjacent_joins_numbers: "dedup_adjacent_repeat [49, 50, 32, 51, 52, 32, 51, 52] = [49, 50, 51, 52]"
  by code_simp

subsection \<open>Runs of one character\<close>

text \<open>
  C33. Runs of equal characters. Up to the doubled characters of the list, \<open>dedupRuns\<close> is
  \<open>remdups_adj\<close>: both leave the same text when runs are collapsed, and they are equal on every text
  without a character of the list. So digits and Latin letters collapse as well (one hundred becomes
  ten), though the comment speaks of Chinese characters only.
\<close>
theorem dedup_runs_is_remdups_adj:
  "remdups_adj (dedup_runs s) = remdups_adj s \<and>
   (set s \<inter> set legal_redup = {} \<longrightarrow> dedup_runs s = remdups_adj s)"
proof (induction s rule: dedup_runs.induct)
  case (1 s)
  show ?case
  proof (cases s)
    case Nil
    then show ?thesis by (simp add: dedup_runs.simps)
  next
    case (Cons r rest)
    let ?n = "Suc (length (takeWhile (\<lambda>x. x = r) rest))" and ?d = "dropWhile (\<lambda>x. x = r) rest"
    have eq: "dedup_runs s = replicate (if ?n = 2 \<and> r \<in> set legal_redup then 2 else 1) r @ dedup_runs ?d"
      unfolding Cons by (subst dedup_runs.simps) (simp add: Let_def)
    have ih: "remdups_adj (dedup_runs ?d) = remdups_adj ?d"
      "set ?d \<inter> set legal_redup = {} \<longrightarrow> dedup_runs ?d = remdups_adj ?d"
      using 1[OF Cons refl] by auto
    have hd: "?d = [] \<or> hd ?d \<noteq> r" using hd_dropWhile[of "\<lambda>x. x = r" rest] by auto
    have "dedup_runs ?d = [] \<longleftrightarrow> ?d = []" "?d \<noteq> [] \<Longrightarrow> hd (dedup_runs ?d) = hd ?d"
      using ih(1) by (metis hd_remdups_adj remdups_adj_Nil_iff)+
    then have cons: "remdups_adj (r # dedup_runs ?d) = r # remdups_adj ?d"
      using hd ih(1) by (cases "dedup_runs ?d") auto
    have "remdups_adj (r # r # zs) = remdups_adj (r # zs)" for zs by simp
    then have "remdups_adj (dedup_runs s) = r # remdups_adj ?d"
      unfolding eq using cons by (auto simp: numeral_2_eq_2)
    moreover have "remdups_adj s = r # remdups_adj ?d" unfolding Cons by (rule remdups_adj_Cons')
    moreover have "set ?d \<subseteq> set s" unfolding Cons by (auto dest: set_dropWhileD)
    ultimately show ?thesis using ih(2) eq Cons by auto
  qed
qed

lemma dedup_runs_is_remdups_adj_witness: "dedup_runs [49, 48, 48] = [49, 48]"
  using dedup_runs_is_remdups_adj[of "[49, 48, 48]"] by (simp add: legal_redup_def)

subsection \<open>Punctuation\<close>

lemma comma_loop_ends:
  "rs \<noteq> [] \<Longrightarrow> comma_loop prev rs \<noteq> [] \<and> last (comma_loop prev rs) = last rs"
proof (induction rs arbitrary: prev)
  case (Cons r rs)
  then show ?case by (cases "rs = []") (auto split: option.splits)
qed simp

lemma comma_loop_filter:
  "filter (\<lambda>r. \<not> is_punct_rune r) (comma_loop prev rs) = filter (\<lambda>r. \<not> is_punct_rune r) rs"
  by (induction rs arbitrary: prev) (auto split: option.split simp: is_punct_rune_def)

lemma comma_loop_hd: "rs \<noteq> [] \<Longrightarrow> hd (comma_loop None rs) = hd rs"
  by (cases rs) auto

text \<open>
  Local punctuation only adds marks. A transcript that already has a mark is only trimmed;
  otherwise the text without the marks is the trimmed text itself: no rune is removed, replaced or
  moved, and only commas and at most one question mark, at the end, are added.
\<close>
lemma punctuation_only_inserts:
  "(if list_ex is_punct_rune (trim s) then local_punctuate s = trim s
    else filter (\<lambda>r. \<not> is_punct_rune r) (local_punctuate s) = trim s \<and>
      set (local_punctuate s) \<subseteq> set (trim s) \<union> {comma_mark, question_mark} \<and>
      question_mark \<notin> set (butlast (local_punctuate s)))"
proof (cases "trim s = [] \<or> list_ex is_punct_rune (trim s)")
  case True
  then show ?thesis by (auto simp: local_punctuate_def Let_def)
next
  case False
  let ?t = "trim s" and ?out = "comma_loop None (trim s)"
  have ne: "?t \<noteq> []" and plain: "\<not> is_punct_rune r" if "r \<in> set ?t" for r
    using False that by (auto simp: list_ex_iff)
  have ends: "?out \<noteq> []" "last ?out = last ?t" "hd ?out = hd ?t"
    using False comma_loop_ends[of ?t None] comma_loop_hd[of ?t] by auto
  have nosp: "\<not> rune_space (hd ?t)" "\<not> rune_space (last ?t)" using trim_ends[of s] False by auto
  have set_out: "set (comma_loop p rs) \<subseteq> set rs \<union> {comma_mark}" for p rs
    by (induction rs arbitrary: p) (auto split: option.splits if_splits)
  have q: "question_mark \<notin> set ?out"
    using set_out[of None ?t] plain[of question_mark] by (auto simp: is_punct_rune_def)
  have filt: "filter (\<lambda>r. \<not> is_punct_rune r) ?out = ?t"
    unfolding comma_loop_filter using plain by (simp add: filter_id_conv)
  have "trim ?out = ?out" using ends nosp by (intro trim_nop) auto
  moreover have "trim (?out @ [question_mark]) = ?out @ [question_mark]"
    using ends nosp by (intro trim_nop) (auto simp: rune_space_def hd_append)
  moreover have "\<not> is_punct_rune (last ?out)" using ends False plain[of "last ?t"] by auto
  ultimately have lp: "local_punctuate s = ?out \<or> local_punctuate s = ?out @ [question_mark]"
    using False by (auto simp: local_punctuate_def Let_def)
  moreover have "is_punct_rune question_mark" by (simp add: is_punct_rune_def)
  ultimately have "filter (\<lambda>r. \<not> is_punct_rune r) (local_punctuate s) = ?t" using filt by auto
  moreover have "set (local_punctuate s) \<subseteq> set ?t \<union> {comma_mark, question_mark}"
    using lp set_out[of None ?t] by auto
  moreover have "question_mark \<notin> set (butlast (local_punctuate s))"
    using lp q by (auto dest: in_set_butlastD)
  ultimately show ?thesis using False by auto
qed

subsection \<open>Plausibility\<close>

lemma rune_counts_count: "rune_counts rs = (\<lambda>r. int (count (mset rs) r))"
proof -
  have "fold (\<lambda>r m. m(r := m r + 1)) rs m = (\<lambda>r. m r + int (count (mset rs) r))" for m :: "int \<Rightarrow> int"
    by (induction rs arbitrary: m) (auto simp: fun_eq_iff)
  then show ?thesis by (simp add: rune_counts_def)
qed

lemma shared_runes_mset: "shared_runes (\<lambda>r. int (count M r)) rs = int (size (mset rs \<inter># M))"
proof (induction rs arbitrary: M)
  case (Cons r rs)
  show ?case
  proof (cases "r \<in># M")
    case True
    then obtain N where M: "M = add_mset r N" by (metis insert_DiffM)
    have upd: "(\<lambda>x. int (count M x))(r := int (count M r) - 1) = (\<lambda>x. int (count N x))"
      unfolding M by (auto simp: fun_eq_iff)
    have "shared_runes (\<lambda>x. int (count M x)) (r # rs) = 1 + shared_runes (\<lambda>x. int (count N x)) rs"
      using True unfolding upd[symmetric] by simp
    then show ?thesis using Cons[of N] unfolding M by simp
  next
    case False
    then have "count M r = 0" by (simp add: not_in_iff)
    then show ?thesis using Cons[of M] False by (simp add: inter_add_left1)
  qed
qed simp

text \<open>
  Plausibility. A correction is accepted exactly when it is not blank, is at least three tenths
  and at most three times as long as the transcript, and at least six tenths of it, as a multiset of
  runes, are covered by the transcript.
\<close>
theorem plausible_is_multiset_overlap:
  "refine_plausible orig cleaned =
   (trim cleaned \<noteq> [] \<and> orig \<noteq> [] \<and> 3 * length orig \<le> 10 * length cleaned \<and>
    length cleaned \<le> 3 * length orig \<and>
    6 * length cleaned \<le> 10 * size (mset cleaned \<inter># mset orig))"
proof -
  have "trim [] = []" by (simp add: trim_def trim_by_def)
  moreover have "shared_runes (rune_counts orig) cleaned = int (size (mset cleaned \<inter># mset orig))"
    unfolding rune_counts_count shared_runes_mset ..
  ultimately show ?thesis by (auto simp: refine_plausible_def Let_def)
qed

end
