(* ===== verification/Stt.thy ===== *)
theory Stt
  imports TaskApi Refine "HOL-Library.Char_ord" "HOL-Library.List_Lexorder"
begin

text \<open>
  The recognition endpoints, \<open>internal/server/stt.go\<close>, and the endpoint that corrects a transcript
  (\<open>handleSTTRefine\<close> in \<open>stt_refine.go\<close>). The recognition engine is an argument: it maps a method, a
  URL and a body to a status and a body, or to a transport error. These handlers read raw bytes, so
  the body of the request is an argument of its own: \<open>None\<close> when reading it fails. The language model
  may answer the same question differently the second time; its calls are numbered.
\<close>

subsection \<open>The engine\<close>

record stt_engine =
  se_url :: string

text \<open>What \<open>New\<close> and \<open>SetSTT\<close> are given: no engine when the address is blank.\<close>

record stt_config =
  stt_engine_of :: "stt_engine option"
  stt_max_chunk :: int

type_synonym engine = "string \<Rightarrow> string \<Rightarrow> string option \<Rightarrow> string + int \<times> string"

definition new_stt_engine :: "string \<Rightarrow> stt_engine" where
  "new_stt_engine url = \<lparr>se_url = trim_right (CHR ''/'') url\<rparr>"

definition set_stt :: "string \<Rightarrow> stt_config \<Rightarrow> stt_config" where
  "set_stt url cfg = cfg\<lparr>stt_engine_of := (if trim_space url = '''' then None else Some (new_stt_engine url))\<rparr>"

definition stt_max_engine_response :: nat where
  "stt_max_engine_response = 16777216"

definition execute_stt :: "engine \<Rightarrow> stt_engine \<Rightarrow> string \<Rightarrow> string \<Rightarrow> string option \<Rightarrow> string + int \<times> string" where
  "execute_stt eng e meth path body =
     (case eng meth (if path = '''' then se_url e else se_url e @ path) body of
        Inl msg \<Rightarrow> Inl msg
      | Inr (status, raw) \<Rightarrow> Inr (status, take stt_max_engine_response raw))"

definition max_chunk_bytes :: "stt_config \<Rightarrow> int" where
  "max_chunk_bytes cfg = (if 0 < stt_max_chunk cfg then stt_max_chunk cfg else 2097152)"

definition proxy_status :: "int \<Rightarrow> int" where
  "proxy_status s = (if 200 \<le> s \<and> s < 300 then s else if s = 503 then 503 else if 400 \<le> s \<and> s < 500 then s else 502)"

definition write_raw :: "int \<Rightarrow> string \<Rightarrow> reply" where
  "write_raw status raw = reply status (PText raw)"

definition engine_info :: "string \<Rightarrow> (string \<times> json) list" where
  "engine_info raw = (case parse_json raw of Some (JObj kvs) \<Rightarrow> kvs | _ \<Rightarrow> [])"

text \<open>The checks all recognition handlers start with, after the method.\<close>

definition stt_guarded :: "crypto \<Rightarrow> stt_config \<Rightarrow> request \<Rightarrow> (stt_engine \<Rightarrow> reply) \<Rightarrow> server \<Rightarrow> reply \<times> server" where
  "stt_guarded c cfg r h = guarded ''invalid token'' (token_gate c r) (\<lambda>sv.
     case stt_engine_of cfg of
       None \<Rightarrow> (write_err 503 ''stt not configured'', sv)
     | Some e \<Rightarrow> (h e, sv))"

definition handle_stt_status :: "crypto \<Rightarrow> engine \<Rightarrow> stt_config \<Rightarrow> request \<Rightarrow> server \<Rightarrow> reply \<times> server" where
  "handle_stt_status c eng cfg r sv =
     (if q_method r \<noteq> ''GET'' then (not_allowed, sv)
      else stt_guarded c cfg r (\<lambda>e.
        case execute_stt eng e ''GET'' ''/health'' None of
          Inl _ \<Rightarrow> write_err 502 ''stt engine unreachable''
        | Inr (status, raw) \<Rightarrow>
            if status < 200 \<or> 300 \<le> status then write_err 502 ''stt engine unhealthy''
            else write_json 200 [(''enabled'', JBool True),
              (''maxChunkBytes'', JNum (int_str (max_chunk_bytes cfg))), (''engine'', JObj (engine_info raw))]) sv)"

definition handle_stt_create :: "crypto \<Rightarrow> engine \<Rightarrow> stt_config \<Rightarrow> request \<Rightarrow> server \<Rightarrow> reply \<times> server" where
  "handle_stt_create c eng cfg r sv =
     (if q_method r \<noteq> ''POST'' then (not_allowed, sv)
      else stt_guarded c cfg r (\<lambda>e.
        case execute_stt eng e ''POST'' ''/sessions'' None of
          Inl _ \<Rightarrow> write_err 502 ''stt engine unreachable''
        | Inr (status, raw) \<Rightarrow> write_raw (proxy_status status) raw) sv)"

subsection \<open>Chunks of audio\<close>

definition valid_stt_id :: "string \<Rightarrow> bool" where
  "valid_stt_id sid \<longleftrightarrow> sid \<noteq> '''' \<and> length sid \<le> 64 \<and> list_all (\<lambda>x. let n = of_char x :: int in
     97 \<le> n \<and> n \<le> 102 \<or> 48 \<le> n \<and> n \<le> 57) sid"

definition stt_prefix :: string where
  "stt_prefix = ''/api/stt/sessions/''"

definition split_stt_path :: "string \<Rightarrow> (string \<times> string) option" where
  "split_stt_path path =
     (if \<not> has_prefix path stt_prefix then None
      else (let rest = drop (length stt_prefix) path
            in if rest = '''' then None
               else case cut_at (CHR ''/'') rest of (sid, act) \<Rightarrow>
                 (let action = (case act of None \<Rightarrow> '''' | Some a \<Rightarrow> ''/'' @ a)
                  in if \<not> valid_stt_id sid \<or> action \<noteq> '''' \<and> action \<noteq> ''/chunks'' \<and> action \<noteq> ''/finish'' then None
                     else Some (sid, action))))"

definition read_stt_chunk :: "stt_config \<Rightarrow> string option \<Rightarrow> reply + string" where
  "read_stt_chunk cfg raw =
     (case raw of
        None \<Rightarrow> Inl (write_err 400 ''read audio failed'')
      | Some b \<Rightarrow>
          if max_chunk_bytes cfg < int (length b)
          then Inl (write_err 413 (''chunk too large, max '' @ int_str (max_chunk_bytes cfg) @ '' bytes''))
          else Inr b)"

text \<open>
  The engine's document with a cleaned text; anything unexpected leaves the bytes as they are. A map
  is written with its keys in order.
\<close>

definition clean_text :: "string \<Rightarrow> string" where
  "clean_text s = of_runes (dedup_transcript (runes s))"

definition rewrite_text :: "(string \<times> json) list \<Rightarrow> string \<Rightarrow> json" where
  "rewrite_text kvs txt = JObj (map (\<lambda>k. (k, if k = ''text'' then JStr txt else the (map_entry k kvs)))
     (sort (remdups (map fst kvs))))"

definition dedup_engine_transcript :: "string \<Rightarrow> payload" where
  "dedup_engine_transcript raw =
     (case parse_json raw of
        Some (JObj kvs) \<Rightarrow>
          (case map_entry ''text'' kvs of
             Some (JStr original) \<Rightarrow>
               (let cleaned = clean_text original
                in if cleaned = original then PText raw else PJson (rewrite_text kvs cleaned))
           | _ \<Rightarrow> PText raw)
      | _ \<Rightarrow> PText raw)"

definition post_stt_chunk :: "engine \<Rightarrow> stt_config \<Rightarrow> stt_engine \<Rightarrow> string \<Rightarrow> string \<Rightarrow> string option \<Rightarrow> reply" where
  "post_stt_chunk eng cfg e sid action raw =
     (case read_stt_chunk cfg raw of
        Inl rp \<Rightarrow> rp
      | Inr b \<Rightarrow>
          if b = '''' \<and> action = ''/chunks'' then write_err 400 ''empty chunk''
          else (case execute_stt eng e ''POST'' (''/sessions/'' @ sid @ action) (Some b) of
                  Inl _ \<Rightarrow> write_err 502 ''stt engine unreachable''
                | Inr (status, out) \<Rightarrow>
                    reply (proxy_status status)
                      (if (action = ''/chunks'' \<or> action = ''/finish'') \<and> status = 200
                       then dedup_engine_transcript out else PText out)))"

definition handle_stt_session :: "crypto \<Rightarrow> engine \<Rightarrow> stt_config \<Rightarrow> string option \<Rightarrow> request \<Rightarrow> server \<Rightarrow> reply \<times> server" where
  "handle_stt_session c eng cfg raw r sv =
     (if q_method r \<noteq> ''POST'' \<and> q_method r \<noteq> ''DELETE'' then (not_allowed, sv)
      else stt_guarded c cfg r (\<lambda>e.
        case split_stt_path (q_path r) of
          None \<Rightarrow> write_err 400 ''bad stt session path''
        | Some (sid, action) \<Rightarrow>
            if q_method r = ''POST'' then post_stt_chunk eng cfg e sid action raw
            else (case execute_stt eng e ''DELETE'' (''/sessions/'' @ sid @ action) None of
                    Inl _ \<Rightarrow> write_err 502 ''stt engine unreachable''
                  | Inr (status, out) \<Rightarrow> write_raw (proxy_status status) out)) sv)"

subsection \<open>Correction by the language model\<close>

text \<open>
  \<open>mdl k txt\<close> is the answer to the \<open>k\<close>-th completion, with the system prompt of the correction;
  \<open>late k\<close> says that the deadline passes in the pause after it. A text that fails is tried once more.
\<close>

type_synonym model = "nat \<Rightarrow> runes \<Rightarrow> string + runes"

definition complete_with_retry :: "model \<Rightarrow> (nat \<Rightarrow> bool) \<Rightarrow> runes \<Rightarrow> nat \<Rightarrow> (string + runes) \<times> nat" where
  "complete_with_retry mdl late txt k =
     (case mdl k txt of
        Inr out \<Rightarrow> (Inr out, Suc k)
      | Inl e \<Rightarrow> if late k then (Inl e, Suc k) else (mdl (Suc k) txt, Suc (Suc k)))"

definition refine_chunk_runes :: nat where
  "refine_chunk_runes = 200"

definition local_rules :: "runes \<Rightarrow> runes" where
  "local_rules txt = local_punctuate (dedup_transcript (fix_common_misrecognitions txt))"

fun refine_chunks :: "model \<Rightarrow> (nat \<Rightarrow> bool) \<Rightarrow> runes list \<Rightarrow> nat \<Rightarrow> runes list" where
  "refine_chunks mdl late [] k = []"
| "refine_chunks mdl late (ch # chs) k =
     (case complete_with_retry mdl late ch k of (res, k1) \<Rightarrow>
        strip_fences (case res of Inl _ \<Rightarrow> local_rules ch | Inr out \<Rightarrow> out) # refine_chunks mdl late chs k1)"

fun join_space :: "runes list \<Rightarrow> runes" where
  "join_space [] = []"
| "join_space [x] = x"
| "join_space (x # xs) = x @ 32 # join_space xs"

definition refine_with_llm :: "model \<Rightarrow> (nat \<Rightarrow> bool) \<Rightarrow> runes \<Rightarrow> string + runes" where
  "refine_with_llm mdl late txt =
     (if length txt \<le> refine_chunk_runes
      then (case fst (complete_with_retry mdl late txt 0) of
              Inl e \<Rightarrow> Inl e
            | Inr out \<Rightarrow> Inr (strip_fences out))
      else Inr (join_space (refine_chunks mdl late (split_clauses txt) 0)))"

text \<open>The answer to a transcript: the text, whether it changed, and the reason when the model was not used.\<close>

definition refine_answer :: "bool \<Rightarrow> model \<Rightarrow> (nat \<Rightarrow> bool) \<Rightarrow> runes \<Rightarrow> runes \<times> bool \<times> string" where
  "refine_answer enabled mdl late original =
     (let fallback = (\<lambda>reason. let cleaned = local_rules original in (cleaned, cleaned \<noteq> original, reason));
          input = fix_common_misrecognitions original
      in if \<not> enabled then fallback ''llm not configured''
         else case refine_with_llm mdl late input of
           Inl _ \<Rightarrow> fallback ''llm failed''
         | Inr cleaned \<Rightarrow>
             if \<not> refine_plausible original cleaned then fallback ''rejected''
             else (let out = (if cleaned = input then local_punctuate (dedup_transcript input) else cleaned)
                   in (out, out \<noteq> original, '''')))"

definition refine_max_input_bytes :: nat where
  "refine_max_input_bytes = 16384"

definition refine_json :: "runes \<times> bool \<times> string \<Rightarrow> (string \<times> json) list" where
  "refine_json a = (case a of (txt, changed, reason) \<Rightarrow>
     [(''text'', JStr (of_runes txt)), (''changed'', JBool changed)] @
     (if reason = '''' then [] else [(''reason'', JStr reason)]))"

definition refine_page :: "model \<Rightarrow> (nat \<Rightarrow> bool) \<Rightarrow> string option \<Rightarrow> server \<Rightarrow> reply" where
  "refine_page mdl late raw sv =
     (case raw of
        None \<Rightarrow> write_err 400 ''invalid request body''
      | Some b \<Rightarrow>
          if refine_max_input_bytes < length b then write_err 413 ''text too long''
          else (case Option.bind (parse_json b) (as_obj (str_field ''text'')) of
                  None \<Rightarrow> write_err 400 ''invalid request body''
                | Some txt \<Rightarrow>
                    (let original = trim (runes txt)
                     in if original = [] then write_err 400 ''text is empty''
                        else write_json 200 (refine_json (refine_answer (llm_enabled (sv_llm sv)) mdl late original)))))"

definition handle_stt_refine :: "crypto \<Rightarrow> model \<Rightarrow> (nat \<Rightarrow> bool) \<Rightarrow> string option \<Rightarrow> request \<Rightarrow> server \<Rightarrow> reply \<times> server" where
  "handle_stt_refine c mdl late raw r sv =
     (if q_method r \<noteq> ''POST'' then (not_allowed, sv)
      else guarded ''invalid token'' (token_gate c r) (\<lambda>sv. (refine_page mdl late raw sv, sv)) sv)"

subsection \<open>What a correction returns\<close>


text \<open>
  C34. A correction never fails and never trusts the model blindly. Whatever the model answers, and
  however often it fails, the text returned is the transcript under the local rules, or the model's
  own correction of it, which then is plausible; and it is marked as changed exactly when it differs
  from the transcript.
\<close>
theorem correction_is_local_or_plausible:
  "case refine_answer enabled mdl late original of (txt, changed, reason) \<Rightarrow>
     changed = (txt \<noteq> original) \<and>
     (txt = local_rules original \<or>
      enabled \<and> reason = '''' \<and> refine_plausible original txt \<and>
      refine_with_llm mdl late (fix_common_misrecognitions original) = Inr txt)"
proof (cases "enabled")
  case False
  then show ?thesis by (simp add: refine_answer_def Let_def)
next
  case True
  show ?thesis
  proof (cases "refine_with_llm mdl late (fix_common_misrecognitions original)")
    case (Inl e)
    then show ?thesis using True by (simp add: refine_answer_def Let_def)
  next
    case (Inr out)
    then show ?thesis
      using True by (cases "refine_plausible original out") (simp_all add: refine_answer_def Let_def local_rules_def)
  qed
qed

end
