(* ===== verification/Migrate.thy ===== *)
theory Migrate
  imports GoStrings
begin

text \<open>
  The schema migrations (\<open>internal/store/migrate.go\<close>), the placeholders of the two SQL dialects
  (\<open>rebind.go\<close>) and the choice of the driver (\<open>driver.go\<close>, \<open>Open\<close> in \<open>store.go\<close>).
  A data definition statement is a value; what the database makes of it is written out below, with
  the one difference between the dialects that matters here: SQLite refuses to add a column whose
  default is not constant to a table that has rows. Any statement can fail, as \<open>sd_faults\<close> says.
\<close>

subsection \<open>Placeholders\<close>

text \<open>\<open>itoa\<close> fills a buffer of sixteen bytes from its end; a longer number panics (\<open>None\<close>).\<close>

fun itoa_digits :: "nat \<Rightarrow> nat \<Rightarrow> string \<Rightarrow> string option" where
  "itoa_digits i n acc =
     (if n = 0 then Some acc
      else case i of 0 \<Rightarrow> None | Suc j \<Rightarrow> itoa_digits j (n div 10) (char_of (48 + n mod 10) # acc))"

declare itoa_digits.simps [simp del]

definition itoa :: "int \<Rightarrow> string option" where
  "itoa n = (if n = 0 then Some ''0'' else if n < 0 then Some '''' else itoa_digits 16 (nat n) '''')"

fun rebind_from :: "int \<Rightarrow> string \<Rightarrow> string option" where
  "rebind_from n [] = Some []"
| "rebind_from n (c # cs) =
     (if c = CHR ''?'' then
        (case (itoa (n + 1), rebind_from (n + 1) cs) of
           (Some d, Some rest) \<Rightarrow> Some (CHR ''$'' # d @ rest)
         | _ \<Rightarrow> None)
      else map_option ((#) c) (rebind_from n cs))"

definition rebind :: "string \<Rightarrow> string \<Rightarrow> string option" where
  "rebind driver query = (if driver \<noteq> ''pgx'' then Some query else rebind_from 0 query)"

subsection \<open>Drivers\<close>

definition driver_name :: "string \<Rightarrow> string + string" where
  "driver_name d = (if d = ''sqlite'' then Inr ''sqlite'' else if d = ''postgres'' then Inr ''pgx''
     else Inl (''unsupported driver '' @ d))"

definition is_postgres :: "string \<Rightarrow> bool" where
  "is_postgres d \<longleftrightarrow> d = ''postgres'' \<or> d = ''pgx''"

text \<open>\<open>abs\<close> is \<open>filepath.Abs\<close>; the two pragmas are encoded in the order they were added.\<close>

definition sqlite_dsn :: "(string \<Rightarrow> string option) \<Rightarrow> string \<Rightarrow> string" where
  "sqlite_dsn abs_path path = ''file:'' @ (case abs_path path of None \<Rightarrow> path | Some p \<Rightarrow> p) @
     ''?_pragma=journal_mode%28WAL%29&_pragma=busy_timeout%285000%29''"

subsection \<open>Statements and what they do\<close>

datatype dflt = Primary | AutoIncrement | NotNull | NotNullUnique | Nullable
  | DefText string | DefInt int | DefTrue | DefNow

type_synonym column = "string \<times> string \<times> dflt"

datatype ddl =
    CreateTable string "column list"
  | AddColumn bool string column
  | CreateIndex string string "string list"

record schema =
  sd_tables :: "(string \<times> column list) list"
  sd_indexes :: "(string \<times> string \<times> string list) list"
  sd_versions :: "nat list option"
  sd_filled :: "string list"
  sd_faults :: "bool list"

definition empty_schema :: schema where
  "empty_schema = \<lparr>sd_tables = [], sd_indexes = [], sd_versions = None, sd_filled = [], sd_faults = []\<rparr>"

definition columns_of :: "string \<Rightarrow> schema \<Rightarrow> string list" where
  "columns_of t s = (case map_of (sd_tables s) t of None \<Rightarrow> [] | Some cs \<Rightarrow> map fst cs)"

definition exec_ddl :: "string \<Rightarrow> ddl \<Rightarrow> schema \<Rightarrow> (string + unit) \<times> schema" where
  "exec_ddl driver d s = (case d of
     CreateTable t cs \<Rightarrow>
       (Inr (), if map_of (sd_tables s) t \<noteq> None then s else s\<lparr>sd_tables := sd_tables s @ [(t, cs)]\<rparr>)
   | AddColumn unless t c \<Rightarrow>
       (case map_of (sd_tables s) t of
          None \<Rightarrow> (Inl (''no such table: '' @ t), s)
        | Some cs \<Rightarrow>
            if fst c \<in> set (map fst cs) then (if unless then (Inr (), s) else (Inl (''duplicate column name: '' @ fst c), s))
            else if \<not> is_postgres driver \<and> snd (snd c) = DefNow \<and> t \<in> set (sd_filled s)
            then (Inl ''Cannot add a column with non-constant default'', s)
            else (Inr (), s\<lparr>sd_tables := map (\<lambda>(n, cs). (n, if n = t then cs @ [c] else cs)) (sd_tables s)\<rparr>))
   | CreateIndex i t cols \<Rightarrow>
       if map_of (sd_indexes s) i \<noteq> None then (Inr (), s)
       else if \<not> list_all (\<lambda>c. c \<in> set (columns_of t s)) cols then (Inl (''no such column in '' @ t), s)
       else (Inr (), s\<lparr>sd_indexes := sd_indexes s @ [(i, t, cols)]\<rparr>))"

text \<open>A statement that can be lost.\<close>

definition sql_call :: "(schema \<Rightarrow> (string + 'a) \<times> schema) \<Rightarrow> schema \<Rightarrow> (string + 'a) \<times> schema" where
  "sql_call f s =
     (case sd_faults s of
        [] \<Rightarrow> f s
      | b # fs \<Rightarrow> if b then (Inl ''driver error'', s\<lparr>sd_faults := fs\<rparr>) else f (s\<lparr>sd_faults := fs\<rparr>))"

subsection \<open>The steps\<close>

text \<open>A step is a statement, or the query for a column and the statement that adds it when it is missing.\<close>

datatype step = Stmt ddl | Missing string column

definition run_step :: "string \<Rightarrow> step \<Rightarrow> schema \<Rightarrow> (string + unit) \<times> schema" where
  "run_step driver st s = (case st of
     Stmt d \<Rightarrow> sql_call (exec_ddl driver d) s
   | Missing t c \<Rightarrow>
       (case sql_call (\<lambda>s. (Inr (fst c \<in> set (columns_of t s)), s)) s of
          (Inl e, s1) \<Rightarrow> (Inl e, s1)
        | (Inr True, s1) \<Rightarrow> (Inr (), s1)
        | (Inr False, s1) \<Rightarrow> sql_call (exec_ddl driver (AddColumn False t c)) s1))"

fun run_steps :: "string \<Rightarrow> step list \<Rightarrow> schema \<Rightarrow> (string + unit) \<times> schema" where
  "run_steps driver [] s = (Inr (), s)"
| "run_steps driver (st # sts) s =
     (case run_step driver st s of
        (Inl e, s1) \<Rightarrow> (Inl e, s1)
      | (Inr _, s1) \<Rightarrow> run_steps driver sts s1)"

type_synonym migration = "string \<times> (string \<Rightarrow> step list)"

definition id_column :: "string \<Rightarrow> column" where
  "id_column driver = (if is_postgres driver then (''id'', ''BIGSERIAL'', Primary) else (''id'', ''INTEGER'', AutoIncrement))"

abbreviation text_column :: "string \<Rightarrow> column" where
  "text_column n \<equiv> (n, ''TEXT'', DefText '''')"

abbreviation stamp_column :: "string \<Rightarrow> column" where
  "stamp_column n \<equiv> (n, ''TIMESTAMP'', DefNow)"

abbreviation time_column :: "string \<Rightarrow> column" where
  "time_column n \<equiv> (n, ''TIMESTAMP'', Nullable)"

definition migration_initial :: "string \<Rightarrow> step list" where
  "migration_initial _ =
     [Stmt (CreateTable ''settings'' [(''key'', ''TEXT'', Primary), text_column ''value'', stamp_column ''updated_at'']),
      Stmt (CreateTable ''tokens'' [(''id'', ''TEXT'', Primary), text_column ''name'',
        (''token_hash'', ''TEXT'', NotNullUnique), stamp_column ''created_at'', time_column ''revoked_at'',
        time_column ''last_used''])]"

definition migration_tasks :: "string \<Rightarrow> step list" where
  "migration_tasks _ =
     [Stmt (CreateTable ''tasks'' [(''id'', ''TEXT'', Primary), text_column ''session_id'', text_column ''directory'',
        text_column ''prompt'', (''status'', ''TEXT'', DefText ''queued''), text_column ''error'', text_column ''result'',
        text_column ''progress'', (''attempts'', ''INTEGER'', DefInt 0), stamp_column ''created_at'',
        stamp_column ''updated_at'', time_column ''started_at'', time_column ''finished_at'']),
      Stmt (CreateIndex ''idx_tasks_status_created'' ''tasks'' [''status'', ''created_at''])]"

definition migration_tasks_available_at :: "string \<Rightarrow> step list" where
  "migration_tasks_available_at _ =
     [Stmt (AddColumn False ''tasks'' (stamp_column ''available_at'')),
      Stmt (CreateIndex ''idx_tasks_available'' ''tasks'' [''status'', ''available_at''])]"

definition migration_rules :: "string \<Rightarrow> step list" where
  "migration_rules _ =
     [Stmt (CreateTable ''rules'' [(''id'', ''TEXT'', Primary), text_column ''name'', (''kind'', ''TEXT'', DefText ''cron''),
        text_column ''schedule'', text_column ''directory'', text_column ''prompt'', (''enabled'', ''BOOLEAN'', DefTrue),
        time_column ''last_fired_at'', stamp_column ''created_at''])]"

definition migration_audit_log :: "string \<Rightarrow> step list" where
  "migration_audit_log driver =
     [Stmt (CreateTable ''audit_log'' [id_column driver, text_column ''token_id'', text_column ''token_name'',
        text_column ''method'', text_column ''path'', (''status'', ''INTEGER'', DefInt 0), stamp_column ''created_at'']),
      Stmt (CreateIndex ''idx_audit_token_created'' ''audit_log'' [''token_id'', ''id''])]"

definition migration_archives :: "string \<Rightarrow> step list" where
  "migration_archives _ =
     [Stmt (CreateTable ''archives'' [(''id'', ''TEXT'', Primary), text_column ''session_id'', text_column ''title'',
        (''format'', ''TEXT'', DefText ''markdown''), text_column ''content'', (''size'', ''INTEGER'', DefInt 0),
        stamp_column ''created_at''])]"

definition migration_web_sessions :: "string \<Rightarrow> step list" where
  "migration_web_sessions _ =
     [Stmt (CreateTable ''web_sessions'' [(''id'', ''TEXT'', Primary), (''expires_at'', ''TIMESTAMP'', NotNull)]),
      Stmt (CreateIndex ''idx_web_sessions_expires'' ''web_sessions'' [''expires_at''])]"

definition migration_rule_executions :: "string \<Rightarrow> step list" where
  "migration_rule_executions driver =
     [Stmt (CreateTable ''rule_executions'' [id_column driver, (''rule_id'', ''TEXT'', NotNull), text_column ''task_id'',
        stamp_column ''triggered_at'']),
      Stmt (CreateIndex ''idx_rule_exec_rule_id'' ''rule_executions'' [''rule_id'', ''id''])]"

definition migration_tasks_ai_summary :: "string \<Rightarrow> step list" where
  "migration_tasks_ai_summary _ = [Stmt (AddColumn False ''tasks'' (text_column ''ai_summary''))]"

definition migration_tasks_depends_on :: "string \<Rightarrow> step list" where
  "migration_tasks_depends_on _ =
     [Stmt (AddColumn False ''tasks'' (text_column ''depends_on'')),
      Stmt (CreateIndex ''idx_tasks_depends_on'' ''tasks'' [''depends_on'', ''status''])]"

definition migration_tasks_schedule :: "string \<Rightarrow> step list" where
  "migration_tasks_schedule _ =
     [Stmt (AddColumn False ''tasks'' (text_column ''name'')),
      Stmt (AddColumn False ''tasks'' (time_column ''scheduled_at'')),
      Stmt (AddColumn False ''tasks'' (text_column ''cron'')),
      Stmt (AddColumn False ''tasks'' (time_column ''last_fired_at''))]"

definition migration_session_events :: "string \<Rightarrow> step list" where
  "migration_session_events driver =
     [Stmt (CreateTable ''session_events'' [id_column driver, text_column ''session_id'', text_column ''event_type'',
        (''payload'', if is_postgres driver then ''jsonb'' else ''TEXT'', Nullable), stamp_column ''created_at'']),
      Stmt (CreateIndex ''idx_session_events_session_created'' ''session_events'' [''session_id'', ''created_at'']),
      Stmt (CreateIndex ''idx_session_events_created'' ''session_events'' [''created_at''])]"

definition migration_archives_raw_messages :: "string \<Rightarrow> step list" where
  "migration_archives_raw_messages driver =
     (if is_postgres driver then [Stmt (AddColumn True ''archives'' (text_column ''raw_messages''))]
      else [Missing ''archives'' (text_column ''raw_messages'')])"

definition migration_session_unread :: "string \<Rightarrow> step list" where
  "migration_session_unread _ =
     [Stmt (CreateTable ''session_unread'' [(''session_id'', ''TEXT'', Primary), (''unread'', ''BOOLEAN'', DefTrue),
        stamp_column ''updated_at''])]"

definition migrations :: "migration list" where
  "migrations =
     [(''initial'', migration_initial), (''tasks'', migration_tasks),
      (''tasks_available_at'', migration_tasks_available_at), (''rules'', migration_rules),
      (''audit_log'', migration_audit_log), (''archives'', migration_archives),
      (''web_sessions'', migration_web_sessions), (''rule_executions'', migration_rule_executions),
      (''tasks_ai_summary'', migration_tasks_ai_summary), (''tasks_depends_on'', migration_tasks_depends_on),
      (''tasks_schedule'', migration_tasks_schedule), (''session_events'', migration_session_events),
      (''archives_raw_messages'', migration_archives_raw_messages), (''session_unread'', migration_session_unread)]"

subsection \<open>The runner\<close>

definition recorded :: "schema \<Rightarrow> nat list" where
  "recorded s = (case sd_versions s of None \<Rightarrow> [] | Some vs \<Rightarrow> vs)"

definition current_version :: "schema \<Rightarrow> (string + nat) \<times> schema" where
  "current_version s = (case sql_call (\<lambda>s. (Inr (fold max (recorded s) 0), s)) s of
     (Inl e, s1) \<Rightarrow> (Inl (''read current version: '' @ e), s1)
   | (Inr v, s1) \<Rightarrow> (Inr v, s1))"

definition record_version :: "nat \<Rightarrow> schema \<Rightarrow> (string + unit) \<times> schema" where
  "record_version v = sql_call (\<lambda>s.
     if v \<in> set (recorded s) then (Inl ''UNIQUE constraint failed: schema_migrations.version'', s)
     else (Inr (), s\<lparr>sd_versions := Some (recorded s @ [v])\<rparr>))"

fun apply_from :: "string \<Rightarrow> nat \<Rightarrow> migration list \<Rightarrow> schema \<Rightarrow> (string + unit) \<times> schema" where
  "apply_from driver cur [] s = (Inr (), s)"
| "apply_from driver cur ((name, steps) # ms) s =
     (case run_steps driver (steps driver) s of
        (Inl e, s1) \<Rightarrow> (Inl (''migration '' @ nat_digits (Suc cur) @ '' ('' @ name @ ''): '' @ e), s1)
      | (Inr _, s1) \<Rightarrow>
          (case record_version (Suc cur) s1 of
             (Inl e, s2) \<Rightarrow> (Inl (''record migration '' @ nat_digits (Suc cur) @ '': '' @ e), s2)
           | (Inr _, s2) \<Rightarrow> apply_from driver (Suc cur) ms s2))"

definition migrate :: "string \<Rightarrow> schema \<Rightarrow> (string + unit) \<times> schema" where
  "migrate driver s =
     (case sql_call (\<lambda>s. (Inr (), s\<lparr>sd_versions := Some (recorded s)\<rparr>)) s of
        (Inl e, s1) \<Rightarrow> (Inl (''create schema_migrations: '' @ e), s1)
      | (Inr _, s1) \<Rightarrow>
          (case current_version s1 of
             (Inl e, s2) \<Rightarrow> (Inl e, s2)
           | (Inr cur, s2) \<Rightarrow> apply_from driver cur (drop cur migrations) s2))"

text \<open>
  Opening a store: the registered drivers are \<open>sqlite\<close> and \<open>pgx\<close>; the limits of the connection pool
  are set for a third name. The result is the driver of the store and whether its pool is limited.
\<close>

definition open_store :: "bool \<Rightarrow> string \<Rightarrow> schema \<Rightarrow> (string + string \<times> bool) \<times> schema" where
  "open_store reachable driver s =
     (if driver \<noteq> ''sqlite'' \<and> driver \<noteq> ''pgx'' then (Inl (''sql: unknown driver '' @ driver), s)
      else if \<not> reachable then (Inl ''ping failed'', s)
      else case migrate driver s of
        (Inl e, s1) \<Rightarrow> (Inl e, s1)
      | (Inr _, s1) \<Rightarrow> (Inr (driver, driver = ''postgres''), s1))"

definition open_from_config :: "bool \<Rightarrow> string \<Rightarrow> schema \<Rightarrow> (string + string \<times> bool) \<times> schema" where
  "open_from_config reachable driver s =
     (case driver_name driver of
        Inl e \<Rightarrow> (Inl e, s)
      | Inr reg \<Rightarrow> open_store reachable reg s)"

end
