(* ===== verification/Startup.thy ===== *)
theory Startup
  imports LlmApi Stt MigrateSpec
begin

text \<open>
  The configuration (\<open>internal/config/config.go\<close>) and the start of the program
  (\<open>cmd/starburst-backend/main.go\<close>): the store, the administrator's password, the default token, the
  settings of the language model, the server and its workers, and the periodic housekeeping.
  The flag package is an argument: it either refuses the command line or gives the values that were
  set; the environment is a map.
\<close>

subsection \<open>Configuration\<close>

record config =
  cf_listen :: string
  cf_opencode :: string
  cf_driver :: string
  cf_sqlite :: string
  cf_dsn :: string
  cf_password :: string
  cf_token :: string
  cf_secret :: string
  cf_workers :: int
  cf_retention :: duration
  cf_llm :: "string \<times> string \<times> string"
  cf_stt :: string
  cf_stt_timeout :: duration
  cf_chunk :: int
  cf_version :: bool
  cf_health :: bool

type_synonym environment = "string \<Rightarrow> string option"

definition env_or :: "environment \<Rightarrow> string \<Rightarrow> string \<Rightarrow> string" where
  "env_or env k fallback =
     (case env k of None \<Rightarrow> fallback | Some v \<Rightarrow> if trim_space v \<noteq> '''' then v else fallback)"

definition env_plain :: "environment \<Rightarrow> string \<Rightarrow> string" where
  "env_plain env k = (case env k of None \<Rightarrow> '''' | Some v \<Rightarrow> v)"

definition env_int :: "environment \<Rightarrow> string \<Rightarrow> int \<Rightarrow> int" where
  "env_int env k fallback =
     (case env k of
        None \<Rightarrow> fallback
      | Some v \<Rightarrow> if trim_space v = '''' then fallback
                  else case atoi (trim_space v) of None \<Rightarrow> fallback | Some n \<Rightarrow> n)"

definition env_duration :: "environment \<Rightarrow> string \<Rightarrow> duration \<Rightarrow> duration" where
  "env_duration env k fallback =
     (case env k of
        None \<Rightarrow> fallback
      | Some v \<Rightarrow> if trim_space v = '''' then fallback
                  else case parse_duration (trim_space v) of None \<Rightarrow> fallback | Some d \<Rightarrow> d)"

definition clamp_int :: "int \<Rightarrow> int \<Rightarrow> int \<Rightarrow> int" where
  "clamp_int n lo hi = (if n < lo then lo else if hi < n then hi else n)"

definition default_stt_timeout :: duration where
  "default_stt_timeout = 30 * second"

definition stt_timeout_or_default :: "duration \<Rightarrow> duration \<Rightarrow> duration" where
  "stt_timeout_or_default d fallback = (if d \<le> 0 then fallback else d)"

text \<open>The flags that the command line set.\<close>

record flags =
  fl_str :: "string \<Rightarrow> string option"
  fl_int :: "string \<Rightarrow> int option"
  fl_dur :: "string \<Rightarrow> duration option"
  fl_bool :: "string \<Rightarrow> bool option"

definition flag :: "(string \<Rightarrow> 'a option) \<Rightarrow> string \<Rightarrow> 'a \<Rightarrow> 'a" where
  "flag f name dflt = (case f name of None \<Rightarrow> dflt | Some v \<Rightarrow> v)"

definition parse_config :: "environment \<Rightarrow> string + flags \<Rightarrow> string + config" where
  "parse_config env cmdline =
     (case cmdline of
        Inl e \<Rightarrow> Inl e
      | Inr fl \<Rightarrow>
          (let s = flag (fl_str fl);
               raw_driver = s ''db'' (env_or env ''OCB_DB'' ''sqlite'');
               driver = to_lower raw_driver;
               dsn = s ''pg-dsn'' (env_plain env ''OCB_PG_DSN'')
           in if driver \<noteq> ''sqlite'' \<and> driver \<noteq> ''postgres''
              then Inl (''invalid db driver '' @ raw_driver @ '': must be sqlite or postgres'')
              else if driver = ''postgres'' \<and> trim_space dsn = ''''
              then Inl ''db=postgres requires a postgres DSN (--pg-dsn or OCB_PG_DSN)''
              else Inr \<lparr>cf_listen = s ''listen'' (env_or env ''OCB_LISTEN'' '':18880''),
                cf_opencode = trim_right (CHR ''/'') (s ''opencode-url'' (env_or env ''OCB_OPENCODE_URL'' ''http://127.0.0.1:4096'')),
                cf_driver = driver,
                cf_sqlite = s ''sqlite-path'' (env_or env ''OCB_SQLITE_PATH'' ''starburst-backend.db''),
                cf_dsn = dsn,
                cf_password = s ''default-admin-password'' (env_or env ''OCB_ADMIN_PASSWORD'' ''admin''),
                cf_token = s ''default-token'' (env_plain env ''OCB_DEFAULT_TOKEN''),
                cf_secret = s ''webhook-secret'' (env_plain env ''OCB_WEBHOOK_SECRET''),
                cf_workers = clamp_int (flag (fl_int fl) ''workers'' (env_int env ''OCB_WORKERS'' 4)) 1 64,
                cf_retention = flag (fl_dur fl) ''task-retention'' (env_duration env ''OCB_TASK_RETENTION'' 0),
                cf_llm = (trim_right (CHR ''/'') (s ''llm-url'' (env_or env ''OCB_LLM_URL'' '''')),
                  s ''llm-key'' (env_plain env ''OCB_LLM_KEY''), s ''llm-model'' (env_or env ''OCB_LLM_MODEL'' '''')),
                cf_stt = trim_right (CHR ''/'') (s ''stt-url'' (env_or env ''OCB_STT_URL'' '''')),
                cf_stt_timeout = stt_timeout_or_default
                  (flag (fl_dur fl) ''stt-timeout'' (env_duration env ''OCB_STT_TIMEOUT'' default_stt_timeout)) default_stt_timeout,
                cf_chunk = clamp_int (flag (fl_int fl) ''stt-max-chunk-bytes'' (env_int env ''OCB_STT_MAX_CHUNK_BYTES'' 2097152))
                  1024 8388608,
                cf_version = flag (fl_bool fl) ''version'' False,
                cf_health = flag (fl_bool fl) ''health-check'' False\<rparr>))"

definition port :: "config \<Rightarrow> int" where
  "port cf =
     (case last_index_of (cf_listen cf) '':'' of
        None \<Rightarrow> 0
      | Some n \<Rightarrow>
          if Suc n = length (cf_listen cf) then 0
          else case atoi (drop (Suc n) (cf_listen cf)) of None \<Rightarrow> 0 | Some p \<Rightarrow> p)"

subsection \<open>The start\<close>

definition mask_token :: "string \<Rightarrow> string" where
  "mask_token s = (if length s \<le> 4 then ''****'' else take 4 s)"

text \<open>What is outside the program: directories, reachability of the database, cryptography.\<close>

record host =
  ho_mkdir :: "string \<Rightarrow> bool"
  ho_reachable :: bool
  ho_crypto :: crypto

record running =
  rn_server :: server
  rn_client :: oc_client
  rn_stt :: stt_config
  rn_executor :: executor
  rn_interval :: duration

definition executor_of :: "config \<Rightarrow> llm_config \<Rightarrow> executor" where
  "executor_of cf lc = with_retention (cf_retention cf) (with_workers (cf_workers cf)
     (with_llm (llm_enabled (Some lc)) new_executor))"

definition wire :: "config \<Rightarrow> llm_config \<Rightarrow> world \<Rightarrow> running" where
  "wire cf lc w =
     \<lparr>rn_server = (new_server (cf_secret cf) w)\<lparr>sv_llm := Some lc\<rparr>,
      rn_client = new_client (cf_opencode cf),
      rn_stt = set_stt (cf_stt cf) \<lparr>stt_engine_of = None, stt_max_chunk = cf_chunk cf\<rparr>,
      rn_executor = executor_of cf lc,
      rn_interval = engine_interval (15 * second)\<rparr>"

definition start_auth :: "crypto \<Rightarrow> config \<Rightarrow> world \<Rightarrow> (string + running) \<times> world" where
  "start_auth c cf w =
     (case call (initialize c (cf_password cf)) w of
        (Inl _, w1) \<Rightarrow> (Inl ''initialize auth'', w1)
      | (Inr _, w1) \<Rightarrow>
          (case call (ensure_default_token c (cf_token cf)) w1 of
             (Inl _, w2) \<Rightarrow> (Inl ''provision default token'', w2)
           | (Inr _, w2) \<Rightarrow>
               (case call (load_llm_config (cf_llm cf)) w2 of (lc, w3) \<Rightarrow> (Inr (wire cf lc w3), w3))))"

definition open_database :: "host \<Rightarrow> config \<Rightarrow> schema \<Rightarrow> (string + unit) \<times> schema" where
  "open_database h cf sc =
     (if cf_driver cf = ''sqlite'' \<and> \<not> ho_mkdir h (cf_sqlite cf) then (Inl ''prepare sqlite dir'', sc)
      else case open_from_config (ho_reachable h) (cf_driver cf) sc of
        (Inl e, sc1) \<Rightarrow> (Inl (''open '' @ cf_driver cf @ '' store: '' @ e), sc1)
      | (Inr _, sc1) \<Rightarrow> (Inr (), sc1))"

definition start_up :: "host \<Rightarrow> config \<Rightarrow> schema \<Rightarrow> world \<Rightarrow> (string + running) \<times> schema \<times> world" where
  "start_up h cf sc w =
     (case open_database h cf sc of
        (Inl e, sc1) \<Rightarrow> (Inl e, sc1, w)
      | (Inr _, sc1) \<Rightarrow> (case start_auth (ho_crypto h) cf w of (res, w1) \<Rightarrow> (res, sc1, w1)))"

text \<open>The exit code of \<open>--health-check\<close>; \<open>alive\<close> says that the store still answers at the end.\<close>

definition run_health_check :: "host \<Rightarrow> upstream \<Rightarrow> bool \<Rightarrow> config \<Rightarrow> schema \<Rightarrow> int \<times> schema" where
  "run_health_check h up alive cf sc =
     (case open_database h cf sc of
        (Inl _, sc1) \<Rightarrow> (1, sc1)
      | (Inr _, sc1) \<Rightarrow>
          (if ping up (new_client (cf_opencode cf)) \<noteq> None then 1 else if \<not> alive then 1 else 0, sc1))"

subsection \<open>Periodic work\<close>

definition housekeeping :: "world \<Rightarrow> world" where
  "housekeeping w = run_call delete_expired_web_sessions
     (run_call (delete_audit_older_than (now w - 30 * 24 * hour)) w)"

text \<open>The encoding of the time fails, and \<open>mustJSON\<close> panics, from the year 10000 on only.\<close>

definition report_health :: "upstream \<Rightarrow> oc_client \<Rightarrow> world \<Rightarrow> world" where
  "report_health up oc w =
     (case rfc3339_text 0 (now w) of
        None \<Rightarrow> w
      | Some t \<Rightarrow> broadcast_msg \<lparr>m_type = ''upstream.health'',
          m_payload = JObj [(''healthy'', JBool (ping up oc = None)), (''time'', JStr t)], m_severity = []\<rparr> w)"

subsection \<open>The program as a command\<close>

datatype outcome = Fatal string | Printed string | Exited int | Running running

text \<open>\<open>main\<close> up to the listening server.\<close>

definition run_main :: "host \<Rightarrow> upstream \<Rightarrow> bool \<Rightarrow> string \<Rightarrow> environment \<Rightarrow> string + flags \<Rightarrow> schema \<Rightarrow> world \<Rightarrow>
    outcome \<times> schema \<times> world" where
  "run_main h up alive version env cmdline sc w =
     (case parse_config env cmdline of
        Inl e \<Rightarrow> (Fatal (''config: '' @ e), sc, w)
      | Inr cf \<Rightarrow>
          if cf_version cf then (Printed (''starburst-backend '' @ version @ [CHR 0x0A]), sc, w)
          else if cf_health cf then (case run_health_check h up alive cf sc of (code, sc1) \<Rightarrow> (Exited code, sc1, w))
          else (case start_up h cf sc w of
                  (Inl e, sc1, w1) \<Rightarrow> (Fatal e, sc1, w1)
                | (Inr rn, sc1, w1) \<Rightarrow> (Running rn, sc1, w1)))"

lemma version_touches_nothing:
  "parse_config env cmdline = Inr cf \<Longrightarrow> cf_version cf \<Longrightarrow> snd (run_main h up alive v env cmdline sc w) = (sc, w)"
  by (simp add: run_main_def)

text \<open>The health check migrates the database it checks, and writes nothing else.\<close>

lemma health_check_keeps_rows:
  assumes "parse_config env cmdline = Inr cf" and "cf_health cf" and "\<not> cf_version cf"
  shows "snd (snd (run_main h up alive v env cmdline sc w)) = w \<and>
    (fst (run_main h up alive v env cmdline sc w) = Exited 0 \<longrightarrow>
       fst (open_database h cf sc) = Inr () \<and> ping up (new_client (cf_opencode cf)) = None \<and> alive)"
  using assms by (auto simp: run_main_def run_health_check_def split: prod.splits sum.splits if_splits)

subsection \<open>What the configuration guarantees\<close>

lemma clamp_int_range: "lo \<le> hi \<Longrightarrow> lo \<le> clamp_int n lo hi \<and> clamp_int n lo hi \<le> hi"
  by (simp add: clamp_int_def)

lemma trim_right_no_slash: "\<not> has_suffix (trim_right c s) [c]"
proof
  assume "has_suffix (trim_right c s) [c]"
  then obtain r where "rev (dropWhile (\<lambda>x. x = c) (rev s)) = r @ [c]"
    by (auto simp: has_suffix_iff trim_right_def)
  then have "dropWhile (\<lambda>x. x = c) (rev s) = c # rev r" by (metis rev.simps(2) rev_rev_ident rev_eq_Cons_iff)
  then show False using hd_dropWhile[of "\<lambda>x. x = c" "rev s"] by simp
qed

text \<open>
  C37. Every accepted configuration is well formed. Whatever the environment and the flags: the driver
  is one that the store opens, PostgreSQL has a connection string, the numbers are in their ranges, no
  base address ends in a slash, and the executor built from it keeps the number of workers and has no
  negative retention.
\<close>
theorem config_well_formed:
  "case parse_config env cmdline of
     Inl _ \<Rightarrow> True
   | Inr cf \<Rightarrow>
       \<not> isl (driver_name (cf_driver cf)) \<and> (cf_driver cf = ''sqlite'' \<or> 0 < length (trim_space (cf_dsn cf))) \<and>
       cf_workers cf \<in> {1..64} \<and> cf_chunk cf \<in> {1024..8388608} \<and> 0 < cf_stt_timeout cf \<and>
       \<not> has_suffix (cf_opencode cf) ''/'' \<and> \<not> has_suffix (cf_stt cf) ''/'' \<and> \<not> has_suffix (fst (cf_llm cf)) ''/'' \<and>
       x_workers (executor_of cf lc) = cf_workers cf \<and> 0 \<le> x_retention (executor_of cf lc) \<and>
       max_chunk_bytes (rn_stt (wire cf lc w)) = cf_chunk cf"
proof (cases "parse_config env cmdline")
  case (Inr cf)
  then obtain fl where fl: "cmdline = Inr fl" by (cases cmdline) (auto simp: parse_config_def)
  note cfg = Inr[unfolded fl parse_config_def Let_def sum.case]
  have driver: "cf_driver cf = ''sqlite'' \<or> cf_driver cf = ''postgres'' \<and> trim_space (cf_dsn cf) \<noteq> ''''"
    using cfg by (auto split: if_splits)
  have "\<exists>n. cf_workers cf = clamp_int n 1 64" "\<exists>n. cf_chunk cf = clamp_int n 1024 8388608"
    "\<exists>d. cf_stt_timeout cf = stt_timeout_or_default d default_stt_timeout"
    "\<exists>u. cf_opencode cf = trim_right (CHR ''/'') u" "\<exists>u. cf_stt cf = trim_right (CHR ''/'') u"
    "\<exists>u. fst (cf_llm cf) = trim_right (CHR ''/'') u"
    using cfg by (auto split: if_splits)
  then have "cf_workers cf \<in> {1..64}" "cf_chunk cf \<in> {1024..8388608}" "0 < cf_stt_timeout cf"
    "\<not> has_suffix (cf_opencode cf) ''/''" "\<not> has_suffix (cf_stt cf) ''/''" "\<not> has_suffix (fst (cf_llm cf)) ''/''"
    using clamp_int_range trim_right_no_slash
    by (force simp: stt_timeout_or_default_def default_stt_timeout_def)+
  then show ?thesis
    using Inr driver
    by (auto simp: driver_name_def executor_of_def with_retention_def with_workers_def with_llm_def
        new_executor_def max_chunk_bytes_def wire_def set_stt_def)
qed simp

text \<open>Nothing is set: no variable and no flag.\<close>

definition no_flags :: flags where
  "no_flags = \<lparr>fl_str = (\<lambda>_. None), fl_int = (\<lambda>_. None), fl_dur = (\<lambda>_. None), fl_bool = (\<lambda>_. None)\<rparr>"

lemma default_config_password: "parse_config (\<lambda>_. None) (Inr no_flags) = Inr cf \<Longrightarrow> cf_password cf = ''admin''"
  by (auto simp: parse_config_def Let_def no_flags_def flag_def env_or_def split: if_splits)

text \<open>
  C38. A fresh installation with default settings does not start. The password that is used when none
  is configured is on the list of weak passwords that initialisation refuses: with an empty
  environment and no flags, on a new database, the program stops, whatever the host, and stores nothing.
\<close>
theorem fresh_install_does_not_start:
  assumes "parse_config (\<lambda>_. None) (Inr no_flags) = Inr cf" and "w_sched w = []" and "w_db w = empty_db t"
  shows "isl (fst (start_up h cf sc w)) \<and> w_db (snd (snd (start_up h cf sc w))) = empty_db t"
proof -
  have "call (initialize c ''admin'') w = (Inl WeakPassword, w)" for c
    using assms(2,3) by (simp add: call_def others_def default_password_refused)
  then show ?thesis
    using assms(3) default_config_password[OF assms(1)]
    by (auto simp: start_up_def start_auth_def split: sum.split prod.split)
qed

lemma fresh_install_does_not_start_witness:
  "isl (fst (start_up \<lparr>ho_mkdir = (\<lambda>_. True), ho_reachable = True, ho_crypto = plain_crypto\<rparr>
     (case parse_config (\<lambda>_. None) (Inr no_flags) of Inr cf \<Rightarrow> cf) empty_schema
     \<lparr>w_db = empty_db 0, w_out = [], w_jobs = [], w_sched = []\<rparr>))"
proof -
  obtain cf where cf: "parse_config (\<lambda>_. None) (Inr no_flags) = Inr cf"
    by (simp add: parse_config_def Let_def no_flags_def flag_def env_or_def to_lower_def lower_char_def)
  show ?thesis
    unfolding cf sum.case
    using fresh_install_does_not_start[OF cf, of "\<lparr>w_db = empty_db 0, w_out = [], w_jobs = [], w_sched = []\<rparr>" 0
        "\<lparr>ho_mkdir = (\<lambda>_. True), ho_reachable = True, ho_crypto = plain_crypto\<rparr>" empty_schema]
    by simp
qed

end
