(* ===== verification/WebUi.thy ===== *)
theory WebUi
  imports Web
begin

text \<open>
  The embedded pages: \<open>internal/webui/webui.go\<close> and the index handler (\<open>internal/server/index.go\<close>,
  \<open>webui.go\<close>). The assets are a map from names to contents.
\<close>

text \<open>\<open>path.Clean\<close> of a rooted path: the segments that remain.\<close>

fun clean_segments :: "string list \<Rightarrow> string list \<Rightarrow> string list" where
  "clean_segments stack [] = rev stack"
| "clean_segments stack (s # ss) =
     (if s = '''' \<or> s = ''.'' then clean_segments stack ss
      else if s = ''..'' then clean_segments (tl stack) ss
      else clean_segments (s # stack) ss)"

definition path_clean :: "string \<Rightarrow> string" where
  "path_clean p = ''/'' @ join ''/'' (clean_segments [] (split_at (CHR ''/'') p))"

definition content_type :: "string \<Rightarrow> string" where
  "content_type name =
     (if has_suffix name ''.html'' then ''text/html; charset=utf-8''
      else if has_suffix name ''.js'' then ''application/javascript; charset=utf-8''
      else if has_suffix name ''.css'' then ''text/css; charset=utf-8''
      else if has_suffix name ''.svg'' then ''image/svg+xml''
      else if has_suffix name ''.png'' then ''image/png''
      else ''text/plain; charset=utf-8'')"

type_synonym assets = "string \<Rightarrow> string option"

definition serve_asset :: "assets \<Rightarrow> string \<Rightarrow> reply" where
  "serve_asset fs p0 =
     (let p1 = path_clean (''/'' @ p0);
          p = (if p1 = ''/'' \<or> p1 = '''' then ''/index.html'' else p1);
          name = trim_prefix p ''/''
      in case fs name of
           None \<Rightarrow> reply 404 (PText ''404 page not found'')
         | Some raw \<Rightarrow> reply 200 (PProxied [(''Content-Type'', content_type name),
             (''Cache-Control'', ''no-store, no-cache, must-revalidate, max-age=0''),
             (''Pragma'', ''no-cache''), (''Expires'', ''0'')] raw))"

text \<open>Without a provider there is a plain hint.\<close>

definition handle_index :: "assets option \<Rightarrow> request \<Rightarrow> server \<Rightarrow> reply \<times> server" where
  "handle_index ui r sv =
     (case ui of
        Some fs \<Rightarrow> (serve_asset fs (q_path r), sv)
      | None \<Rightarrow> (reply 200 (PText (''starburst-backend is running (headless).'' @ [CHR 0x0A] @
          ''Config UI is not compiled in; authenticate via POST /api/web/session.'' @ [CHR 0x0A])), sv))"

end
