(* ===== verification/Api.thy ===== *)
theory Api
  imports Stt AdminApi LlmApi Proxy WebUi
begin

text \<open>
  The whole HTTP interface: \<open>Routes\<close> and \<open>routesMux\<close> of \<open>internal/server/server.go\<close>. The library's
  multiplexer matches the escaped path segment by segment, each segment unescaped; an exact pattern
  wins over a subtree and a longer subtree over a shorter one; a path that is not clean is redirected,
  and so is a path that only a subtree with a slash at its end matches. Every request passes the
  middleware that keeps the audit log.
\<close>

subsection \<open>Routes\<close>

definition routes :: "string list" where
  "routes =
     [''/api/health'', ''/api/system'', ''/api/web/session'', ''/api/web/password'', ''/api/tokens'', ''/api/tokens/'',
      ''/api/ws'', ''/api/stream'', ''/api/projects'', ''/api/projects/'', ''/api/tasks'', ''/api/tasks/generate'',
      ''/api/tasks/'', ''/api/batch'', ''/api/rules'', ''/api/rules/'', ''/api/rules/generate'', ''/api/llm'',
      ''/api/llm/generate'', ''/api/llm/complete'', ''/api/audit'', ''/api/stats'', ''/api/archives'', ''/api/archives/'',
      ''/api/opencode/'', ''/api/events'', ''/api/unread'', ''/api/unread/'', ''/api/stt'', ''/api/stt/refine'',
      ''/api/stt/sessions'', ''/api/stt/sessions/'', ''/api/webhook'', ''/'']"

definition segments :: "string \<Rightarrow> string list" where
  "segments path = map (\<lambda>s. case path_unescape s of None \<Rightarrow> s | Some u \<Rightarrow> u) (tl (split_at (CHR ''/'') path))"

definition matches_route :: "string \<Rightarrow> string \<Rightarrow> bool" where
  "matches_route path pat =
     (let ps = tl (split_at (CHR ''/'') pat); ss = segments path
      in if last ps = '''' then length ps \<le> length ss \<and> take (length ps - 1) ss = butlast ps
         else ss = ps)"

text \<open>An exact pattern of a path is longer than any subtree that contains it.\<close>

definition best_route :: "string \<Rightarrow> string option" where
  "best_route path = fold (\<lambda>pat best.
     if matches_route path pat \<and> (case best of None \<Rightarrow> True | Some b \<Rightarrow> length b < length pat) then Some pat else best)
     routes None"

text \<open>\<open>cleanPath\<close> would change the path.\<close>

definition clean_path :: "string \<Rightarrow> bool" where
  "clean_path path \<longleftrightarrow> has_prefix path ''/'' \<and>
     (let ss = tl (split_at (CHR ''/'') path)
      in list_all (\<lambda>s. s \<noteq> ''.'' \<and> s \<noteq> ''..'') ss \<and> '''' \<notin> set (butlast ss))"

definition wants_slash :: "string \<Rightarrow> bool" where
  "wants_slash path \<longleftrightarrow> \<not> has_suffix path ''/'' \<and> (case best_route path of
     None \<Rightarrow> True
   | Some pat \<Rightarrow> has_suffix pat ''/'') \<and> list_ex (\<lambda>pat. segments path @ [''''] = tl (split_at (CHR ''/'') pat)) routes"

subsection \<open>Handlers\<close>

text \<open>What the handlers are given besides the request: the configuration and the outside world.\<close>

record app =
  ap_crypto :: crypto
  ap_off :: int
  ap_stamp :: "string \<Rightarrow> string"
  ap_up :: upstream
  ap_oc :: oc_client
  ap_coll :: collector
  ap_http :: llm_http
  ap_prompts :: prompts
  ap_flushed :: "json \<Rightarrow> bool"
  ap_printable :: "int \<Rightarrow> bool"
  ap_system :: "string \<times> string \<times> string"
  ap_literal :: "string \<Rightarrow> string option"
  ap_upgrades :: "request \<Rightarrow> bool \<Rightarrow> int option"
  ap_engine :: engine
  ap_stt :: stt_config
  ap_model :: model
  ap_late :: "nat \<Rightarrow> bool"
  ap_ui :: "assets option"

text \<open>A call of the server: the escaped path, the raw body, and the request.\<close>

record arrival =
  av_path :: string
  av_raw :: "string option"
  av_req :: request

type_synonym handler = "request \<Rightarrow> server \<Rightarrow> reply \<times> server"

text \<open>The endpoints for devices: tasks, batches, projects, speech, events, the mirror.\<close>

definition device_handlers :: "app \<Rightarrow> arrival \<Rightarrow> (string \<times> handler) list" where
  "device_handlers ap av =
     (let c = ap_crypto ap in
       [(''/api/projects'', handle_projects c (ap_up ap) (ap_oc ap)),
        (''/api/projects/'', handle_project_sessions c (ap_up ap) (ap_oc ap) (av_path av)),
        (''/api/tasks'', handle_tasks c (ap_off ap)),
        (''/api/tasks/generate'', handle_task_generate c (ap_printable ap) (ap_http ap) (ap_prompts ap) (ap_flushed ap)),
        (''/api/tasks/'', handle_task_by_id c),
        (''/api/batch'', handle_batch c),
        (''/api/opencode/'', handle_opencode_proxy c (ap_up ap) (ap_oc ap) (ap_coll ap)),
        (''/api/events'', handle_events c),
        (''/api/unread'', handle_unread_list c),
        (''/api/unread/'', handle_unread_mark c),
        (''/api/stt'', handle_stt_status c (ap_engine ap) (ap_stt ap)),
        (''/api/stt/refine'', handle_stt_refine c (ap_model ap) (ap_late ap) (av_raw av)),
        (''/api/stt/sessions'', handle_stt_create c (ap_engine ap) (ap_stt ap)),
        (''/api/stt/sessions/'', handle_stt_session c (ap_engine ap) (ap_stt ap) (av_raw av))])"

text \<open>The endpoints for administration, the language model, and the channels.\<close>

definition admin_handlers :: "app \<Rightarrow> (string \<times> handler) list" where
  "admin_handlers ap =
     (let c = ap_crypto ap in
       [(''/api/system'', handle_system c (ap_up ap) (ap_oc ap) (ap_system ap)),
        (''/api/web/session'', handle_web_session c),
        (''/api/web/password'', handle_web_password c),
        (''/api/tokens'', handle_tokens c),
        (''/api/tokens/'', handle_token_by_id c),
        (''/api/ws'', handle_websocket c (ap_literal ap) (ap_upgrades ap)),
        (''/api/stream'', handle_stream c),
        (''/api/rules'', handle_rules c),
        (''/api/rules/'', handle_rule_by_id c),
        (''/api/rules/generate'', handle_rule_generate c (ap_http ap) (ap_prompts ap)),
        (''/api/llm'', handle_llm_config),
        (''/api/llm/generate'', handle_llm_generate c (ap_http ap) (ap_prompts ap)),
        (''/api/llm/complete'', handle_llm_complete c (ap_http ap)),
        (''/api/audit'', handle_audit c),
        (''/api/stats'', handle_stats c),
        (''/api/archives'', handle_archives c (ap_up ap) (ap_oc ap)),
        (''/api/archives/'', handle_archive_by_id c)])"

definition public_handler :: "app \<Rightarrow> string \<Rightarrow> handler" where
  "public_handler ap pat =
     (if pat = ''/api/health'' then handle_health (ap_up ap) (ap_oc ap)
      else if pat = ''/api/webhook'' then handle_rule_webhook (ap_crypto ap) (ap_stamp ap)
      else handle_index (ap_ui ap))"

definition endpoint :: "app \<Rightarrow> arrival \<Rightarrow> string \<Rightarrow> handler" where
  "endpoint ap av pat =
     (case map_of (device_handlers ap av @ admin_handlers ap) pat of
        Some h \<Rightarrow> h
      | None \<Rightarrow> public_handler ap pat)"

definition redirect :: reply where
  "redirect = reply 301 (PText ''Moved Permanently'')"

definition mux :: "app \<Rightarrow> arrival \<Rightarrow> server \<Rightarrow> reply \<times> server" where
  "mux ap av sv =
     (if q_method (av_req av) \<noteq> ''CONNECT'' \<and> \<not> clean_path (av_path av) \<or> wants_slash (av_path av) then (redirect, sv)
      else case best_route (av_path av) of
        None \<Rightarrow> (reply 404 (PText ''404 page not found''), sv)
      | Some pat \<Rightarrow> endpoint ap av pat (av_req av) sv)"

definition serve :: "app \<Rightarrow> arrival \<Rightarrow> server \<Rightarrow> reply \<times> server" where
  "serve ap av = log_middleware (ap_crypto ap) (av_req av) (mux ap av)"

subsection \<open>Requests without credentials\<close>

lemma token_gate_refuses:
  assumes "fresh_request sv" and "anonymous c r (db_of_server sv)"
  shows "refuses sv (token_gate c r sv)"
proof -
  obtain sv1 where "require_token c r sv = (None, sv1)" "inert sv sv1"
    using require_token_refuses[OF assms] .
  then show ?thesis by (simp add: token_gate_def refuses_def)
qed

lemma metered_turned_away:
  assumes "fresh_request sv" and "anonymous c r (db_of_server sv)"
  shows "turned_away sv (metered c r h sv)"
proof -
  obtain sv1 where "require_token c r sv = (None, sv1)" "inert sv sv1"
    using require_token_refuses[OF assms] .
  then show ?thesis by (simp add: metered_def turned_away_def)
qed

lemma channel_refuses:
  assumes "fresh_request sv" and "anonymous c r (db_of_server sv)"
  obtains msg sv1 where "channel_gate c r sv = (Some msg, sv1)" "inert sv sv1"
proof -
  obtain sv1 where g: "any_token_or_web c r sv = (False, sv1)" "inert sv sv1"
    using gates_refuse(4)[OF assms] by (metis prod.collapse refuses_def)
  show thesis
  proof (cases "q_get ''session'' r = ''''")
    case True
    then show thesis using g that by (simp add: channel_gate_def)
  next
    case False
    obtain res sv2 where q: "scall (get_web_session (q_get ''session'' r)) sv1 = (res, sv2)" by fastforce
    have "w_sched (sv_w sv1) = []" "\<not> live_session (q_get ''session'' r) (db_of_server sv1)"
      using inert_fresh[OF g(2) assms(1)] inert_anonymous[OF g(2), of c r] assms(2)
      by (auto simp: fresh_request_def anonymous_def)
    with dead_session[OF _ _ False q] have "isl res" "inert sv1 sv2" by auto
    then show thesis
      using that g q False inert_trans[OF g(2)] by (cases res) (auto simp: channel_gate_def)
  qed
qed

lemma channels_turned_away:
  assumes "fresh_request sv" and "anonymous c r (db_of_server sv)"
  shows "turned_away sv (handle_websocket c lit up r sv)" and "turned_away sv (handle_stream c r sv)"
proof -
  obtain msg sv1 where "channel_gate c r sv = (Some msg, sv1)" "inert sv sv1"
    using channel_refuses[OF assms] .
  then show "turned_away sv (handle_websocket c lit up r sv)" and "turned_away sv (handle_stream c r sv)"
    by (simp_all add: handle_websocket_def handle_stream_def turned_away_def)
qed

lemma devices_turned_away:
  assumes "fresh_request sv" and "anonymous (ap_crypto ap) r (db_of_server sv)"
  shows "list_all (\<lambda>(_, h). turned_away sv (h r sv)) (device_handlers ap av)"
  using gates_refuse[OF assms] token_gate_refuses[OF assms] metered_turned_away[OF assms]
  by (simp add: device_handlers_def Let_def guarded_turned_away handle_projects_def handle_project_sessions_def
      handle_tasks_def handle_task_generate_def handle_task_by_id_def handle_batch_def handle_opencode_proxy_def
      handle_events_def handle_unread_list_def handle_unread_mark_def handle_stt_status_def handle_stt_refine_def
      handle_stt_create_def handle_stt_session_def stt_guarded_def)

lemma admins_turned_away:
  assumes "fresh_request sv" and "anonymous (ap_crypto ap) r (db_of_server sv)"
    and "(pat, h) \<in> set (admin_handlers ap)" and "\<not> (pat = ''/api/web/session'' \<and> q_method r = ''POST'')"
  shows "turned_away sv (h r sv)"
proof -
  have "list_all (\<lambda>(pat, h). pat = ''/api/web/session'' \<and> q_method r = ''POST'' \<or> turned_away sv (h r sv)) (admin_handlers ap)"
    using gates_refuse[OF assms(1,2)] token_gate_refuses[OF assms(1,2)] metered_turned_away[OF assms(1,2)]
      channels_turned_away[OF assms(1,2)]
    by (simp add: admin_handlers_def Let_def guarded_turned_away handle_system_def handle_web_session_def
        handle_web_password_def handle_tokens_def handle_token_by_id_def handle_rules_def handle_rule_by_id_def
        handle_rule_generate_def handle_llm_config_def handle_llm_generate_def handle_llm_complete_def
        handle_audit_def handle_stats_def handle_archives_def handle_archive_by_id_def)
  then show ?thesis using assms(3,4) by (auto simp: list_all_iff)
qed

text \<open>What anybody may call: the health check, the webhook (which has a secret of its own), the login, the pages.\<close>

definition open_route :: "string \<Rightarrow> request \<Rightarrow> bool" where
  "open_route pat r \<longleftrightarrow> pat \<in> {''/api/health'', ''/api/webhook'', ''/''} \<or> pat = ''/api/web/session'' \<and> q_method r = ''POST''"

lemma best_route_in:
  assumes "best_route path = Some pat"
  shows "pat \<in> set routes"
proof -
  have found: "fold (\<lambda>pat best. if P pat best then Some pat else best) ps b = Some pat \<Longrightarrow> b = Some pat \<or> pat \<in> set ps"
    for P ps and b :: "string option"
  proof (induction ps arbitrary: b)
    case (Cons q ps)
    from Cons.IH[of "if P q b then Some q else b"] Cons.prems show ?case by (auto split: if_splits)
  qed simp
  show ?thesis using found[OF assms[unfolded best_route_def]] by simp
qed

lemma closed_route_has_handler:
  "pat \<in> set routes \<Longrightarrow> pat \<notin> {''/api/health'', ''/api/webhook'', ''/''} \<Longrightarrow>
   map_of (device_handlers ap av @ admin_handlers ap) pat \<noteq> None"
  unfolding map_of_eq_None_iff by (auto simp: routes_def device_handlers_def admin_handlers_def Let_def)

lemma endpoint_turned_away:
  assumes "fresh_request sv" and "anonymous (ap_crypto ap) r (db_of_server sv)"
    and "pat \<in> set routes" and "\<not> open_route pat r"
  shows "turned_away sv (endpoint ap av pat r sv)"
proof -
  obtain h where h: "map_of (device_handlers ap av @ admin_handlers ap) pat = Some h"
    using closed_route_has_handler[of pat ap av] assms(3,4) unfolding open_route_def by blast
  then have "(pat, h) \<in> set (device_handlers ap av) \<union> set (admin_handlers ap)"
    using map_of_SomeD[OF h] by auto
  then have "turned_away sv (h r sv)"
    using devices_turned_away[OF assms(1,2), of av] admins_turned_away[OF assms(1,2), of pat h] assms(4)
    by (auto simp: list_all_iff open_route_def)
  then show ?thesis unfolding endpoint_def h by simp
qed

text \<open>
  C28. Requests without credentials do nothing. On every endpoint but the health check, the webhook,
  the login and the pages, with any method, a request that carries no live session and no live token
  is answered with 401 or 405 (or redirected), and nothing of the server changes: no row of any table,
  no message to any client, no limiter, not even the audit log. Only statements that fail may have
  been tried.
\<close>
theorem anonymous_requests_are_inert:
  assumes "fresh_request sv" and "anonymous (ap_crypto ap) (av_req av) (db_of_server sv)"
    and "best_route (av_path av) = Some pat" and "\<not> open_route pat (av_req av)"
  shows "rp_status (fst (serve ap av sv)) \<in> {301, 401, 405} \<and> inert sv (snd (serve ap av sv))"
proof -
  obtain rp sv1 where m: "mux ap av sv = (rp, sv1)" by fastforce
  have away: "rp_status rp \<in> {301, 401, 405} \<and> inert sv sv1"
    using m endpoint_turned_away[OF assms(1,2) best_route_in[OF assms(3)] assms(4), of av] assms(3)
    by (auto simp: mux_def redirect_def turned_away_def split: if_splits)
  have "sv\<lparr>sv_ctx := None\<rparr> = sv" using assms(1) by (simp add: fresh_request_def)
  note start = this
  obtain sv2 where t: "token_from_request (ap_crypto ap) (av_req av) sv1 = (None, sv2)" "inert sv1 sv2"
    using token_from_request_refuses[of sv1 "ap_crypto ap" "av_req av"] away assms(1,2)
      inert_fresh[of sv sv1] inert_anonymous[of sv sv1 "ap_crypto ap" "av_req av"] by blast
  show ?thesis
    using away t inert_trans[of sv sv1 sv2] by (auto simp: serve_def log_middleware_def start m)
qed

text \<open>A new server on an empty database, asked to purge the tasks, whatever it is connected to.\<close>

definition quiet_server :: server where
  "quiet_server = new_server '''' \<lparr>w_db = empty_db 0, w_out = [], w_jobs = [], w_sched = []\<rparr>"

definition purge_call :: arrival where
  "purge_call = \<lparr>av_path = ''/api/tasks'', av_raw = None,
     av_req = \<lparr>q_method = ''DELETE'', q_path = ''/api/tasks'', q_query = [], q_headers = [], q_remote = '''', q_host = '''', q_body = Malformed\<rparr>\<rparr>"

lemma purge_call_route: "best_route ''/api/tasks'' = Some ''/api/tasks''"
  by code_simp

lemma anonymous_requests_are_inert_witness:
  "\<forall>ap. rp_status (fst (serve ap purge_call quiet_server)) \<in> {301, 401, 405} \<and>
     inert quiet_server (snd (serve ap purge_call quiet_server))"
proof
  fix ap
  show "rp_status (fst (serve ap purge_call quiet_server)) \<in> {301, 401, 405} \<and>
      inert quiet_server (snd (serve ap purge_call quiet_server))"
    using purge_call_route
    by (intro anonymous_requests_are_inert[where pat = "''/api/tasks''"])
      (auto simp: quiet_server_def new_server_def fresh_request_def anonymous_def live_session_def live_token_def
        empty_db_def purge_call_def open_route_def)
qed

end
