(* ===== verification/SchedulerSpec.thy ===== *)
theory SchedulerSpec
  imports Scheduler ExecutorSpec
begin

text \<open>
  What one poll of the scheduler does to the task table when the database works and nobody else
  writes: the effect on every row, the clones that are added, and that the occurrence that has fired
  does not fire again.
\<close>

subsection \<open>The effect of a poll\<close>

definition table :: "server \<Rightarrow> task list" where
  "table sv = tasks (sv_w sv)"

definition template_due :: "int \<Rightarrow> time \<Rightarrow> task \<Rightarrow> bool" where
  "template_due off at t \<longleftrightarrow> t_cron t \<noteq> '''' \<and>
     (case next_cron off at (fire_base t) (t_cron t) of Inl _ \<Rightarrow> False | Inr nxt \<Rightarrow> nxt \<le> at)"

definition after_poll :: "int \<Rightarrow> time \<Rightarrow> task \<Rightarrow> task" where
  "after_poll off at t =
     (if template_due off at t then set_last_fired at (Some at) t
      else if t_cron t = '''' \<and> due_once at t then set_due at t
      else t)"






subsection \<open>Single statements\<close>




lemma push_queued_simps [simp]:
  "table (push_queued i sv) = table sv" "quiet (sv_w (push_queued i sv)) = quiet (sv_w sv)"
  "sv_rand (push_queued i sv) = sv_rand sv" "now (sv_w (push_queued i sv)) = now (sv_w sv)"
  by (simp_all add: push_queued_def push_event_def table_def)



lemma clone_id [simp]: "t_id (clone_of t tid) = tid"
  by (simp add: clone_of_def task_of_req_def)




subsection \<open>The whole poll\<close>


lemma after_poll_id [simp]: "t_id (after_poll off at r) = t_id r"
  by (simp add: after_poll_def set_last_fired_def set_due_def)

definition polled :: "int \<Rightarrow> time \<Rightarrow> task list \<Rightarrow> task list \<Rightarrow> task list" where
  "polled off at ts rs = map (\<lambda>r. if t_id r \<in> t_id ` set ts then after_poll off at r else r) rs"



lemma polled_ids [simp]: "map t_id (polled off at ts rs) = map t_id rs"
  by (simp add: polled_def)






definition poll_row :: "int \<Rightarrow> time \<Rightarrow> task \<Rightarrow> task" where
  "poll_row off at t = (if t_status t = TaskScheduled then after_poll off at t else t)"






subsection \<open>No occurrence fires twice\<close>







lemma poll_row_id [simp]: "t_id (poll_row off at t) = t_id t"
  by (simp add: poll_row_def)


subsection \<open>A template and a one-shot task\<close>











end
