(* ===== verification/Runs.thy ===== *)
theory Runs
  imports ExecutorTrace Auth Records
begin

text \<open>
  Whatever the program does to the database is a run of the store's methods. The methods on the
  tables other than the task queue as values (\<open>record_op\<close>, beside \<open>task_op\<close>), one step and a run of the
  store, the contract of an invariant that every method keeps (\<open>store_invariant\<close>), and the rules by which
  code that threads a state through cases, bindings and conditions is shown to be such a run
  (\<open>threaded\<close>).
\<close>

subsection \<open>Threading a state\<close>

text \<open>
  \<open>R s0 s\<close> says that \<open>s\<close> is reached from \<open>s0\<close>. The rules follow the syntax of a function that returns a
  result and the new state, so that an introduction proof walks through it: what is left are the
  calls, each from a state that is reached.
\<close>

locale threaded =
  fixes R :: "'s \<Rightarrow> 's \<Rightarrow> bool"
  assumes refl: "R s s"
    and trans: "R s s1 \<Longrightarrow> R s1 s2 \<Longrightarrow> R s s2"
begin

lemma post: "R s (snd x) \<Longrightarrow> R s0 s \<Longrightarrow> R s0 (snd x)"
  by (rule trans)

lemma ret: "R s0 s \<Longrightarrow> R s0 (snd (r, s))"
  by simp

lemma bind:
  assumes "R s (snd x)" and "\<And>r s1. R s s1 \<Longrightarrow> R s (snd (k r s1))"
  shows "R s (snd (case x of (r, s1) \<Rightarrow> k r s1))"
  using assms by (cases x) auto

lemma cond: "(b \<Longrightarrow> R s (snd x)) \<Longrightarrow> (\<not> b \<Longrightarrow> R s (snd y)) \<Longrightarrow> R s (snd (if b then x else y))"
  by simp

lemma on_sum: "(\<And>e. R s (snd (f e))) \<Longrightarrow> (\<And>x. R s (snd (g x))) \<Longrightarrow> R s (snd (case_sum f g y))"
  by (cases y) auto

lemma on_option: "R s (snd n) \<Longrightarrow> (\<And>x. R s (snd (f x))) \<Longrightarrow> R s (snd (case_option n f y))"
  by (cases y) auto

lemma on_list: "R s (snd n) \<Longrightarrow> (\<And>x xs. R s (snd (f x xs))) \<Longrightarrow> R s (snd (case_list n f y))"
  by (cases y) auto

lemma on_bool: "R s (snd t) \<Longrightarrow> R s (snd f) \<Longrightarrow> R s (snd (case_bool t f y))"
  by (cases y) auto

lemma on_prod: "(\<And>a b. R s (snd (f a b))) \<Longrightarrow> R s (snd (case_prod f y))"
  by (cases y) auto

lemma on_let: "(\<And>x. R s (snd (f x))) \<Longrightarrow> R s (snd (Let a f))"
  by simp

lemma on_fold: "(\<And>x p. R (snd p) (snd (f x p))) \<Longrightarrow> R (snd p) (snd (fold f xs p))"
proof (induction xs arbitrary: p)
  case (Cons x xs)
  then show ?case using trans by (simp, blast)
qed (simp add: refl)

text \<open>The same for functions that return the state alone.\<close>

lemma st_bind:
  assumes "R s (snd x)" and "\<And>r s1. R s s1 \<Longrightarrow> R s (k r s1)"
  shows "R s (case x of (r, s1) \<Rightarrow> k r s1)"
  using assms by (cases x) auto

lemma st_cond: "(b \<Longrightarrow> R s x) \<Longrightarrow> (\<not> b \<Longrightarrow> R s y) \<Longrightarrow> R s (if b then x else y)"
  by simp

lemma st_sum: "(\<And>e. R s (f e)) \<Longrightarrow> (\<And>x. R s (g x)) \<Longrightarrow> R s (case_sum f g y)"
  by (cases y) auto

lemma st_bool: "R s t \<Longrightarrow> R s f \<Longrightarrow> R s (case_bool t f y)"
  by (cases y) auto

lemmas st_thread = refl st_bind st_cond st_sum st_bool

lemmas thread = refl ret bind cond on_sum on_option on_list on_bool on_let

end

subsection \<open>The store's methods on the other tables\<close>

datatype record_op =
    SetSetting string string
  | CreateToken token
  | RevokeToken string
  | TouchToken string
  | CreateRule rule
  | DeleteRule string
  | MarkFired string
  | RecordExecution string string
  | RecordAudit audit_entry
  | PurgeAudit time
  | CreateArchive archive
  | DeleteArchive string
  | CreateSession string time
  | DeleteSession string
  | ExpireSessions
  | InsertEvents "session_event list"
  | PurgeEvents time
  | MarkUnread "string list"
  | MarkRead string

fun run_record :: "record_op \<Rightarrow> db \<Rightarrow> db" where
  "run_record (SetSetting k v) s = snd (set_setting k v s)"
| "run_record (CreateToken t) s = snd (create_token t s)"
| "run_record (RevokeToken i) s = snd (revoke_token i s)"
| "run_record (TouchToken i) s = snd (touch_token i s)"
| "run_record (CreateRule r) s = snd (create_rule r s)"
| "run_record (DeleteRule i) s = snd (delete_rule i s)"
| "run_record (MarkFired i) s = snd (mark_rule_fired i s)"
| "run_record (RecordExecution i t) s = snd (record_rule_execution i t s)"
| "run_record (RecordAudit e) s = snd (record_audit e s)"
| "run_record (PurgeAudit c) s = snd (delete_audit_older_than c s)"
| "run_record (CreateArchive a) s = snd (create_archive a s)"
| "run_record (DeleteArchive i) s = snd (delete_archive i s)"
| "run_record (CreateSession i e) s = snd (create_web_session i e s)"
| "run_record (DeleteSession i) s = snd (delete_web_session i s)"
| "run_record ExpireSessions s = snd (delete_expired_web_sessions s)"
| "run_record (InsertEvents es) s = snd (insert_events es s)"
| "run_record (PurgeEvents c) s = snd (delete_events_older_than c s)"
| "run_record (MarkUnread is) s = snd (set_sessions_unread is s)"
| "run_record (MarkRead i) s = snd (mark_session_read i s)"

text \<open>
  One step: a method on the tasks under its guard, a method on another table, or a statement that only
  reads and takes its entry off the schedule of faults.
\<close>

inductive store_step :: "db \<Rightarrow> db \<Rightarrow> bool" where
  task: "op_guard x s \<Longrightarrow> store_step s (run_op x s)"
| record_write: "store_step s (run_record x s)"
| reading: "store_step s (s\<lparr>db_faults := fs\<rparr>)"

definition store_run :: "db \<Rightarrow> db \<Rightarrow> bool" where
  "store_run = store_step\<^sup>*\<^sup>*"

interpretation db_run: threaded store_run
  by unfold_locales (auto simp: store_run_def)

lemma step_run: "store_step s s' \<Longrightarrow> store_run s s'"
  by (simp add: store_run_def)

text \<open>An invariant that every method keeps holds after every run.\<close>

locale store_invariant =
  fixes I :: "db \<Rightarrow> bool"
  assumes task_keeps: "I s \<Longrightarrow> op_guard x s \<Longrightarrow> I (run_op x s)"
    and record_keeps: "I s \<Longrightarrow> I (run_record y s)"
    and faults_irrelevant: "I (s\<lparr>db_faults := fs\<rparr>) = I s"
begin

lemma step_keeps: "store_step s s' \<Longrightarrow> I s \<Longrightarrow> I s'"
  by (induction rule: store_step.induct) (auto simp: task_keeps record_keeps faults_irrelevant)

lemma run_keeps: "store_run s s' \<Longrightarrow> I s \<Longrightarrow> I s'"
  unfolding store_run_def by (induction rule: rtranclp_induct) (auto dest: step_keeps)

end
subsection \<open>Every method is a run\<close>

named_theorems method_runs \<open>the methods of the store are runs\<close>

lemma write_run: "store_run s (run_record x s)"
  by (rule step_run[OF record_write])

lemmas record_runs [method_runs] =
  write_run[of _ "SetSetting k v" for k v, unfolded run_record.simps]
  write_run[of _ "CreateToken t" for t, unfolded run_record.simps]
  write_run[of _ "RevokeToken i" for i, unfolded run_record.simps]
  write_run[of _ "TouchToken i" for i, unfolded run_record.simps]
  write_run[of _ "CreateRule r" for r, unfolded run_record.simps]
  write_run[of _ "DeleteRule i" for i, unfolded run_record.simps]
  write_run[of _ "MarkFired i" for i, unfolded run_record.simps]
  write_run[of _ "RecordExecution i t" for i t, unfolded run_record.simps]
  write_run[of _ "RecordAudit e" for e, unfolded run_record.simps]
  write_run[of _ "PurgeAudit c" for c, unfolded run_record.simps]
  write_run[of _ "CreateArchive a" for a, unfolded run_record.simps]
  write_run[of _ "DeleteArchive i" for i, unfolded run_record.simps]
  write_run[of _ "CreateSession i e" for i e, unfolded run_record.simps]
  write_run[of _ "DeleteSession i" for i, unfolded run_record.simps]
  write_run[of _ "ExpireSessions", unfolded run_record.simps]
  write_run[of _ "InsertEvents es" for es, unfolded run_record.simps]
  write_run[of _ "PurgeEvents c" for c, unfolded run_record.simps]
  write_run[of _ "MarkUnread is" for "is", unfolded run_record.simps]
  write_run[of _ "MarkRead i" for i, unfolded run_record.simps]

lemma task_run: "op_guard x s \<Longrightarrow> store_run s (run_op x s)"
  by (rule step_run[OF store_step.task])

text \<open>A new task that waits for nothing, or for a task of the table.\<close>

lemma create_run:
  assumes "waiting st \<Longrightarrow> t_depends t \<noteq> '''' \<and> t_depends t \<in> t_id ` set (db_tasks s)"
  shows "store_run s (snd (create_task_with_status t st s))"
  using task_run[of "OpCreate t st" s] assms by simp

lemma create_queued_run [method_runs]: "store_run s (snd (create_task t s))"
  unfolding create_task_def by (rule create_run) (simp add: waiting_def)

lemmas task_runs [method_runs] =
  task_run[of "OpCancel i" for i, simplified]
  task_run[of "OpCancelScheduled i" for i, simplified]
  task_run[of "OpBlock i r" for i r, simplified]
  task_run[of "OpUnblock i" for i, simplified]
  task_run[of "OpDue i" for i, simplified]
  task_run[of "OpFired i a" for i a, simplified]
  task_run[of "OpClaimFire i e a" for i e a, simplified]
  task_run[of "OpPurge d n" for d n, simplified]
  task_run[of "OpSummary i x" for i x, simplified]
  task_run[of "OpRecover", simplified]

lemma read_run: "(\<And>s. snd (g s) = s) \<Longrightarrow> store_run s (snd (db_call g s))"
  by (rule db_call_preserves) (auto intro: step_run reading)

lemma read_runs [method_runs]:
  "store_run s (snd (get_setting k s))" "store_run s (snd (get_token_by_hash h s))"
  "store_run s (snd (list_tokens s))" "store_run s (snd (list_rules s))" "store_run s (snd (get_rule i s))"
  "store_run s (snd (list_rule_executions i n s))" "store_run s (snd (count_rule_executions i s))"
  "store_run s (snd (list_audit i n s))" "store_run s (snd (list_archives n s))"
  "store_run s (snd (get_archive i s))" "store_run s (snd (count_archives s))"
  "store_run s (snd (get_web_session i s))" "store_run s (snd (list_events i since n s))"
  "store_run s (snd (list_unread s))" "store_run s (snd (group_stats s))"
  "store_run s (snd (token_usage_by_audit n s))" "store_run s (snd (list_tasks st n m s))"
  "store_run s (snd (count_tasks st s))" "store_run s (snd (get_task i s))"
  "store_run s (snd (list_scheduled_tasks s))"
  unfolding get_setting_def get_token_by_hash_def list_tokens_def list_rules_def get_rule_def
    list_rule_executions_def count_rule_executions_def list_audit_def list_archives_def get_archive_def
    count_archives_def get_web_session_def list_events_def list_unread_def group_stats_def
    token_usage_by_audit_def list_tasks_def count_tasks_def get_task_def list_scheduled_tasks_def
  by (rule read_run; simp add: Let_def)+

text \<open>The composed operations, and those of the authentication manager.\<close>



lemma on_error: "store_run s (snd a) \<Longrightarrow> store_run s (snd b) \<Longrightarrow> store_run s (snd d) \<Longrightarrow>
  store_run s (snd (case e of ErrNotFound \<Rightarrow> a | ErrConflict \<Rightarrow> b | ErrDriver \<Rightarrow> d))"
  by (cases e) auto

lemma stats_run [method_runs]: "store_run s (snd (task_stats_of s))"
  unfolding task_stats_of_def by (intro db_run.thread method_runs[THEN db_run.post] read_run[THEN db_run.post]) simp_all

lemma set_password_run [method_runs]: "store_run s (snd (set_password c p s))"
  unfolding set_password_def by (intro db_run.thread method_runs[THEN db_run.post])

lemma initialize_run [method_runs]: "store_run s (snd (initialize c d s))"
  unfolding initialize_def by (intro db_run.thread method_runs[THEN db_run.post])

lemma verify_password_run [method_runs]: "store_run s (snd (verify_password c p s))"
  unfolding verify_password_def by (intro db_run.thread on_error method_runs[THEN db_run.post])

lemma default_token_run [method_runs]: "store_run s (snd (ensure_default_token c t s))"
  unfolding ensure_default_token_def by (intro db_run.thread method_runs[THEN db_run.post])

lemma issue_token_run [method_runs]: "store_run s (snd (issue_token c rb ib n s))"
  unfolding issue_token_def prod.case by (intro db_run.thread method_runs[THEN db_run.post])

lemma verify_token_run [method_runs]: "store_run s (snd (verify_token c t s))"
  unfolding verify_token_def by (intro db_run.thread method_runs[THEN db_run.post])

end
