(* ===== verification/ServerRuns.thy ===== *)
theory ServerRuns
  imports Runs Scheduler Api ExecutorSafety
begin

text \<open>
  Every handler of the server, the scheduler, the automation engine, the executor and the periodic
  work change the database by runs of the store's methods only (with nobody writing in between: the
  executor under interleavings is the subject of \<open>ExecutorTrace\<close>). One rule for each way a world or a
  server is changed, then one lemma per operation, collected in \<open>world_runs\<close> and \<open>server_runs\<close>.
\<close>

subsection \<open>Worlds\<close>

definition wrun :: "world \<Rightarrow> world \<Rightarrow> bool" where
  "wrun w w' \<longleftrightarrow> (w_sched w = [] \<longrightarrow> w_sched w' = [] \<and> store_run (w_db w) (w_db w'))"

interpretation wr: threaded wrun
  by unfold_locales (auto simp: wrun_def intro: db_run.refl db_run.trans)

named_theorems world_runs \<open>operations on worlds are runs\<close>

lemma wrun_call:
  assumes "\<And>s. store_run s (snd (f s))"
  shows "wrun w (snd (call f w))"
  using assms[of "w_db w"] by (auto simp: wrun_def call_def others_def split: prod.split)

lemmas call_runs [world_runs] = method_runs[THEN wrun_call]

lemma wrun_run_call: "wrun w0 w \<Longrightarrow> (\<And>s. store_run s (snd (f s))) \<Longrightarrow> wrun w0 (run_call f w)"
  unfolding run_call_def using wrun_call wr.trans by blast

lemma wrun_push: "wrun w0 w \<Longrightarrow> wrun w0 (push_task_event st p w)"
  by (auto simp: wrun_def push_task_event_def broadcast_msg_def)

lemma wrun_broadcast: "wrun w0 w \<Longrightarrow> wrun w0 (broadcast_msg m w)"
  by (auto simp: wrun_def broadcast_msg_def)

lemma wrun_advance: "0 \<le> d \<Longrightarrow> wrun w (advance d w)"
  using task_run[of "OpTick (nat d)" "w_db w"] by (auto simp: wrun_def advance_def)

lemma fire_run [world_runs]: "wrun w (snd (fire stamp rid w))"
  unfolding fire_def
  by (intro wr.thread world_runs[THEN wr.post] wrun_run_call method_runs)

subsection \<open>Servers\<close>

definition srv_run :: "server \<Rightarrow> server \<Rightarrow> bool" where
  "srv_run sv sv' \<longleftrightarrow> wrun (sv_w sv) (sv_w sv')"

interpretation srv: threaded srv_run
  unfolding srv_run_def by unfold_locales (rule wr.refl, erule (1) wr.trans)

named_theorems server_runs \<open>operations on servers are runs\<close>
named_theorems server_updates \<open>what else changes a server\<close>

lemma srv_scall: "(\<And>s. store_run s (snd (f s))) \<Longrightarrow> srv_run sv (snd (scall f sv))"
  using wrun_call[of f "sv_w sv"] by (auto simp: srv_run_def scall_def split: prod.splits)

lemmas scall_runs [server_runs] = method_runs[THEN srv_scall]

lemma srv_srun: "srv_run sv0 sv \<Longrightarrow> (\<And>s. store_run s (snd (f s))) \<Longrightarrow> srv_run sv0 (srun f sv)"
  unfolding srun_def by (rule srv.post[OF srv_scall])

lemma srv_fields [server_updates]:
  "srv_run sv0 sv \<Longrightarrow> srv_run sv0 (sv\<lparr>sv_login := l\<rparr>)" "srv_run sv0 sv \<Longrightarrow> srv_run sv0 (sv\<lparr>sv_gen := l\<rparr>)"
  "srv_run sv0 sv \<Longrightarrow> srv_run sv0 (sv\<lparr>sv_rand := b\<rparr>)" "srv_run sv0 sv \<Longrightarrow> srv_run sv0 (sv\<lparr>sv_touch := t\<rparr>)"
  "srv_run sv0 sv \<Longrightarrow> srv_run sv0 (sv\<lparr>sv_ctx := x\<rparr>)" "srv_run sv0 sv \<Longrightarrow> srv_run sv0 (sv\<lparr>sv_llm := c\<rparr>)"
  "srv_run sv0 sv \<Longrightarrow> srv_run sv0 (push_event st kvs sv)"
  by (auto simp: srv_run_def push_event_def intro: wrun_push)

lemma srv_world: "srv_run sv0 sv \<Longrightarrow> wrun (sv_w sv) w \<Longrightarrow> srv_run sv0 (sv\<lparr>sv_w := w\<rparr>)"
  by (auto simp: srv_run_def intro: wr.trans)

lemma fresh_id_run [server_runs]: "srv_run sv (snd (fresh_id p sv))"
  unfolding fresh_id_def read_rand_def by (intro srv.thread server_updates)

lemma touch_run [server_updates]: "srv_run sv0 sv \<Longrightarrow> srv_run sv0 (touch_throttled i sv)"
  by (auto simp: touch_throttled_def Let_def intro!: srv_srun server_updates method_runs split: option.split)

lemma require_web_run [server_runs]: "srv_run sv (snd (require_web r sv))"
  unfolding require_web_def by (intro srv.thread server_runs[THEN srv.post])

lemma require_token_run [server_runs]: "srv_run sv (snd (require_token c r sv))"
  unfolding require_token_def by (intro srv.thread server_runs[THEN srv.post] server_updates)

lemma token_from_request_run [server_runs]: "srv_run sv (snd (token_from_request c r sv))"
  unfolding token_from_request_def by (intro srv.thread server_runs[THEN srv.post] server_updates)

lemma gate_runs [server_runs]:
  "srv_run sv (snd (web_or_token c r sv))" "srv_run sv (snd (token_or_web c r sv))"
  "srv_run sv (snd (any_token_or_web c r sv))" "srv_run sv (snd (token_gate c r sv))"
  unfolding web_or_token_def token_or_web_def any_token_or_web_def token_gate_def
  by (intro srv.thread server_runs[THEN srv.post]; assumption)+

lemma guarded_run:
  assumes "\<And>sv. srv_run sv (snd (gate sv))" and "\<And>sv. srv_run sv (snd (h sv))"
  shows "srv_run sv (snd (guarded msg gate h sv))"
  unfolding guarded_def by (intro srv.thread assms assms[THEN srv.post])

text \<open>Pairs that are results, not a result with a state.\<close>

lemmas result_pairs = srv.on_prod[where y = "y :: int \<times> int" for y] srv.on_prod[where y = "y :: string \<times> string" for y]
  srv.on_prod[where y = "y :: string \<times> string \<times> string" for y]
  srv.on_prod[where y = "y :: string \<times> (string \<times> string) list" for y]

subsection \<open>Tasks and batches\<close>

lemma push_blocked_run [server_updates]: "srv_run sv0 sv \<Longrightarrow> srv_run sv0 (push_blocked up r ds sv)"
  by (induction ds arbitrary: sv) (auto intro: server_updates)

lemma block_dependents_of_run [server_runs]: "srv_run sv (snd (block_dependents_of up r sv))"
  unfolding block_dependents_of_def by (intro srv.thread server_runs[THEN srv.post] server_updates)

text \<open>The task a new one waits for is in the table when it is stored.\<close>

lemma initial_status_guard:
  assumes "initial_status q at sv = (Inr st, sv1)" and "w_sched (sv_w sv) = []" and "waiting st"
  shows "tq_depends q \<noteq> '''' \<and> tq_depends q \<in> t_id ` set (db_tasks (db_of_server sv1))"
proof -
  have ne: "tq_depends q \<noteq> ''''"
    using assms(1,3) by (auto simp: initial_status_def waiting_def split: if_splits)
  obtain up where "scall (get_task (tq_depends q)) sv = (Inr up, sv1)"
    using assms(1,3) ne by (auto simp: initial_status_def waiting_def split: if_splits sum.splits prod.splits)
  then obtain s where g: "get_task (tq_depends q) (db_of_server sv) = (Inr up, s)" and s: "db_of_server sv1 = s"
    using assms(2) by (auto simp: scall_def call_def others_def split: prod.splits)
  from g[unfolded get_task_def] obtain fs where "up \<in> set (db_tasks (db_of_server sv))" and i: "t_id up = tq_depends q"
      and "s = (db_of_server sv)\<lparr>db_faults := fs\<rparr>"
    by (cases rule: db_call_cases) (auto split: option.splits dest!: lookup_by_Some)
  then have "up \<in> set (db_tasks (db_of_server sv1))" by (simp add: s)
  then show ?thesis using ne i by (metis imageI)
qed

lemma initial_status_run [server_runs]: "srv_run sv (snd (initial_status q at sv))"
  unfolding initial_status_def by (intro srv.thread server_runs[THEN srv.post])

lemma store_new_task_run:
  assumes "w_sched (sv_w sv) = [] \<Longrightarrow> waiting st \<Longrightarrow> t_depends t \<noteq> '''' \<and> t_depends t \<in> t_id ` set (db_tasks (db_of_server sv))"
  shows "srv_run sv (snd (store_new_task t st sv))"
proof -
  have "srv_run sv (snd (scall (create_task_with_status t st) sv))"
    using create_run[of st t "db_of_server sv"] assms
    by (auto simp: srv_run_def wrun_def scall_def call_def others_def split: prod.splits)
  then show ?thesis
    unfolding store_new_task_def Let_def
    by (intro srv.thread server_runs[THEN srv.post]) (auto intro: server_updates)
qed

lemma create_task_page_run [server_runs]: "srv_run sv (snd (create_task_page off r sv))"
proof -
  have new: "srv_run sv0 (snd (case initial_status q at sv1 of
      (Inl rp, sv2) \<Rightarrow> (rp, sv2) | (Inr st, sv2) \<Rightarrow> store_new_task (task_of_req q tid at) st sv2))"
    if r: "srv_run sv0 sv1" for sv0 sv1 q at tid
  proof (rule srv.post[OF _ r])
    obtain res sv2 where i: "initial_status q at sv1 = (res, sv2)" by fastforce
    then have run: "srv_run sv1 sv2" using initial_status_run[of sv1 q at] by simp
    show "srv_run sv1 (snd (case initial_status q at sv1 of
      (Inl rp, sv2) \<Rightarrow> (rp, sv2) | (Inr st, sv2) \<Rightarrow> store_new_task (task_of_req q tid at) st sv2))"
    proof (cases "w_sched (sv_w sv1) = []")
      case True
      then have "srv_run sv2 (snd (store_new_task (task_of_req q tid at) st sv2))" if "res = Inr st" for st
        using initial_status_guard[OF i[unfolded that] True]
        by (intro store_new_task_run) (simp add: task_of_req_def)
      with run show ?thesis by (auto simp: i split: sum.split intro: srv.trans)
    next
      case False
      then show ?thesis by (simp add: srv_run_def wrun_def)
    qed
  qed
  show ?thesis
    unfolding create_task_page_def by (intro srv.thread new server_runs[THEN srv.post])
qed

lemma create_batch_run [server_runs]: "srv_run sv (snd (create_batch p tgs acc sv))"
proof (induction tgs arbitrary: acc sv)
  case (Cons tg tgs)
  show ?case by (simp, intro srv.thread server_runs[THEN srv.post] Cons[THEN srv.post])
qed (simp add: srv.refl)

lemma task_page_runs [server_runs]:
  "srv_run sv (snd (list_tasks_page r sv))" "srv_run sv (snd (purge_finished_page r sv))"
  "srv_run sv (snd (cancel_task_page i sv))" "srv_run sv (snd (unblock_task_page i sv))"
  "srv_run sv (snd (get_task_page i sv))" "srv_run sv (snd (batch_page r sv))"
  unfolding list_tasks_page_def purge_finished_page_def cancel_task_page_def unblock_task_page_def get_task_page_def
    batch_page_def
  by (intro srv.thread result_pairs server_runs[THEN srv.post] server_updates; assumption)+

lemma task_handler_runs [server_runs]:
  "srv_run sv (snd (handle_tasks c off r sv))" "srv_run sv (snd (handle_task_by_id c r sv))"
  "srv_run sv (snd (handle_batch c r sv))"
  unfolding handle_tasks_def handle_task_by_id_def handle_batch_def
  by (intro srv.thread guarded_run server_runs server_runs[THEN srv.post]; assumption)+

subsection \<open>Administration\<close>

lemma register_web_session_run [server_runs]: "srv_run sv (snd (register_web_session sv))"
  unfolding register_web_session_def read_rand_def
  by (intro srv.thread server_runs[THEN srv.post] server_updates)

lemma login_run [server_runs]: "srv_run sv (snd (login c k pw sv))"
proof -
  obtain b l where "allow (now (sv_w sv)) k (sv_login sv) = (b, l)" by fastforce
  then show ?thesis
    unfolding login_def by (simp only: prod.case) (intro srv.thread server_runs[THEN srv.post] server_updates)
qed

lemma session_page_runs [server_runs]:
  "srv_run sv (snd (logout r sv))" "srv_run sv (snd (handle_web_session c r sv))"
  unfolding handle_web_session_def
  by (simp add: logout_def srv_srun method_runs srv.refl)
    (intro srv.thread guarded_run server_runs, simp add: logout_def srv_srun method_runs srv.refl)

lemma password_runs [server_runs]:
  "srv_run sv (snd (change_password c r sv))" "srv_run sv (snd (handle_web_password c r sv))"
  unfolding handle_web_password_def change_password_def
  by (intro srv.thread guarded_run server_runs server_runs[THEN srv.post]; assumption)+

lemma new_token_run [server_runs]: "srv_run sv (snd (new_token c name sv))"
  unfolding new_token_def by (intro srv.thread server_runs[THEN srv.post] server_updates)

lemma token_page_runs [server_runs]:
  "srv_run sv (snd (list_tokens_page sv))" "srv_run sv (snd (create_token_page c r sv))"
  unfolding list_tokens_page_def create_token_page_def
  by (intro srv.thread server_runs[THEN srv.post]; assumption)+

lemma token_handler_runs [server_runs]:
  "srv_run sv (snd (handle_tokens c r sv))" "srv_run sv (snd (handle_token_by_id c r sv))"
  unfolding handle_tokens_def handle_token_by_id_def
  by (intro srv.thread guarded_run server_runs server_runs[THEN srv.post]; assumption)+

lemma stats_page_run [server_runs]: "srv_run sv (snd (stats_page sv))"
  unfolding stats_page_def by (intro srv.thread server_runs[THEN srv.post])

lemma log_handler_runs [server_runs]:
  "srv_run sv (snd (handle_audit c r sv))" "srv_run sv (snd (handle_stats c r sv))"
  "srv_run sv (snd (handle_unread_list c r sv))" "srv_run sv (snd (handle_unread_mark c r sv))"
  unfolding handle_audit_def handle_stats_def handle_unread_list_def handle_unread_mark_def
  by (intro srv.thread guarded_run server_runs server_runs[THEN srv.post]; assumption)+

lemma rule_page_runs [server_runs]:
  "srv_run sv (snd (create_rule_page r sv))" "srv_run sv (snd (list_rules_page sv))"
  "srv_run sv (snd (rule_executions_page r i sv))"
  unfolding create_rule_page_def list_rules_page_def rule_executions_page_def
  by (intro srv.thread server_runs[THEN srv.post]; assumption)+

lemma rule_handler_runs [server_runs]:
  "srv_run sv (snd (handle_rules c r sv))" "srv_run sv (snd (handle_rule_by_id c r sv))"
  unfolding handle_rules_def handle_rule_by_id_def
  by (intro srv.thread guarded_run server_runs server_runs[THEN srv.post]; assumption)+

lemma fire_kind_run [world_runs]: "wrun w (snd (fire_kind stamp k t w))"
  unfolding fire_kind_def by (intro wr.thread world_runs[THEN wr.post])

lemma webhook_run [server_runs]: "srv_run sv (snd (handle_rule_webhook c stamp r sv))"
proof -
  obtain res w where f: "fire_kind stamp TriggerHTTP (q_get ''target'' r) (sv_w sv) = (res, w)" by fastforce
  then have "srv_run sv (sv\<lparr>sv_w := w\<rparr>)"
    using fire_kind_run[of "sv_w sv" stamp TriggerHTTP "q_get ''target'' r"] by (auto intro: srv_world srv.refl)
  then show ?thesis
    unfolding handle_rule_webhook_def f prod.case by (intro srv.thread)
qed

lemma archive_session_run [server_runs]: "srv_run sv (snd (archive_session up oc r sv))"
  unfolding archive_session_def by (intro srv.thread result_pairs server_runs[THEN srv.post])

lemma archive_runs [server_runs]:
  "srv_run sv (snd (list_archives_page r sv))" "srv_run sv (snd (handle_archive_by_id c r sv))"
  unfolding list_archives_page_def handle_archive_by_id_def
  by (intro srv.thread guarded_run server_runs server_runs[THEN srv.post]; assumption)+

lemma archives_run [server_runs]: "srv_run sv (snd (handle_archives c up oc r sv))"
  unfolding handle_archives_def by (intro srv.thread guarded_run server_runs)

subsection \<open>The language model, the channels, events, the proxy, speech, pages\<close>

lemma update_llm_run [server_runs]: "srv_run sv (snd (update_llm_config r sv))"
  unfolding update_llm_config_def Let_def
  by (intro srv.thread result_pairs server_updates srv_srun method_runs)

lemma llm_config_run [server_runs]: "srv_run sv (snd (handle_llm_config r sv))"
  unfolding handle_llm_config_def by (intro srv.thread guarded_run server_runs)

lemma metered_run:
  assumes "\<And>sv. srv_run sv (snd (h sv))"
  shows "srv_run sv (snd (metered c r h sv))"
  unfolding metered_def
  by (intro srv.thread server_runs[THEN srv.post])
    (auto split: prod.split bool.split intro: server_updates assms[THEN srv.post])

lemma llm_page_runs [server_runs]:
  "srv_run sv (snd (generate_page http pr r sv))" "srv_run sv (snd (complete_page http r sv))"
  "srv_run sv (snd (rule_generate_page http pr r sv))" "srv_run sv (snd (task_generate_page pt http pr fl r sv))"
  unfolding generate_page_def complete_page_def rule_generate_page_def task_generate_page_def
  by (intro srv.thread result_pairs; assumption)+

lemma llm_runs [server_runs]:
  "srv_run sv (snd (handle_llm_generate c http pr r sv))" "srv_run sv (snd (handle_llm_complete c http r sv))"
  "srv_run sv (snd (handle_rule_generate c http pr r sv))" "srv_run sv (snd (handle_task_generate c pt http pr fl r sv))"
  unfolding handle_llm_generate_def handle_llm_complete_def handle_rule_generate_def handle_task_generate_def
  by (intro metered_run guarded_run server_runs; assumption)+

lemma channel_gate_run [server_runs]: "srv_run sv (snd (channel_gate c r sv))"
  unfolding channel_gate_def by (intro srv.thread server_runs[THEN srv.post])

lemma channel_runs [server_runs]:
  "srv_run sv (snd (handle_websocket c lit up r sv))" "srv_run sv (snd (handle_stream c r sv))"
  "srv_run sv (snd (handle_health u oc r sv))" 
  unfolding handle_websocket_def handle_stream_def handle_health_def
  by (intro srv.thread server_runs[THEN srv.post]; assumption)+

lemma system_run [server_runs]: "srv_run sv (snd (handle_system c up oc cfg r sv))"
  unfolding handle_system_def
  by (intro srv.thread guarded_run server_runs) (auto simp: srv.refl split: prod.split)

lemma events_run [server_runs]: "srv_run sv (snd (handle_events c r sv))"
  unfolding handle_events_def by (intro srv.thread guarded_run server_runs server_runs[THEN srv.post])

lemma proxy_runs [server_runs]:
  "srv_run sv (snd (proxy_page up oc coll r sv))" "srv_run sv (snd (handle_opencode_proxy c up oc coll r sv))"
  unfolding handle_opencode_proxy_def proxy_page_def
  by (intro srv.thread guarded_run server_runs server_runs[THEN srv.post]; assumption)+

lemma stt_guarded_run: "srv_run sv (snd (stt_guarded c cfg r h sv))"
  unfolding stt_guarded_def by (intro srv.thread guarded_run server_runs)

lemma stt_runs [server_runs]:
  "srv_run sv (snd (handle_stt_status c eng cfg r sv))" "srv_run sv (snd (handle_stt_create c eng cfg r sv))"
  "srv_run sv (snd (handle_stt_session c eng cfg raw r sv))" "srv_run sv (snd (handle_stt_refine c mdl late raw r sv))"
  unfolding handle_stt_status_def handle_stt_create_def handle_stt_session_def handle_stt_refine_def
  by (intro srv.thread guarded_run stt_guarded_run server_runs; assumption)+

lemma index_run [server_runs]: "srv_run sv (snd (handle_index ui r sv))"
  unfolding handle_index_def by (intro srv.thread)

lemma project_runs [server_runs]:
  "srv_run sv (snd (handle_projects c up oc r sv))" "srv_run sv (snd (handle_project_sessions c up oc path r sv))"
  unfolding handle_projects_def handle_project_sessions_def
  by (intro srv.thread guarded_run server_runs; assumption)+

subsection \<open>The whole interface\<close>

lemma log_middleware_run:
  assumes "\<And>sv. srv_run sv (snd (h sv))"
  shows "srv_run sv (snd (log_middleware c r h sv))"
  unfolding log_middleware_def
  by (intro srv.thread assms[THEN srv.post] server_runs[THEN srv.post] server_updates srv_srun method_runs)

lemma endpoint_run [server_runs]: "srv_run sv (snd (endpoint ap av pat r sv))"
proof (cases "map_of (device_handlers ap av @ admin_handlers ap) pat")
  case None
  then show ?thesis
    unfolding endpoint_def None option.case public_handler_def by (simp add: server_runs)
next
  case (Some h)
  then have "(pat, h) \<in> set (device_handlers ap av @ admin_handlers ap)" by (rule map_of_SomeD)
  then have "srv_run sv (snd (h r sv))"
    by (auto simp: device_handlers_def admin_handlers_def Let_def intro: server_runs)
  then show ?thesis unfolding endpoint_def Some option.case .
qed

lemma mux_run: "srv_run sv (snd (mux ap av sv))"
  unfolding mux_def by (intro srv.thread server_runs)

lemma serve_run: "srv_run sv (snd (serve ap av sv))"
  unfolding serve_def by (rule log_middleware_run[OF mux_run])

subsection \<open>The scheduler, the automation engine, the executor, periodic work\<close>

lemma push_queued_run [server_updates]: "srv_run sv0 sv \<Longrightarrow> srv_run sv0 (push_queued i sv)"
  unfolding push_queued_def by (intro server_updates)

lemma fire_recurring_run: "srv_run sv (fire_recurring off t at sv)"
  unfolding fire_recurring_def clone_recurring_def
  by (intro srv.st_thread server_runs[THEN srv.post] server_updates srv_srun method_runs)

lemma promote_due_run: "srv_run sv (promote_due t sv)"
  unfolding promote_due_def by (intro srv.st_thread server_runs[THEN srv.post] server_updates)

lemma poll_each_run: "srv_run sv (poll_each off at ts sv)"
proof (induction ts arbitrary: sv)
  case (Cons t ts)
  have "srv_run sv (if t_cron t \<noteq> '''' then fire_recurring off t at sv else if due_once at t then promote_due t sv else sv)"
    by (intro srv.st_thread fire_recurring_run promote_due_run)
  from this Cons.IH show ?case unfolding poll_each.simps by (rule srv.trans)
qed (simp add: srv.refl)

lemma poll_scheduled_run: "srv_run sv (snd (poll_scheduled off sv))"
  unfolding poll_scheduled_def
  by (intro srv.thread server_runs[THEN srv.post]; (assumption | erule srv.trans[OF _ poll_each_run]))

lemma poll_cron_rules_run: "wrun w (poll_cron_rules off stamp at rs w)"
proof (induction rs arbitrary: w)
  case (Cons r rs)
  have "wrun w (if \<not> r_enabled r \<or> r_kind r \<noteq> TriggerCron then w
        else if cron_due off r at = Inr True then snd (fire (stamp (r_id r)) (r_id r) w) else w)"
    by (intro wr.st_thread world_runs)
  from this Cons.IH show ?case unfolding poll_cron_rules.simps by (rule wr.trans)
qed (simp add: wr.refl)

lemma poll_cron_run: "wrun w (snd (poll_cron off stamp w))"
  unfolding poll_cron_def
  by (intro wr.thread world_runs[THEN wr.post]; (assumption | erule wr.trans[OF _ poll_cron_rules_run]))

lemma poll_git_rule_run: "wrun (snd hw) (snd (poll_git_rule stamp git r hw))"
  unfolding poll_git_rule_def
  by (cases hw) (auto simp: wr.refl intro: world_runs split: sum.split option.split)

lemma engine_tick_run: "wrun (snd hw) (snd (engine_tick off stamp git hw))"
proof -
  have git: "wrun w (snd (snd (poll_git stamp git heads w)))" for heads w
  proof -
    obtain res w1 where c: "call list_rules w = (res, w1)" by fastforce
    then have "wrun w w1" using world_runs(1) wrun_call[of list_rules w] by (simp add: method_runs)
    moreover have "wrun w1 (snd (fold (poll_git_rule stamp git) rs (heads, w1)))" for rs
      using wr.on_fold[of "poll_git_rule stamp git" "(heads, w1)" rs] poll_git_rule_run by simp
    ultimately show ?thesis by (auto simp: poll_git_def c split: sum.split intro: wr.trans)
  qed
  show ?thesis
    by (cases hw) (auto simp: engine_tick_def intro: wr.trans[OF poll_cron_run git])
qed

text \<open>The executor's steps are runs of methods that create no task.\<close>

lemma ran_wrun:
  assumes "ran P w w'" and "\<And>x s. P x \<Longrightarrow> op_guard x s"
  shows "wrun w w'"
  unfolding wrun_def
proof
  assume none: "w_sched w = []"
  with assms(1) obtain xs where xs: "w_db w' = run_ops xs (w_db w)" "\<forall>x \<in> set xs. P x" and "w_sched w' = []"
    by (auto simp: ran_def)
  moreover have "store_run s (run_ops xs s)" for s
    using xs(2)
  proof (induction xs arbitrary: s)
    case (Cons x xs)
    have "store_run s (run_op x s)" using Cons.prems by (intro task_run assms(2)) simp
    moreover have "store_run (run_op x s) (run_ops xs (run_op x s))" using Cons by simp
    ultimately show ?case unfolding run_ops.simps by (rule db_run.trans)
  qed (simp add: db_run.refl)
  ultimately show "w_sched w' = [] \<and> store_run (w_db w) (w_db w')" by simp
qed

lemma pool_guard: "pool_op x \<Longrightarrow> op_guard x s"
  by (cases x) (auto simp: pool_op_def)

lemma executor_runs:
  "wrun w (worker_round e v w)" "wrun w (start_workers w)" "wrun w (snd (purge_once e w))"
  using ran_wrun[OF ran_worker_round pool_guard] ran_wrun[OF ran_start_workers pool_guard]
    ran_wrun[OF ran_purge_once] by auto

lemma run_job_run: "wrun w (run_job answer j w)"
  by (cases j) (auto intro!: wrun_broadcast wrun_run_call method_runs wr.refl split: sum.split)

end
