(* ===== verification/Program.thy ===== *)
theory Program
  imports ServerRuns Startup
begin

text \<open>
  The whole program as a transition system: requests, the scheduler, the automation engine, the
  executor's workers and its janitor, the event collector, the periodic work, the passing of time,
  outages of the database and restarts share one world. Each transition is one operation of one
  part; while a worker executes a task, the other parts' task methods may run in between. Two
  contracts of the store are interpreted, the task table's and the primary keys', and hold in every state
  that can be reached from an empty database.
\<close>

subsection \<open>Primary keys\<close>

definition keys_unique :: "db \<Rightarrow> bool" where
  "keys_unique s \<longleftrightarrow> distinct (map set_key (db_settings s)) \<and>
     distinct (map tok_id (db_tokens s)) \<and> distinct (map tok_hash (db_tokens s)) \<and>
     distinct (map r_id (db_rules s)) \<and> distinct (map x_id (db_execs s)) \<and> distinct (map a_id (db_audit s)) \<and>
     distinct (map ar_id (db_archives s)) \<and> distinct (map ws_id (db_sessions s)) \<and>
     distinct (map e_id (db_events s)) \<and> distinct (db_unread s)"

definition other_tables :: "db \<Rightarrow> _" where
  "other_tables s = (db_settings s, db_tokens s, db_rules s, db_execs s, db_audit s, db_archives s, db_sessions s,
     db_events s, db_unread s)"

lemma keys_other_tables: "other_tables s' = other_tables s \<Longrightarrow> keys_unique s' = keys_unique s"
  by (simp add: other_tables_def keys_unique_def)

lemma other_tables_faults [simp]: "other_tables (s\<lparr>db_faults := fs\<rparr>) = other_tables s"
  "other_tables (s\<lparr>db_tasks := ts\<rparr>) = other_tables s" "other_tables (s\<lparr>db_clock := c\<rparr>) = other_tables s"
  by (simp_all add: other_tables_def)

lemma db_call_other_tables:
  assumes "\<And>s. other_tables (snd (f s)) = other_tables s"
  shows "other_tables (snd (db_call f s)) = other_tables s"
  by (rule db_call_preserves[where Q = "\<lambda>s'. other_tables s' = other_tables s"]) (simp_all add: assms)

lemma exec_other_tables:
  "other_tables (snd (exec_ok P f s)) = other_tables s" "other_tables (snd (exec_changed P f s)) = other_tables s"
  unfolding exec_ok_def exec_changed_def by (rule db_call_other_tables; simp add: exec_tasks_def)+

lemma fold_max_ge: "m \<le> fold (\<lambda>r m. max (key r) m) rs (m :: int)"
proof (induction rs arbitrary: m)
  case (Cons r rs)
  from Cons.IH[of "max (key r) m"] show ?case by simp
qed simp

lemma fold_max_all: "r \<in> set rs \<Longrightarrow> key r \<le> fold (\<lambda>r m. max (key r) m) rs (m :: int)"
proof (induction rs arbitrary: m)
  case (Cons x rs)
  then show ?case using fold_max_ge[of "max (key x) m" key rs] by auto
qed simp

lemma next_id_fresh: "next_id key rs \<notin> key ` set rs"
  using fold_max_all[of _ rs key 0] by (fastforce simp: next_id_def)

lemma distinct_append_row: "distinct (map key rs) \<Longrightarrow> key r = next_id key rs \<Longrightarrow> distinct (map key (rs @ [r]))"
  using next_id_fresh[of key rs] by simp

lemma distinct_events: "distinct (map e_id rs) \<Longrightarrow> distinct (map e_id (append_events rs es))"
proof (induction es arbitrary: rs)
  case (Cons e es)
  have "distinct (map e_id (rs @ [event_row rs e]))"
    using Cons.prems by (rule distinct_append_row) (simp add: event_row_def)
  then show ?case using Cons.IH by simp
qed simp

text \<open>The task methods leave the other tables alone; this too is threaded through their statements.\<close>

definition same_others :: "db \<Rightarrow> db \<Rightarrow> bool" where
  "same_others s s' \<longleftrightarrow> other_tables s' = other_tables s"

interpretation so: threaded same_others
  by unfold_locales (auto simp: same_others_def)

lemma same_call: "(\<And>s. other_tables (snd (f s)) = other_tables s) \<Longrightarrow> same_others s (snd (db_call f s))"
  by (simp add: same_others_def db_call_other_tables)

lemma block_others: "same_others s (snd (block_dependents i r s))"
proof -
  have ids: "same_others s (snd (dependent_ids i st s))" for st s
    unfolding dependent_ids_def by (auto intro: so.refl same_call)
  have rows: "same_others s (snd (block_rows i r s))" for s
    by (simp add: same_others_def block_rows_def exec_other_tables)
  show ?thesis
    unfolding block_dependents_def by (intro so.thread ids[THEN so.post] rows[THEN so.post])
qed

lemma purge_others: "same_others s (snd (purge_finished_tasks d n s))"
proof -
  have "same_others s (snd (purge_delete secs m s))" "same_others s (snd (purge_kept secs s))" for secs m s
    unfolding purge_delete_def purge_kept_def by (rule same_call; auto simp: Let_def)+
  note parts = this
  show ?thesis
    unfolding purge_finished_tasks_def by (intro so.thread parts[THEN so.post])
qed

lemma task_other_tables: "other_tables (run_op x s) = other_tables s"
proof -
  have claim: "other_tables (snd (claim_next_task s)) = other_tables s"
    unfolding claim_next_task_def
    by (rule db_call_other_tables) (auto simp: exec_tasks_def Let_def split: list.splits)
  have retry: "other_tables (snd (retry_task i b s)) = other_tables s" for i b
    unfolding retry_task_def by (rule db_call_other_tables) (auto simp: exec_tasks_def)
  have promote: "other_tables (snd (promote_pending_dependents i s)) = other_tables s" for i
    unfolding promote_pending_dependents_def by (rule db_call_other_tables) (auto simp: exec_tasks_def Let_def)
  have recover: "other_tables (snd (recover_stale_running s)) = other_tables s"
    unfolding recover_stale_running_def by (rule db_call_other_tables) (auto simp: exec_tasks_def)
  have block: "other_tables (snd (block_dependents i r s)) = other_tables s" for i r
    using block_others by (simp add: same_others_def)
  have create: "other_tables (snd (create_task_with_status t st s)) = other_tables s" for t st
    unfolding create_task_with_status_def by (rule db_call_other_tables) auto
  have read: "other_tables (snd (is_task_canceled i s)) = other_tables s" for i
    unfolding is_task_canceled_def by (rule db_call_other_tables) auto
  have purge: "other_tables (snd (purge_finished_tasks d l s)) = other_tables s" for d l
    using purge_others by (simp add: same_others_def)
  show ?thesis
    by (cases x) (simp_all add: exec_other_tables claim retry promote recover block create read purge
        update_task_progress_def set_task_session_def complete_task_def set_task_ai_summary_def
        fail_task_def cancel_task_def unblock_task_def promote_scheduled_task_def
        set_task_last_fired_at_ptr_def claim_recurring_fire_def cancel_scheduled_task_def)
qed

lemma keys_faults [simp]: "keys_unique (s\<lparr>db_faults := fs\<rparr>) = keys_unique s"
  by (rule keys_other_tables) simp

lemma record_tasks: "db_tasks (run_record x s) = db_tasks s"
proof -
  have c: "(\<And>s. db_tasks (snd (f s)) = db_tasks s) \<Longrightarrow> db_tasks (snd (db_call f s)) = db_tasks s"
    for f :: "db \<Rightarrow> 'a result \<times> db" and s
    by (rule db_call_preserves[where Q = "\<lambda>s'. db_tasks s' = db_tasks s"]) simp_all
  show ?thesis
    by (cases x) (auto simp: set_setting_def create_token_def revoke_token_def touch_token_def create_rule_def
        delete_rule_def mark_rule_fired_def record_rule_execution_def record_audit_def delete_audit_older_than_def
        create_archive_def delete_archive_def create_web_session_def delete_web_session_def
        delete_expired_web_sessions_def insert_events_def delete_events_older_than_def set_sessions_unread_def
        mark_session_read_def Let_def intro!: c)
qed

text \<open>Updates keep the keys, deletions lose some, insertions check or number them.\<close>

lemma distinct_put_setting: "distinct (map set_key rs) \<Longrightarrow> distinct (map set_key (put_setting_row k v at rs))"
  by (auto simp: put_setting_row_def row_update.keys_update row_update_def)

lemma distinct_mark: "distinct us \<Longrightarrow> distinct (fold (\<lambda>i us. if i \<in> set us then us else us @ [i]) is us)"
  by (induction "is" arbitrary: us) auto

lemma record_keys: "keys_unique s \<Longrightarrow> keys_unique (run_record x s)"
proof -
  assume k: "keys_unique s"
  have c: "(\<And>s. keys_unique s \<Longrightarrow> keys_unique (snd (f s))) \<Longrightarrow> keys_unique (snd (db_call f s))"
    for f :: "db \<Rightarrow> 'a result \<times> db"
    using k by (intro db_call_preserves[where Q = keys_unique]) simp_all
  note ops = set_setting_def create_token_def revoke_token_def touch_token_def create_rule_def
        delete_rule_def mark_rule_fired_def record_rule_execution_def record_audit_def delete_audit_older_than_def
        create_archive_def delete_archive_def create_web_session_def delete_web_session_def
        delete_expired_web_sessions_def insert_events_def delete_events_older_than_def set_sessions_unread_def
        mark_session_read_def
  show ?thesis
    by (cases x) (auto simp: ops Let_def k intro!: c,
      auto simp: keys_unique_def row_update.keys_update row_update_def set_fired_def distinct_put_setting distinct_mark
        distinct_events distinct_delete_where next_id_fresh)
qed

subsection \<open>The invariants of the store\<close>

interpretation task_table: store_invariant "\<lambda>s. wf_tasks (db_tasks s)"
  by unfold_locales (simp_all add: run_op_wf record_tasks)

interpretation keys: store_invariant keys_unique
  by unfold_locales (simp_all add: record_keys keys_other_tables[OF task_other_tables])

text \<open>From any table on, the rows move along the status machine.\<close>

interpretation history: store_invariant "\<lambda>s. table_step\<^sup>*\<^sup>* ts (db_tasks s)" for ts
  by unfold_locales (auto simp: record_tasks intro: rtranclp.rtrancl_into_rtrancl run_op_table_step)

subsection \<open>Transitions\<close>

record program =
  pr_server :: server
  pr_coll :: collector
  pr_heads :: heads

abbreviation pr_world :: "program \<Rightarrow> world" where
  "pr_world p \<equiv> sv_w (pr_server p)"

definition set_world :: "world \<Rightarrow> program \<Rightarrow> program" where
  "set_world w p = p\<lparr>pr_server := (pr_server p)\<lparr>sv_w := w\<rparr>\<rparr>"

text \<open>The collector works on the world of the server.\<close>

definition on_collector :: "(collector \<Rightarrow> collector) \<Rightarrow> program \<Rightarrow> program" where
  "on_collector f p =
     (let c = f ((pr_coll p)\<lparr>cl_w := pr_world p\<rparr>) in set_world (cl_w c) (p\<lparr>pr_coll := c\<rparr>))"

text \<open>A start of the process: what \<open>start_up\<close> does after the database is open, then the recovery.\<close>

definition booted :: "running \<Rightarrow> world \<Rightarrow> program" where
  "booted rn w1 =
     (let w = start_workers (w1\<lparr>w_jobs := []\<rparr>); c = start_event_collector w
      in \<lparr>pr_server = (rn_server rn)\<lparr>sv_w := cl_w c\<rparr>, pr_coll = c, pr_heads = (\<lambda>_. None)\<rparr>)"

inductive program_step :: "program \<Rightarrow> program \<Rightarrow> bool" where
  request: "program_step p (p\<lparr>pr_server := snd (serve ap av (pr_server p))\<rparr>)"
| scheduler: "program_step p (p\<lparr>pr_server := snd (poll_scheduled off (pr_server p))\<rparr>)"
| engine: "engine_tick off stamp git (pr_heads p, pr_world p) = (h, w) \<Longrightarrow> program_step p (set_world w (p\<lparr>pr_heads := h\<rparr>))"
| work: "safe_sched (tasks (pr_world p)) (concat xss) \<Longrightarrow>
    program_step p (set_world ((worker_round e v ((pr_world p)\<lparr>w_sched := xss\<rparr>))\<lparr>w_sched := []\<rparr>) p)"
| job: "j \<in> set (w_jobs (pr_world p)) \<Longrightarrow> program_step p (set_world (run_job answer j (pr_world p)) p)"
| janitor: "program_step p (set_world (snd (purge_once e (pr_world p))) p)"
| collect: "program_step p (on_collector (collector_step x) p)"
| sweep: "program_step p (on_collector cleanup_events p)"
| housekeep: "program_step p (set_world (housekeeping (pr_world p)) p)"
| report: "program_step p (set_world (report_health up oc (pr_world p)) p)"
| wait: "0 \<le> d \<Longrightarrow> program_step p (set_world (advance d (pr_world p)) p)"
| outage: "program_step p (set_world ((pr_world p)\<lparr>w_db := (w_db (pr_world p))\<lparr>db_faults := fs\<rparr>\<rparr>) p)"
| restart: "start_auth c cf (pr_world p) = (Inr rn, w) \<Longrightarrow> program_step p (booted rn w)"

text \<open>The first start is on a database that \<open>Open\<close> has just created.\<close>

inductive program_reachable :: "program \<Rightarrow> bool" where
  first: "start_auth c cf \<lparr>w_db = (empty_db t)\<lparr>db_pg := pg, db_faults := fs\<rparr>, w_out = [], w_jobs = [], w_sched = []\<rparr> = (Inr rn, w) \<Longrightarrow>
    program_reachable (booted rn w)"
| later: "program_reachable p \<Longrightarrow> program_step p p' \<Longrightarrow> program_reachable p'"

subsection \<open>Every transition is a run of the store\<close>

definition program_run :: "program \<Rightarrow> program \<Rightarrow> bool" where
  "program_run p p' \<longleftrightarrow> wrun (pr_world p) (pr_world p')"

lemma set_world_run: "wrun (pr_world p) w \<Longrightarrow> program_run p (set_world w p)"
  by (simp add: program_run_def set_world_def)

lemma set_world_field [simp]: "pr_world (set_world w p) = w"
  by (simp add: set_world_def)

lemma guarded_run_ops: "ops_guarded xs s \<Longrightarrow> store_run s (run_ops xs s)"
proof (induction xs arbitrary: s)
  case (Cons x xs)
  then have "store_run s (run_op x s)" and "store_run (run_op x s) (run_ops xs (run_op x s))"
    using task_run by auto
  then show ?case unfolding run_ops.simps by (rule db_run.trans)
qed (simp add: db_run.refl)

lemma work_run:
  assumes "safe_sched (tasks w) (concat xss)"
  shows "wrun w ((worker_round e v (w\<lparr>w_sched := xss\<rparr>))\<lparr>w_sched := []\<rparr>)"
proof -
  obtain xs where xs: "w_db (worker_round e v (w\<lparr>w_sched := xss\<rparr>)) = run_ops xs (w_db w)"
    "\<forall>x \<in> set xs. pool_op x \<or> x \<in> set (concat xss)"
    using ran_worker_round[of "w\<lparr>w_sched := xss\<rparr>" e v] by (auto simp: ran_def)
  have "ops_guarded xs (w_db w)"
    using safe_guarded[OF safe_run[OF assms xs(2)], of "w_db w"] by (simp add: tasks_def)
  then show ?thesis using guarded_run_ops by (simp add: wrun_def xs(1))
qed

lemma coll_run_flush: "wrun (cl_w c) (cl_w (flush c))"
  by (auto simp: flush_def Let_def intro!: wrun_run_call method_runs wr.refl)

lemma coll_run_recv: "wrun (cl_w c) (cl_w (recv c))"
  using coll_run_flush by (auto simp: recv_def Let_def wr.refl split: list.split) (metis collector.select_convs(5) collector.surjective collector.update_convs(3) collector.update_convs(4))

lemma note_status_world [simp]: "cl_w (note_status e c) = cl_w c"
  by (simp add: note_status_def Let_def)

lemma coll_run_arrive: "wrun (cl_w c) (cl_w (arrive raw c))"
  by (auto simp: arrive_def Let_def push_session_event_def wr.refl intro!: wrun_broadcast split: option.split)

lemma coll_run_step: "wrun (cl_w c) (cl_w (collector_step x c))"
  by (cases x) (simp_all add: coll_run_flush coll_run_recv coll_run_arrive)

lemma coll_run_sweep: "wrun (cl_w c) (cl_w (cleanup_events c))"
  by (auto simp: cleanup_events_def intro!: wrun_run_call method_runs wr.refl)

lemma fold_note_world [simp]: "cl_w (fold note_status es c) = cl_w c"
  by (induction es arbitrary: c) simp_all

lemma coll_run_start: "wrun w (cl_w (start_event_collector w))"
proof -
  have seed: "wrun (cl_w c) (cl_w (seed_session_statuses c))" for c
  proof -
    obtain res w1 where l: "call (list_events '''' (Some (now (cl_w c) - hour)) 1000) (cl_w c) = (res, w1)" by fastforce
    then have "wrun (cl_w c) w1"
      using wrun_call[of "list_events '''' (Some (now (cl_w c) - hour)) 1000" "cl_w c"] method_runs by simp
    then show ?thesis unfolding seed_session_statuses_def l prod.case by (simp split: sum.split)
  qed
  show ?thesis
    unfolding start_event_collector_def
    using wr.trans[OF coll_run_sweep seed, of "\<lparr>cl_status = [], cl_activity = [], cl_queue = [], cl_batch = [], cl_w = w\<rparr>"]
    by simp
qed

lemma on_collector_run:
  assumes "\<And>c. wrun (cl_w c) (cl_w (f c))"
  shows "program_run p (on_collector f p)"
  using assms[of "(pr_coll p)\<lparr>cl_w := pr_world p\<rparr>"] by (simp add: on_collector_def Let_def program_run_def)

lemma load_setting_run [method_runs]: "store_run s (snd (load_setting k v s))"
  unfolding load_setting_def
  by (intro db_run.thread method_runs[THEN db_run.post]) (auto intro: db_run.trans method_runs)

lemma load_llm_config_run [method_runs]: "store_run s (snd (load_llm_config flags s))"
  unfolding load_llm_config_def
  by (cases flags) (simp, intro db_run.thread method_runs[THEN db_run.post])

lemma start_auth_run: "wrun w (snd (start_auth c cf w))"
  unfolding start_auth_def by (intro wr.thread wrun_call[THEN wr.post] method_runs)

lemma boot_run:
  assumes "start_auth c cf w = (Inr rn, w1)"
  shows "wrun w (pr_world (booted rn w1))"
proof -
  have "wrun w w1" using start_auth_run[of w c cf] assms by simp
  moreover have "wrun w1 (w1\<lparr>w_jobs := []\<rparr>)" by (simp add: wrun_def db_run.refl)
  moreover have "wrun (w1\<lparr>w_jobs := []\<rparr>) (start_workers (w1\<lparr>w_jobs := []\<rparr>))" by (rule executor_runs)
  ultimately have "wrun w (cl_w (start_event_collector (start_workers (w1\<lparr>w_jobs := []\<rparr>))))"
    using coll_run_start wr.trans by meson
  then show ?thesis by (simp add: booted_def Let_def)
qed

lemma step_run_program: "program_step p p' \<Longrightarrow> program_run p p'"
proof (induction rule: program_step.induct)
  case (request p ap av)
  show ?case using serve_run[of "pr_server p" ap av] by (simp add: program_run_def srv_run_def)
next
  case (scheduler p off)
  show ?case using poll_scheduled_run[of "pr_server p" off] by (simp add: program_run_def srv_run_def)
next
  case (engine off stamp git p h w)
  then show ?case
    using engine_tick_run[of "(pr_heads p, pr_world p)" off stamp git] by (simp add: program_run_def set_world_def)
next
  case (outage p fs)
  show ?case
    by (rule set_world_run) (auto simp: wrun_def intro: step_run reading)
next
  case (restart c cf p rn w)
  then show ?case unfolding program_run_def by (rule boot_run)
qed (auto intro!: set_world_run work_run run_job_run executor_runs on_collector_run coll_run_step coll_run_sweep
    wrun_run_call wrun_advance wrun_broadcast wr.refl method_runs simp: housekeeping_def report_health_def split: option.split)

subsection \<open>What holds in every state\<close>

definition sound_db :: "db \<Rightarrow> bool" where
  "sound_db s \<longleftrightarrow> wf_tasks (db_tasks s) \<and> keys_unique s \<and> table_step\<^sup>*\<^sup>* [] (db_tasks s)"

lemma sound_run: "wrun w w' \<Longrightarrow> w_sched w = [] \<Longrightarrow> sound_db (w_db w) \<Longrightarrow> w_sched w' = [] \<and> sound_db (w_db w')"
  unfolding wrun_def sound_db_def using task_table.run_keeps keys.run_keeps history.run_keeps by blast

lemma sound_empty: "sound_db ((empty_db t)\<lparr>db_pg := pg, db_faults := fs\<rparr>)"
  by (simp add: sound_db_def empty_db_def keys_unique_def wf_tasks_def upstream_present_def)

lemma reachable_sound:
  "program_reachable p \<Longrightarrow> w_sched (pr_world p) = [] \<and> sound_db (w_db (pr_world p))"
proof (induction rule: program_reachable.induct)
  case (first c cf t pg fs rn w)
  show ?case using boot_run[OF first] sound_run sound_empty by fastforce
next
  case (later p p')
  then show ?case using step_run_program[OF later.hyps(2)] sound_run unfolding program_run_def by blast
qed



subsection \<open>A first start, and a second one\<close>

definition demo_config :: config where
  "demo_config = \<lparr>cf_listen = '':18880'', cf_opencode = ''http://127.0.0.1:4096'', cf_driver = ''sqlite'',
     cf_sqlite = ''a.db'', cf_dsn = '''', cf_password = ''correct horse'', cf_token = '''', cf_secret = '''', cf_workers = 4,
     cf_retention = 0, cf_llm = ('''', '''', ''''), cf_stt = '''', cf_stt_timeout = 30 * second, cf_chunk = 2097152,
     cf_version = False, cf_health = False\<rparr>"

definition new_world :: world where
  "new_world = \<lparr>w_db = (empty_db 0)\<lparr>db_pg := False, db_faults := []\<rparr>, w_out = [], w_jobs = [], w_sched = []\<rparr>"







subsection \<open>Revocation\<close>

text \<open>The digest \<open>h\<close> belongs to a token that has been revoked.\<close>

definition has_revoked :: "string \<Rightarrow> token list \<Rightarrow> bool" where
  "has_revoked h ts \<longleftrightarrow> (\<exists>t \<in> set ts. tok_hash t = h \<and> tok_revoked t \<noteq> None)"

lemma revoked_append: "has_revoked h ts \<Longrightarrow> has_revoked h (ts @ us)"
  by (auto simp: has_revoked_def)

lemma revoked_update:
  assumes "has_revoked h ts" and "\<And>t. tok_hash (f t) = tok_hash t" and "\<And>t. tok_revoked t \<noteq> None \<Longrightarrow> tok_revoked (f t) \<noteq> None"
  shows "has_revoked h (update_where P f ts)"
proof -
  obtain t where t: "t \<in> set ts" "tok_hash t = h" "tok_revoked t \<noteq> None" using assms(1) by (auto simp: has_revoked_def)
  then have "(if P t then f t else t) \<in> set (update_where P f ts)" by (auto simp: update_where_def)
  then show ?thesis unfolding has_revoked_def using t assms(2,3) by (metis (full_types))
qed

lemma revoked_record: "has_revoked h (db_tokens s) \<Longrightarrow> has_revoked h (db_tokens (run_record x s))"
proof -
  assume k: "has_revoked h (db_tokens s)"
  have c: "(\<And>s. has_revoked h (db_tokens s) \<Longrightarrow> has_revoked h (db_tokens (snd (f s)))) \<Longrightarrow>
      has_revoked h (db_tokens (snd (db_call f s)))" for f :: "db \<Rightarrow> 'a result \<times> db"
    using k by (intro db_call_preserves[where Q = "\<lambda>s'. has_revoked h (db_tokens s')"]) simp_all
  show ?thesis
    by (cases x) (auto simp: set_setting_def create_token_def revoke_token_def touch_token_def create_rule_def
        delete_rule_def mark_rule_fired_def record_rule_execution_def record_audit_def delete_audit_older_than_def
        create_archive_def delete_archive_def create_web_session_def delete_web_session_def
        delete_expired_web_sessions_def insert_events_def delete_events_older_than_def set_sessions_unread_def
        mark_session_read_def Let_def k intro!: c revoked_append revoked_update)
qed

interpretation revoked: store_invariant "\<lambda>s. has_revoked h (db_tokens s)" for h
proof
  fix s x
  have "db_tokens (run_op x s) = db_tokens s" using task_other_tables[of x s] by (simp add: other_tables_def)
  then show "has_revoked h (db_tokens s) \<Longrightarrow> has_revoked h (db_tokens (run_op x s))" by simp
qed (simp_all add: revoked_record)

lemma reachable_steps: "program_step\<^sup>*\<^sup>* p p' \<Longrightarrow> program_reachable p \<Longrightarrow> program_reachable p'"
  by (induction rule: rtranclp_induct) (auto intro: program_reachable.later)

lemma steps_run: "program_step\<^sup>*\<^sup>* p p' \<Longrightarrow> program_run p p'"
  by (induction rule: rtranclp_induct)
    (auto simp: program_run_def wr.refl dest!: step_run_program intro: wr.trans)

lemma revoked_refused:
  assumes "keys_unique s" and "has_revoked (cr_sha c raw) (db_tokens s)"
  shows "isl (fst (verify_token c raw s))"
proof -
  have none: "find (\<lambda>t. tok_hash t = cr_sha c raw \<and> tok_revoked t = None) (db_tokens s) = None"
    unfolding find_None_iff
  proof (intro notI, elim exE conjE)
    fix x
    assume x: "x \<in> set (db_tokens s)" "tok_hash x = cr_sha c raw" "tok_revoked x = None"
    obtain t where "t \<in> set (db_tokens s)" "tok_hash t = cr_sha c raw" "tok_revoked t \<noteq> None"
      using assms(2) by (auto simp: has_revoked_def)
    moreover have "inj_on tok_hash (set (db_tokens s))" using assms(1) by (simp add: keys_unique_def distinct_map)
    ultimately show False using x by (metis inj_onD)
  qed
  show ?thesis
    by (auto simp: verify_token_def get_token_by_hash_def db_call_def none split: list.split)
qed

text \<open>
  C5. Revocation is for ever. Once a token has been revoked, no continuation of the program, with
  any requests, new tokens, configured default tokens and restarts, makes it verify again.
\<close>
theorem revocation_is_permanent:
  assumes "program_reachable p" and "has_revoked (cr_sha c raw) (db_tokens (w_db (pr_world p)))"
    and "program_step\<^sup>*\<^sup>* p p'"
  shows "isl (fst (verify_token c raw (w_db (pr_world p'))))"
proof (rule revoked_refused)
  show "keys_unique (w_db (pr_world p'))"
    using reachable_sound[OF reachable_steps[OF assms(3,1)]] by (simp add: sound_db_def)
  show "has_revoked (cr_sha c raw) (db_tokens (w_db (pr_world p')))"
    using steps_run[OF assms(3)] reachable_sound[OF assms(1)] revoked.run_keeps[OF _ assms(2)]
    by (simp add: program_run_def wrun_def)
qed

definition token_config :: config where
  "token_config = demo_config\<lparr>cf_token := ''abc''\<rparr>"

definition token_program :: program where
  "token_program = (case start_auth plain_crypto token_config new_world of (Inr rn, w) \<Rightarrow> booted rn w)"

lemma token_starts: "\<not> isl (fst (start_auth plain_crypto token_config new_world))"
  by code_simp

definition revoke_call :: arrival where
  "revoke_call = \<lparr>av_path = ''/api/tokens/default'', av_raw = None,
     av_req = \<lparr>q_method = ''DELETE'', q_path = ''/api/tokens/default'', q_query = [],
       q_headers = [(''Authorization'', ''Bearer abc'')], q_remote = '''', q_host = '''', q_body = Malformed\<rparr>\<rparr>"

lemma revoke_call_route:
  "clean_path ''/api/tokens/default''" "\<not> wants_slash ''/api/tokens/default''"
  "best_route ''/api/tokens/default'' = Some ''/api/tokens/''"
  by code_simp+

lemma token_started:
  "case start_auth plain_crypto token_config new_world of
     (Inr rn, w) \<Rightarrow> map (\<lambda>t. (tok_id t, tok_hash t, tok_revoked t = None)) (db_tokens (w_db w)) = [(''default'', ''abc'', True)] \<and>
       db_faults (w_db w) = [] \<and> w_sched w = [] \<and> sv_ctx (rn_server rn) = None
   | _ \<Rightarrow> False"
  by code_simp

lemma boot_tokens:
  assumes "w_sched w = []" and "db_faults (w_db w) = []"
  shows "db_tokens (w_db (pr_world (booted rn w))) = db_tokens (w_db w)"
    and "w_sched (pr_world (booted rn w)) = []" and "db_faults (w_db (pr_world (booted rn w))) = []"
    and "sv_ctx (pr_server (booted rn w)) = sv_ctx (rn_server rn)"
  using assms
  by (simp_all add: booted_def Let_def start_workers_def start_event_collector_def cleanup_events_def
      seed_session_statuses_def run_call_def call_def others_def recover_stale_running_def exec_tasks_def
      delete_events_older_than_def list_events_def split: prod.split sum.split)

lemma revoke_call_revokes:
  assumes "w_sched (sv_w sv) = []" and "db_faults (w_db (sv_w sv)) = []"
    and "db_tokens (w_db (sv_w sv)) = [t]" and "tok_id t = ''default''" "tok_hash t = ''abc''" "tok_revoked t = None"
  shows "has_revoked ''abc'' (db_tokens (w_db (sv_w (snd (mux (ap\<lparr>ap_crypto := plain_crypto\<rparr>) revoke_call (sv\<lparr>sv_ctx := None\<rparr>))))))"
proof -
  let ?r = "av_req revoke_call"
  have h: "has_prefix (header ''Authorization'' ?r) ''Bearer ''" "drop 7 (header ''Authorization'' ?r) = ''abc''"
      "trim_space ''abc'' \<noteq> ''''" "header ''X-Web-Session'' ?r = ''''" "q_method ?r = ''DELETE''"
      "drop (length ''/api/tokens/'') (q_path ?r) = ''default''"
    by code_simp+
  have pass: "require_token plain_crypto ?r (sv\<lparr>sv_ctx := None\<rparr>) =
      (Some t, (touch_throttled ''default'' (sv\<lparr>sv_ctx := None\<rparr>))\<lparr>sv_ctx := Some t\<rparr>)"
    using h assms
    by (simp add: require_token_def Let_def scall_def call_def others_def verify_token_def get_token_by_hash_def
        plain_crypto_def)
  define sv1 where "sv1 = (touch_throttled ''default'' (sv\<lparr>sv_ctx := None\<rparr>))\<lparr>sv_ctx := Some t\<rparr>"
  have sv1: "w_sched (sv_w sv1) = []" "db_faults (w_db (sv_w sv1)) = []"
      "\<exists>u. db_tokens (w_db (sv_w sv1)) = [t\<lparr>tok_used := u\<rparr>]"
    using assms
    by (auto simp: sv1_def touch_throttled_def Let_def srun_def scall_def call_def others_def touch_token_def
        update_where_def split: option.split intro: exI[of _ "tok_used t"])
  have "snd (handle_token_by_id plain_crypto ?r (sv\<lparr>sv_ctx := None\<rparr>)) = snd (scall (revoke_token ''default'') sv1)"
    using pass h
    by (simp add: handle_token_by_id_def guarded_def web_or_token_def require_web_def sv1_def[symmetric] Let_def
        split: prod.split sum.split)
  moreover have "has_revoked ''abc'' (db_tokens (w_db (sv_w (snd (scall (revoke_token ''default'') sv1)))))"
    using sv1 assms
    by (auto simp: scall_def call_def others_def revoke_token_def Let_def count_where_def update_where_def has_revoked_def)
  moreover have "endpoint (ap\<lparr>ap_crypto := plain_crypto\<rparr>) revoke_call ''/api/tokens/'' = handle_token_by_id plain_crypto"
    by (simp add: endpoint_def device_handlers_def admin_handlers_def Let_def)
  moreover have "mux (ap\<lparr>ap_crypto := plain_crypto\<rparr>) revoke_call =
      endpoint (ap\<lparr>ap_crypto := plain_crypto\<rparr>) revoke_call ''/api/tokens/'' ?r"
  proof
    have "av_path revoke_call = ''/api/tokens/default''" by (simp add: revoke_call_def)
    then show "mux (ap\<lparr>ap_crypto := plain_crypto\<rparr>) revoke_call s =
        endpoint (ap\<lparr>ap_crypto := plain_crypto\<rparr>) revoke_call ''/api/tokens/'' ?r s" for s
      unfolding mux_def by (simp add: revoke_call_route)
  qed
  ultimately show ?thesis by simp
qed

lemma revoke_served:
  assumes "w_sched (sv_w sv) = []" and "db_faults (w_db (sv_w sv)) = []"
    and "db_tokens (w_db (sv_w sv)) = [t]" and "tok_id t = ''default''" "tok_hash t = ''abc''" "tok_revoked t = None"
  shows "has_revoked ''abc'' (db_tokens (w_db (sv_w (snd (serve (ap\<lparr>ap_crypto := plain_crypto\<rparr>) revoke_call sv)))))"
proof -
  obtain rp sv1 where m: "mux (ap\<lparr>ap_crypto := plain_crypto\<rparr>) revoke_call (sv\<lparr>sv_ctx := None\<rparr>) = (rp, sv1)" by fastforce
  have h: "has_revoked ''abc'' (db_tokens (w_db (sv_w sv1)))" using revoke_call_revokes[OF assms, of ap] m by simp
  have "snd (serve (ap\<lparr>ap_crypto := plain_crypto\<rparr>) revoke_call sv) =
      snd (log_middleware plain_crypto (av_req revoke_call) (\<lambda>_. (rp, sv1)) sv)"
    by (simp add: serve_def log_middleware_def m)
  moreover have "srv_run sv1 (snd (case (rp, sv1) of (rp, sv1) \<Rightarrow>
      if \<not> audited r then (rp, sv1)
      else case token_from_request c r sv1 of (None, sv2) \<Rightarrow> (rp, sv2)
        | (Some t, sv2) \<Rightarrow> (rp, srun (record_audit (audit_row t r (rp_status rp))) sv2)))" for c r
    unfolding prod.case by (intro srv.thread server_runs[THEN srv.post] server_updates srv_srun method_runs)
  then have "srv_run sv1 (snd (log_middleware plain_crypto (av_req revoke_call) (\<lambda>_. (rp, sv1)) sv))"
    unfolding log_middleware_def .
  moreover have "srv_run (sv\<lparr>sv_ctx := None\<rparr>) sv1"
    using mux_run[of "sv\<lparr>sv_ctx := None\<rparr>" "ap\<lparr>ap_crypto := plain_crypto\<rparr>" revoke_call] by (simp add: m)
  ultimately show ?thesis
    using h revoked.run_keeps assms(1) by (auto simp: srv_run_def wrun_def)
qed

lemma token_program_ready:
  "program_reachable token_program \<and>
   (\<exists>t. db_tokens (w_db (pr_world token_program)) = [t] \<and> tok_id t = ''default'' \<and> tok_hash t = ''abc'' \<and> tok_revoked t = None) \<and>
   w_sched (pr_world token_program) = [] \<and> db_faults (w_db (pr_world token_program)) = []"
proof -
  obtain rn w where s: "start_auth plain_crypto token_config new_world = (Inr rn, w)"
    using token_starts by (metis old.prod.exhaust sum.collapse(2) fst_conv)
  then have "program_reachable (booted rn w)" unfolding new_world_def by (rule program_reachable.first)
  moreover have "map (\<lambda>t. (tok_id t, tok_hash t, tok_revoked t = None)) (db_tokens (w_db w)) = [(''default'', ''abc'', True)]"
    and "w_sched w = []" and "db_faults (w_db w) = []"
    using token_started by (simp_all add: s)
  ultimately show ?thesis using boot_tokens[of w rn] by (auto simp: token_program_def s)
qed

lemma revocation_is_permanent_witness:
  "\<forall>ap. isl (fst (verify_token plain_crypto ''abc'' (w_db (pr_world
     (token_program\<lparr>pr_server := snd (serve (ap\<lparr>ap_crypto := plain_crypto\<rparr>) revoke_call (pr_server token_program))\<rparr>)))))"
proof
  fix ap :: app
  let ?p = "token_program\<lparr>pr_server := snd (serve (ap\<lparr>ap_crypto := plain_crypto\<rparr>) revoke_call (pr_server token_program))\<rparr>"
  have "has_revoked ''abc'' (db_tokens (w_db (pr_world ?p)))"
    using token_program_ready revoke_served by auto
  then show "isl (fst (verify_token plain_crypto ''abc'' (w_db (pr_world ?p))))"
    using token_program_ready
    by (intro revocation_is_permanent[where p = ?p]) (auto simp: plain_crypto_def intro: program_reachable.later request)
qed

end
