(* ===== verification/Channels.thy ===== *)
theory Channels
  imports EventsSpec LlmApi
begin

text \<open>
  The two channels on which clients stay connected. First \<open>/api/ws\<close>: who gets one, and what \<open>handleWebSocket\<close> does
  after the upgrade (\<open>internal/server/handlers.go\<close>) together with the hub (\<open>internal/push/hub.go\<close>),
  as a transition system in which any number of handlers, broadcasts, pings and the shutdown
  interleave: a broadcast takes its snapshot of the clients and then writes to one after the other
  without the lock. Then \<open>/api/stream\<close>: the loop of \<open>handleStream\<close> that reopens the upstream.
\<close>

subsection \<open>Who gets a web socket\<close>

text \<open>
  C9. Only pages of the server itself open a web socket. Provided the websocket library refuses a
  handshake whose origin the check has refused, a handshake that carries the origin of a page, as
  browsers send it, and is answered with 101 comes from a page of the host that the request is
  addressed to, port included, and the credentials were accepted.
\<close>
theorem websocket_same_host:
  assumes "\<forall>q. upgrades q False \<noteq> None" and "\<forall>q ok. upgrades q ok \<noteq> Some 101"
    and "rp_status (fst (handle_websocket c literal upgrades r sv)) = 101"
    and "header ''Origin'' r = sch @ ''://'' @ site" and "is_scheme sch" and "is_site site"
  shows "site = q_host r \<and> fst (channel_gate c r sv) = None"
proof -
  obtain x sv1 where gate: "channel_gate c r sv = (x, sv1)" by fastforce
  have ok: "x = None" "upgrades r (check_origin literal r) = None"
    using assms(2,3) by (auto simp: handle_websocket_def gate reply_def write_err_def write_json_def split: option.splits)
  then have "check_origin literal r" using assms(1) by (cases "check_origin literal r") auto
  then show ?thesis using check_browser_origin[OF assms(4-6)] ok(1) by (simp add: gate)
qed

definition page_call :: request where
  "page_call = \<lparr>q_method = ''GET'', q_path = ''/api/ws'', q_query = [(''session'', ''s1'')],
     q_headers = [(''Origin'', ''https://ocb.example:18880'')], q_remote = [], q_host = ''ocb.example:18880'',
     q_body = Malformed\<rparr>"

definition usual_upgrades :: "request \<Rightarrow> bool \<Rightarrow> int option" where
  "usual_upgrades q ok = (if ok then None else Some 403)"

definition logged_in :: server where
  "logged_in = new_server [] \<lparr>w_db = (empty_db 0)\<lparr>db_sessions := [\<lparr>ws_id = ''s1'', ws_expires = 1\<rparr>]\<rparr>,
     w_out = [], w_jobs = [], w_sched = []\<rparr>"

lemma page_call_accepted:
  "rp_status (fst (handle_websocket plain_crypto (\<lambda>_. None) usual_upgrades page_call logged_in)) = 101"
  "header ''Origin'' page_call = ''https'' @ ''://'' @ ''ocb.example:18880''" "is_scheme ''https''"
  "list_all site_char ''ocb.example''" "valid_port '':18880''"
  by code_simp+

lemma websocket_same_host_witness:
  "fst (channel_gate plain_crypto page_call logged_in) = None \<and> ''ocb.example:18880'' = q_host page_call \<and>
   rp_status (fst (handle_websocket plain_crypto (\<lambda>_. None) usual_upgrades (page_call\<lparr>q_host := ''other''\<rparr>) logged_in)) = 403"
proof -
  have "is_site ''ocb.example:18880''"
    unfolding is_site_def using page_call_accepted(4,5)
    by (intro exI[of _ "''ocb.example''"] exI[of _ "'':18880''"]) simp
  from websocket_same_host[OF _ _ page_call_accepted(1,2,3) this]
  have "''ocb.example:18880'' = q_host page_call \<and> fst (channel_gate plain_crypto page_call logged_in) = None"
    by (simp add: usual_upgrades_def)
  moreover have "rp_status (fst (handle_websocket plain_crypto (\<lambda>_. None) usual_upgrades (page_call\<lparr>q_host := ''other''\<rparr>) logged_in)) = 403"
    by code_simp
  ultimately show ?thesis by simp
qed

subsection \<open>Handlers and broadcasts\<close>

text \<open>A handler registers its connection, greets the client, reads until an error, and unregisters.\<close>

datatype phase = Absent | Joined | Reading | Gone

text \<open>A broadcast: its message, the snapshot, and the clients that are still to be written to.\<close>

record cast =
  bc_msg :: message
  bc_to :: "conn list"
  bc_left :: "conn list"

record channels =
  ch_hub :: hub
  ch_phase :: "conn \<Rightarrow> phase"
  ch_deadline :: "conn \<Rightarrow> time"
  ch_dead :: "conn set"
  ch_now :: time
  ch_casts :: "cast list"
  ch_log :: "(nat option \<times> conn) list"
  ch_ran :: bool

definition ws_pong_wait :: duration where
  "ws_pong_wait = 60 * second"

definition subscribed :: message where
  "subscribed = \<lparr>m_type = ''subscribed'', m_payload = JNull, m_severity = ''''\<rparr>"

definition no_channels :: channels where
  "no_channels = \<lparr>ch_hub = new_hub, ch_phase = (\<lambda>_. Absent), ch_deadline = (\<lambda>_. 0), ch_dead = {}, ch_now = 0,
     ch_casts = [], ch_log = [], ch_ran = False\<rparr>"

text \<open>Neither the hub has closed the connection, nor the pinger or the client.\<close>

definition open_conn :: "channels \<Rightarrow> conn \<Rightarrow> bool" where
  "open_conn s c \<longleftrightarrow> c \<notin> set (h_closed (ch_hub s)) \<and> c \<notin> ch_dead s"

text \<open>One round of the loop in \<open>Broadcast\<close>; \<open>b\<close> says whether the client takes the message.\<close>

definition offer :: "bool \<Rightarrow> message \<Rightarrow> conn \<Rightarrow> hub \<Rightarrow> hub" where
  "offer b m c h = (case write_msg (\<lambda>_ _. b) c m h of (True, h1) \<Rightarrow> h1 | (False, h1) \<Rightarrow> unregister c h1)"

text \<open>
  \<open>ch_log\<close> says which broadcast (\<open>None\<close>: the greeting) each write that succeeded belongs to.
  A write to a connection that is not open fails; any other may fail.
\<close>

inductive channel_step :: "channels \<Rightarrow> channels \<Rightarrow> bool" where
  accept: "ch_phase s c = Absent \<Longrightarrow>
    channel_step s (s\<lparr>ch_hub := register c (ch_hub s), ch_phase := (ch_phase s)(c := Joined),
      ch_deadline := (ch_deadline s)(c := ch_now s + ws_pong_wait)\<rparr>)"
| greet: "ch_phase s c = Joined \<Longrightarrow> (b \<Longrightarrow> open_conn s c) \<Longrightarrow>
    channel_step s (s\<lparr>ch_hub := snd (write_msg (\<lambda>_ _. b) c subscribed (ch_hub s)),
      ch_phase := (ch_phase s)(c := Reading), ch_log := ch_log s @ (if b then [(None, c)] else [])\<rparr>)"
| cast: "distinct cs \<Longrightarrow> set cs = set (h_clients (ch_hub s)) \<Longrightarrow>
    channel_step s (s\<lparr>ch_casts := ch_casts s @ [\<lparr>bc_msg = m, bc_to = cs, bc_left = cs\<rparr>]\<rparr>)"
| deliver: "k < length (ch_casts s) \<Longrightarrow> bc_left (ch_casts s ! k) = c # cs \<Longrightarrow> (b \<Longrightarrow> open_conn s c) \<Longrightarrow>
    channel_step s (s\<lparr>ch_hub := offer b (bc_msg (ch_casts s ! k)) c (ch_hub s),
      ch_casts := (ch_casts s)[k := (ch_casts s ! k)\<lparr>bc_left := cs\<rparr>],
      ch_log := ch_log s @ (if b then [(Some k, c)] else [])\<rparr>)"
| pong: "ch_phase s c = Reading \<Longrightarrow> open_conn s c \<Longrightarrow> ch_now s < ch_deadline s c \<Longrightarrow>
    channel_step s (s\<lparr>ch_deadline := (ch_deadline s)(c := ch_now s + ws_pong_wait)\<rparr>)"
| dies: "channel_step s (s\<lparr>ch_dead := insert c (ch_dead s)\<rparr>)"
| leave: "ch_phase s c = Reading \<Longrightarrow>
    channel_step s (s\<lparr>ch_hub := unregister c (ch_hub s), ch_phase := (ch_phase s)(c := Gone)\<rparr>)"
| pass: "0 \<le> d \<Longrightarrow> channel_step s (s\<lparr>ch_now := ch_now s + d\<rparr>)"
| stopping: "channel_step s (s\<lparr>ch_hub := stop (ch_hub s)\<rparr>)"
| closing: "h_done (ch_hub s) \<Longrightarrow> \<not> ch_ran s \<Longrightarrow> channel_step s (s\<lparr>ch_hub := run_hub (ch_hub s), ch_ran := True\<rparr>)"

inductive channel_reachable :: "channels \<Rightarrow> bool" where
  none: "channel_reachable no_channels"
| more: "channel_reachable s \<Longrightarrow> channel_step s s' \<Longrightarrow> channel_reachable s'"

lemma steps_reachable: "channel_step\<^sup>*\<^sup>* s s' \<Longrightarrow> channel_reachable s \<Longrightarrow> channel_reachable s'"
  by (induction rule: rtranclp_induct) (auto intro: channel_reachable.more)

subsection \<open>Slots\<close>

definition conns_inv :: "channels \<Rightarrow> bool" where
  "conns_inv s \<longleftrightarrow>
     distinct (h_clients (ch_hub s)) \<and> distinct (h_closed (ch_hub s)) \<and>
     set (h_clients (ch_hub s)) \<inter> set (h_closed (ch_hub s)) = {} \<and>
     set (h_clients (ch_hub s)) \<subseteq> {c. ch_phase s c \<in> {Joined, Reading}} \<and>
     {c. ch_phase s c \<noteq> Absent} = set (h_clients (ch_hub s)) \<union> set (h_closed (ch_hub s))"

lemmas hub_ops = register_def unregister_def offer_def write_msg_def stop_def run_hub_def

lemma conns_step: "channel_step s s' \<Longrightarrow> conns_inv s \<Longrightarrow> conns_inv s'"
proof (induction rule: channel_step.induct)
  case (deliver k s c cs b)
  then show ?case by (cases b) (auto simp: conns_inv_def hub_ops)
qed (auto simp: conns_inv_def hub_ops)

lemma reachable_conns: "channel_reachable s \<Longrightarrow> conns_inv s"
proof (induction rule: channel_reachable.induct)
  case none
  show ?case by (simp add: conns_inv_def no_channels_def new_hub_def)
qed (rule conns_step)

text \<open>
  C23. No connection keeps its slot. Whatever handlers, broadcasts and the shutdown do in between:
  a client of the hub is one connection, whose handler is still running and will unregister it, and
  when a handler has returned its connection is closed, by the hub, exactly once, and is no client.
\<close>
theorem slots_are_released:
  assumes "channel_reachable s"
  shows "distinct (h_clients (ch_hub s)) \<and>
     set (h_clients (ch_hub s)) \<subseteq> {c. ch_phase s c \<in> {Joined, Reading}} \<and>
     {c. ch_phase s c = Gone} \<subseteq> set (h_closed (ch_hub s)) - set (h_clients (ch_hub s)) \<and>
     distinct (h_closed (ch_hub s))"
proof -
  note i = reachable_conns[OF assms, unfolded conns_inv_def]
  have "x \<in> set (h_closed (ch_hub s)) - set (h_clients (ch_hub s))" if "ch_phase s x = Gone" for x
  proof -
    have "x \<in> {c. ch_phase s c \<noteq> Absent}" using that by simp
    then have "x \<in> set (h_clients (ch_hub s)) \<union> set (h_closed (ch_hub s))" using i by argo
    then show ?thesis using i that by auto
  qed
  then show ?thesis using i by auto
qed

subsection \<open>Delivery\<close>

definition written :: "channels \<Rightarrow> nat \<Rightarrow> conn \<Rightarrow> nat" where
  "written s k c = count_list (ch_log s) (Some k, c)"

definition served :: "cast \<Rightarrow> conn set" where
  "served b = set (bc_to b) - set (bc_left b)"

definition cast_ok :: "channels \<Rightarrow> nat \<Rightarrow> bool" where
  "cast_ok s k \<longleftrightarrow>
     (let b = ch_casts s ! k
      in distinct (bc_to b) \<and> suffix (bc_left b) (bc_to b) \<and> set (bc_to b) \<subseteq> {c. ch_phase s c \<noteq> Absent} \<and>
         (\<forall>c. c \<notin> served b \<longrightarrow> written s k c = 0) \<and>
         (\<forall>c \<in> served b. c \<in> set (h_clients (ch_hub s)) \<longrightarrow> written s k c = 1))"

fun msg_of :: "cast list \<Rightarrow> nat option \<Rightarrow> message" where
  "msg_of bs None = subscribed"
| "msg_of bs (Some k) = bc_msg (bs ! k)"

definition entry :: "channels \<Rightarrow> nat option \<times> conn \<Rightarrow> conn \<times> message" where
  "entry s e = (snd e, msg_of (ch_casts s) (fst e))"

definition casts_inv :: "channels \<Rightarrow> bool" where
  "casts_inv s \<longleftrightarrow> (\<forall>k < length (ch_casts s). cast_ok s k) \<and>
     (\<forall>j c. (Some j, c) \<in> set (ch_log s) \<longrightarrow> j < length (ch_casts s)) \<and>
     h_sent (ch_hub s) = map (entry s) (ch_log s)"

text \<open>A step that leaves broadcasts and log alone, and takes clients away at most.\<close>

lemma casts_keep:
  assumes "casts_inv s" and "ch_casts s' = ch_casts s" and "h_sent (ch_hub s') = h_sent (ch_hub s)"
    and "ch_log s' = ch_log s" and "{c. ch_phase s c \<noteq> Absent} \<subseteq> {c. ch_phase s' c \<noteq> Absent}"
    and "set (h_clients (ch_hub s')) \<inter> {c. ch_phase s c \<noteq> Absent} \<subseteq> set (h_clients (ch_hub s))"
  shows "casts_inv s'"
proof -
  have "entry s' = entry s" by (simp add: entry_def fun_eq_iff assms(2))
  moreover have "cast_ok s k \<Longrightarrow> cast_ok s' k" for k
    using assms(2,4,5,6) unfolding cast_ok_def written_def Let_def served_def by auto
  ultimately show ?thesis using assms(1-4) by (auto simp: casts_inv_def)
qed

lemma suffix_tail: "suffix (c # cs) xs \<Longrightarrow> distinct xs \<Longrightarrow> suffix cs xs \<and> c \<in> set xs \<and> c \<notin> set cs"
  by (auto simp: suffix_def)

lemma casts_deliver:
  assumes "casts_inv s" and "k < length (ch_casts s)" and "bc_left (ch_casts s ! k) = c # cs"
  shows "casts_inv (s\<lparr>ch_hub := offer b (bc_msg (ch_casts s ! k)) c (ch_hub s),
      ch_casts := (ch_casts s)[k := (ch_casts s ! k)\<lparr>bc_left := cs\<rparr>],
      ch_log := ch_log s @ (if b then [(Some k, c)] else [])\<rparr>)" (is "casts_inv ?s'")
proof -
  have ok: "cast_ok s j" if "j < length (ch_casts s)" for j using assms(1) that by (simp add: casts_inv_def)
  have cl: "set (h_clients (ch_hub ?s')) \<subseteq> set (h_clients (ch_hub s)) - (if b then {} else {c})"
    by (auto simp: hub_ops)
  have w: "written ?s' j d = written s j d + (if b \<and> j = k \<and> d = c then 1 else 0)" for j d
    by (simp add: written_def)
  note suf = ok[OF assms(2)]
  have new: "suffix cs (bc_to (ch_casts s ! k))" "c \<in> set (bc_to (ch_casts s ! k))" "c \<notin> set cs"
    using suf suffix_tail unfolding cast_ok_def Let_def assms(3) by metis+
  have sv: "served ((ch_casts s ! k)\<lparr>bc_left := cs\<rparr>) = insert c (served (ch_casts s ! k))"
    using new assms(3) by (auto simp: served_def)
  have old: "c \<notin> served (ch_casts s ! k)" by (simp add: served_def assms(3))
  have "cast_ok ?s' j" if "j < length (ch_casts s)" for j
  proof (cases "j = k")
    case True
    then show ?thesis
      using suf new(1) cl old assms(2) unfolding cast_ok_def Let_def w True
      by (auto simp: sv)
  next
    case False
    then show ?thesis using ok[OF that] cl unfolding cast_ok_def Let_def w by auto
  qed
  moreover have "msg_of (ch_casts ?s') o' = msg_of (ch_casts s) o'" for o'
    using assms(2) by (cases o') (auto simp: nth_list_update)
  then have "entry ?s' = entry s" by (simp add: entry_def fun_eq_iff)
  ultimately show ?thesis
    using assms(1,2) by (cases b) (auto simp: casts_inv_def hub_ops entry_def)
qed

lemma casts_step:
  assumes "channel_step s s'" and "casts_inv s" and "conns_inv s"
  shows "casts_inv s'"
  using assms
proof (induction rule: channel_step.induct)
  case (greet s c b)
  have w: "written (s\<lparr>ch_hub := h, ch_phase := f, ch_log := ch_log s @ (if b then [(None, c)] else [])\<rparr>) = written s" for h f
    by (auto simp: written_def fun_eq_iff)
  then show ?case
    using greet by (auto simp: casts_inv_def cast_ok_def hub_ops entry_def Let_def)
next
  case (cast cs s m)
  let ?s' = "s\<lparr>ch_casts := ch_casts s @ [\<lparr>bc_msg = m, bc_to = cs, bc_left = cs\<rparr>]\<rparr>"
  have w: "written ?s' = written s" by (simp add: written_def fun_eq_iff)
  have new: "written s (length (ch_casts s)) c = 0" for c
    using cast(3) by (auto simp: casts_inv_def written_def count_list_0_iff)
  have "msg_of (ch_casts ?s') k = msg_of (ch_casts s) k" if "(k, c) \<in> set (ch_log s)" for k c
    using cast(3) that by (cases k) (auto simp: casts_inv_def nth_append)
  then have e: "map (entry ?s') (ch_log s) = map (entry s) (ch_log s)" by (auto simp: entry_def)
  have "cast_ok ?s' j" if "j < Suc (length (ch_casts s))" for j
  proof (cases "j = length (ch_casts s)")
    case True
    then show ?thesis using cast new by (auto simp: cast_ok_def Let_def w served_def conns_inv_def)
  next
    case False
    then have "j < length (ch_casts s)" using that by simp
    moreover from this have "cast_ok s j" using cast(3) by (simp add: casts_inv_def)
    ultimately show ?thesis by (auto simp: cast_ok_def Let_def w nth_append)
  qed
  then show ?case using cast(3) e by (auto simp: casts_inv_def)
next
  case (deliver k s c cs b)
  then show ?case using casts_deliver by blast
next
  case (accept s c)
  then show ?case by (elim casts_keep) (auto simp: hub_ops)
next
  case (leave s c)
  then show ?case by (elim casts_keep) (auto simp: hub_ops)
qed (elim casts_keep; auto simp: hub_ops)+

lemma reachable_casts: "channel_reachable s \<Longrightarrow> casts_inv s"
proof (induction rule: channel_reachable.induct)
  case none
  show ?case by (simp add: casts_inv_def no_channels_def new_hub_def)
next
  case (more s s')
  then show ?case using casts_step reachable_conns by blast
qed

text \<open>
  C22. Broadcasts under concurrency. When a broadcast is through its snapshot, every client that is
  still subscribed has taken it exactly once if it was subscribed when the broadcast began, and not
  at all otherwise, whatever other broadcasts, clients and pings have done meanwhile; and all that
  has been written to anybody is the greetings and the messages of such broadcasts.
\<close>
theorem concurrent_broadcast_delivers:
  assumes "channel_reachable s" and "k < length (ch_casts s)" and "bc_left (ch_casts s ! k) = []"
    and "c \<in> set (h_clients (ch_hub s))"
  shows "written s k c = (if c \<in> set (bc_to (ch_casts s ! k)) then 1 else 0) \<and>
     h_sent (ch_hub s) = map (entry s) (ch_log s)"
proof -
  have i: "casts_inv s" by (rule reachable_casts) fact
  then have "cast_ok s k" using assms(2) by (simp add: casts_inv_def)
  then have "written s k c = (if c \<in> set (bc_to (ch_casts s ! k)) then 1 else 0)"
    using assms(4) unfolding cast_ok_def served_def assms(3) Let_def by simp
  then show ?thesis using i by (simp add: casts_inv_def)
qed

lemma log_grows:
  "channel_step s s' \<Longrightarrow> \<exists>ys. ch_log s' = ch_log s @ ys \<and>
     (\<forall>k c. (Some k, c) \<in> set ys \<longrightarrow> k < length (ch_casts s) \<and> bc_left (ch_casts s ! k) \<noteq> [])"
  by (induction rule: channel_step.induct) auto

lemma casts_finished:
  "channel_step s s' \<Longrightarrow> j < length (ch_casts s) \<and> bc_left (ch_casts s ! j) = [] \<Longrightarrow>
   j < length (ch_casts s') \<and> bc_left (ch_casts s' ! j) = []"
  by (induction rule: channel_step.induct) (auto simp: nth_append nth_list_update)

text \<open>
  Order. A broadcast that has ended before another begins is written before it to every client:
  from then on nothing of the first is written any more, and nothing of the second has been yet.
\<close>
lemma broadcasts_in_order:
  assumes "channel_reachable s" and "j < length (ch_casts s)" and "bc_left (ch_casts s ! j) = []"
    and "length (ch_casts s) \<le> k" and "channel_step\<^sup>*\<^sup>* s s'"
  shows "\<exists>ys. ch_log s' = ch_log s @ ys \<and> (\<forall>c. (Some k, c) \<notin> set (ch_log s)) \<and> (\<forall>c. (Some j, c) \<notin> set ys)"
proof -
  have "(\<exists>ys. ch_log s' = ch_log s @ ys \<and> (\<forall>c. (Some j, c) \<notin> set ys)) \<and>
      j < length (ch_casts s') \<and> bc_left (ch_casts s' ! j) = []"
    using assms(5)
  proof (induction rule: rtranclp_induct)
    case (step t t')
    then show ?case using log_grows[OF step(2)] casts_finished[OF step(2), of j] by fastforce
  qed (use assms(2,3) in simp)
  moreover have "(Some k, c) \<notin> set (ch_log s)" for c
    using reachable_casts[OF assms(1)] assms(4) by (fastforce simp: casts_inv_def)
  ultimately show ?thesis by blast
qed

subsection \<open>Silent clients\<close>

text \<open>
  A silent client is lost for good: once its deadline has passed, no pong counts any more, and
  all its handler can still do is leave.
\<close>
lemma silent_client_is_lost:
  assumes "channel_step\<^sup>*\<^sup>* s s'" and "ch_phase s c = Reading" and "ch_deadline s c \<le> ch_now s"
  shows "ch_deadline s' c \<le> ch_now s' \<and> ch_phase s' c \<in> {Reading, Gone}"
proof -
  have step: "channel_step t t' \<Longrightarrow> ch_deadline t c \<le> ch_now t \<and> ch_phase t c \<in> {Reading, Gone} \<Longrightarrow>
      ch_deadline t' c \<le> ch_now t' \<and> ch_phase t' c \<in> {Reading, Gone}" for t t'
    by (induction rule: channel_step.induct) auto
  from assms(1) show ?thesis
    by (induction rule: rtranclp_induct) (use assms(2,3) step in auto)
qed

subsection \<open>The broadcast as one operation\<close>

text \<open>The rest of a broadcast, with nobody in between, is \<open>fan_out\<close>.\<close>

lemma deliver_rest:
  assumes "k < length (ch_casts s)" and "ch_casts s ! k = \<lparr>bc_msg = m, bc_to = to, bc_left = cs\<rparr>"
    and "distinct cs" and "\<forall>c \<in> set cs. ok c m \<longrightarrow> open_conn s c"
  shows "\<exists>s'. channel_step\<^sup>*\<^sup>* s s' \<and> ch_hub s' = fan_out ok m cs (ch_hub s) \<and> ch_phase s' = ch_phase s \<and>
     ch_casts s' = (ch_casts s)[k := \<lparr>bc_msg = m, bc_to = to, bc_left = []\<rparr>]"
  using assms
proof (induction cs arbitrary: s)
  case Nil
  then show ?case using list_update_id[of "ch_casts s" k] by (intro exI[of _ s]) simp
next
  case (Cons c cs)
  let ?t = "s\<lparr>ch_hub := offer (ok c m) (bc_msg (ch_casts s ! k)) c (ch_hub s),
      ch_casts := (ch_casts s)[k := (ch_casts s ! k)\<lparr>bc_left := cs\<rparr>],
      ch_log := ch_log s @ (if ok c m then [(Some k, c)] else [])\<rparr>"
  have st: "channel_step s ?t" using Cons.prems by (intro deliver) auto
  have o: "\<forall>d \<in> set cs. ok d m \<longrightarrow> open_conn ?t d"
    using Cons.prems by (auto simp: open_conn_def hub_ops)
  obtain s' where s': "channel_step\<^sup>*\<^sup>* ?t s'" "ch_hub s' = fan_out ok m cs (ch_hub ?t)" "ch_phase s' = ch_phase ?t"
      "ch_casts s' = (ch_casts ?t)[k := \<lparr>bc_msg = m, bc_to = to, bc_left = []\<rparr>]"
    using Cons.IH[of ?t] Cons.prems o by auto
  have "fan_out ok m cs (ch_hub ?t) = fan_out ok m (c # cs) (ch_hub s)"
    using Cons.prems(2) by (auto simp: offer_def write_msg_def)
  then show ?case
    using s' converse_rtranclp_into_rtranclp[of channel_step, OF st s'(1)] by (intro exI[of _ s']) simp
qed

text \<open>
  The hub's broadcast, taken as one operation, is a schedule of the concurrent one: from every
  state a broadcast that nobody interrupts ends with the hub that \<open>broadcast\<close> computes.
\<close>
lemma broadcast_is_a_schedule:
  assumes "channel_reachable s" and "\<forall>c. ok c m \<longrightarrow> open_conn s c"
  shows "\<exists>s'. channel_step\<^sup>*\<^sup>* s s' \<and> ch_hub s' = broadcast ok m (ch_hub s) \<and> ch_phase s' = ch_phase s \<and>
     ch_casts s' = ch_casts s @ [\<lparr>bc_msg = m, bc_to = h_clients (ch_hub s), bc_left = []\<rparr>]"
proof -
  let ?b = "\<lparr>bc_msg = m, bc_to = h_clients (ch_hub s), bc_left = h_clients (ch_hub s)\<rparr>"
  let ?t = "s\<lparr>ch_casts := ch_casts s @ [?b]\<rparr>"
  have d: "distinct (h_clients (ch_hub s))" using reachable_conns[OF assms(1)] by (simp add: conns_inv_def)
  then have st: "channel_step s ?t" by (intro cast) auto
  obtain s' where "channel_step\<^sup>*\<^sup>* ?t s'" "ch_hub s' = fan_out ok m (h_clients (ch_hub s)) (ch_hub s)"
      "ch_phase s' = ch_phase s" "ch_casts s' = ch_casts s @ [?b\<lparr>bc_left := []\<rparr>]"
    using deliver_rest[of "length (ch_casts s)" ?t m "h_clients (ch_hub s)" "h_clients (ch_hub s)" ok] d assms(2)
    by (auto simp: open_conn_def)
  then show ?thesis
    using converse_rtranclp_into_rtranclp[of channel_step, OF st] by (intro exI[of _ s']) (simp add: broadcast_def)
qed

subsection \<open>Small runs\<close>

definition joined_one :: channels where
  "joined_one = no_channels\<lparr>ch_hub := register 1 new_hub, ch_phase := (\<lambda>_. Absent)(1 := Joined),
     ch_deadline := (\<lambda>_. 0)(1 := ws_pong_wait)\<rparr>"

definition reading_one :: channels where
  "reading_one = joined_one\<lparr>ch_phase := (\<lambda>_. Absent)(1 := Reading)\<rparr>"

definition news :: message where
  "news = \<lparr>m_type = ''task'', m_payload = JNull, m_severity = Info\<rparr>"

definition cast_one :: channels where
  "cast_one = joined_one\<lparr>ch_casts := [\<lparr>bc_msg = news, bc_to = [1], bc_left = [1]\<rparr>]\<rparr>"

definition sent_one :: channels where
  "sent_one = cast_one\<lparr>ch_hub := (ch_hub cast_one)\<lparr>h_sent := [(1, news)]\<rparr>,
     ch_casts := [\<lparr>bc_msg = news, bc_to = [1], bc_left = []\<rparr>], ch_log := [(Some 0, 1)]\<rparr>"

definition next_one :: channels where
  "next_one = sent_one\<lparr>ch_casts := ch_casts sent_one @ [\<lparr>bc_msg = subscribed, bc_to = [1], bc_left = [1]\<rparr>]\<rparr>"

lemmas small_runs = joined_one_def reading_one_def cast_one_def sent_one_def next_one_def no_channels_def new_hub_def
  hub_ops open_conn_def

lemma small_reachable:
  "channel_reachable joined_one" "channel_reachable reading_one" "channel_reachable sent_one" "channel_step sent_one next_one"
proof -
  have "channel_step no_channels joined_one"
    using accept[of no_channels 1] by (simp add: small_runs)
  then show j: "channel_reachable joined_one" by (rule channel_reachable.more[OF none])
  have "channel_step joined_one reading_one"
    using greet[of joined_one 1 False] by (simp add: small_runs)
  then show "channel_reachable reading_one" by (rule channel_reachable.more[OF j])
  have "channel_step joined_one cast_one"
    using cast[of "[1]" joined_one news] by (simp add: small_runs)
  moreover have "channel_step cast_one sent_one"
    using deliver[of 0 cast_one 1 "[]" True] by (simp add: small_runs)
  ultimately show "channel_reachable sent_one" using channel_reachable.more j by blast
  show "channel_step sent_one next_one"
    using cast[of "[1]" sent_one subscribed] by (simp add: small_runs)
qed

lemma slots_are_released_witness: "set (h_clients (ch_hub reading_one)) \<subseteq> {c. ch_phase reading_one c \<in> {Joined, Reading}}"
  using slots_are_released[OF small_reachable(2)] by simp

text \<open>The first message a client gets need not be the greeting.\<close>

lemma concurrent_broadcast_delivers_witness: "written sent_one 0 1 = 1 \<and> h_sent (ch_hub sent_one) = [(1, news)]"
  using concurrent_broadcast_delivers[OF small_reachable(3), of 0 1] by (simp add: small_runs entry_def)

lemma broadcasts_in_order_witness:
  "\<exists>ys. ch_log next_one = ch_log sent_one @ ys \<and> (\<forall>c. (Some 1, c) \<notin> set (ch_log sent_one)) \<and> (\<forall>c. (Some 0, c) \<notin> set ys)"
  using broadcasts_in_order[OF small_reachable(3) _ _ _ r_into_rtranclp[of channel_step, OF small_reachable(4)], of 0 1]
  by (simp add: sent_one_def)

lemma silent_client_is_lost_witness:
  "ch_phase (reading_one\<lparr>ch_now := ws_pong_wait, ch_hub := unregister 1 (ch_hub reading_one),
     ch_phase := (ch_phase reading_one)(1 := Gone)\<rparr>) 1 \<in> {Reading, Gone}"
proof -
  let ?s = "reading_one\<lparr>ch_now := ws_pong_wait\<rparr>"
  have "channel_step ?s (?s\<lparr>ch_hub := unregister 1 (ch_hub ?s), ch_phase := (ch_phase ?s)(1 := Gone)\<rparr>)"
    by (rule leave) (simp add: reading_one_def)
  from silent_client_is_lost[OF r_into_rtranclp, OF this, of 1] show ?thesis
    by (simp add: reading_one_def joined_one_def)
qed

lemma broadcast_is_a_schedule_witness:
  "\<exists>s'. channel_step\<^sup>*\<^sup>* reading_one s' \<and> ch_hub s' = broadcast (\<lambda>c m. c = 1) news (ch_hub reading_one)"
  using broadcast_is_a_schedule[OF small_reachable(2), of "\<lambda>c m. c = 1" news] by (auto simp: small_runs)

subsection \<open>The relay and its reconnects\<close>

















end
