(* ===== verification/ProxySpec.thy ===== *)
theory ProxySpec
  imports Api
begin

text \<open>
  What the mirror proxy keeps from a device with an API token: the operations of the upstream that are
  reserved for the administrator never reach it without a live web session, whatever the token. The
  list of these operations is compared with the path as it is, so a path with dots goes past it.
\<close>

subsection \<open>Devices and administrators\<close>

text \<open>The web sessions and the clock, on which a session's life depends, are left alone.\<close>

definition same_sessions :: "server \<Rightarrow> server \<Rightarrow> bool" where
  "same_sessions sv sv' \<longleftrightarrow> w_sched (sv_w sv') = [] \<and> db_sessions (db_of_server sv') = db_sessions (db_of_server sv) \<and>
     db_clock (db_of_server sv') = db_clock (db_of_server sv)"

lemma same_scall:
  assumes "w_sched (sv_w sv) = []" and "\<And>s. db_sessions (snd (f s)) = db_sessions s \<and> db_clock (snd (f s)) = db_clock s"
  shows "same_sessions sv (snd (scall (db_call f) sv))"
  using assms(1) db_call_preserves[where Q = "\<lambda>s. db_sessions s = db_sessions (db_of_server sv) \<and> db_clock s = db_clock (db_of_server sv)"
    and s = "db_of_server sv" and f = f] assms(2)
  by (auto simp: same_sessions_def scall_def call_def others_def split: prod.splits)

lemma same_touch:
  assumes "w_sched (sv_w sv) = []"
  shows "same_sessions sv (touch_throttled tid sv)"
proof -
  have "same_sessions sv' (srun (touch_token tid) sv')" if "w_sched (sv_w sv') = []" for sv'
    unfolding srun_def touch_token_def by (rule same_scall) (simp_all add: that)
  from this[of sv] this[of "sv\<lparr>sv_touch := t\<rparr>" for t] show ?thesis
    using assms by (auto simp: touch_throttled_def Let_def same_sessions_def split: option.split)
qed

lemma same_require_token:
  assumes "w_sched (sv_w sv) = []"
  shows "same_sessions sv (snd (require_token c r sv))"
proof -
  have v: "same_sessions sv (snd (scall (verify_token c x) sv))" for x
  proof (cases "trim_space x = ''''")
    case True
    then show ?thesis using assms by (auto simp: verify_token_def same_sessions_def scall_def call_def others_def)
  next
    case False
    then have "scall (verify_token c x) sv = scall (get_token_by_hash (cr_sha c x)) sv"
      by (simp add: scall_def call_def verify_token_def)
    then show ?thesis unfolding get_token_by_hash_def by (simp del: fst_conv) (rule same_scall, simp_all add: assms)
  qed
  have t: "same_sessions sv ((touch_throttled i sv1)\<lparr>sv_ctx := x\<rparr>)" if "same_sessions sv sv1" for sv1 i x
    using that same_touch[of sv1 i] by (simp add: same_sessions_def)
  show ?thesis
    unfolding require_token_def using v[of "drop 7 (header ''Authorization'' r)"] t assms
    by (auto simp: Let_def same_sessions_def[of sv sv] split: option.split prod.split sum.split)
qed

lemma not_admin:
  assumes "w_sched (sv_w sv) = []" and "\<not> live_session (header ''X-Web-Session'' r) (db_of_server sv)"
  obtains sv1 where "require_web r sv = (False, sv1)"
proof (cases "header ''X-Web-Session'' r = ''''")
  case False
  obtain res sv1 where "scall (get_web_session (header ''X-Web-Session'' r)) sv = (res, sv1)" by fastforce
  moreover from dead_session[OF assms False this] have "isl res" by simp
  ultimately show thesis using that False by (simp add: require_web_def)
qed (use that in \<open>simp add: require_web_def\<close>)

text \<open>
  C6. Devices do not reach the administrator's operations. A request for a path on the list, from
  anybody without a live web session, with a token or not, is answered with 401 or 403, and reply and
  server are the same whatever the upstream is: nothing has been sent to it.
\<close>
theorem sensitive_needs_admin:
  assumes "w_sched (sv_w sv) = []" and "\<not> live_session (header ''X-Web-Session'' r) (db_of_server sv)"
    and "upstream_path (q_path r) = Some path" and "proxy_is_sensitive path"
  shows "rp_status (fst (handle_opencode_proxy c up oc coll r sv)) \<in> {401, 403} \<and>
     handle_opencode_proxy c up oc coll r sv = handle_opencode_proxy c up' oc' coll' r sv"
proof -
  obtain t sv1 where t: "require_token c r sv = (t, sv1)" by fastforce
  then have s1: "w_sched (sv_w sv1) = []" "\<not> live_session (header ''X-Web-Session'' r) (db_of_server sv1)"
    using same_require_token[OF assms(1), of c r] assms(2) by (auto simp: same_sessions_def live_session_def)
  obtain sv2 where w: "require_web r sv1 = (False, sv2)" using not_admin[OF s1] .
  show ?thesis
  proof (cases t)
    case None
    then show ?thesis using t w by (simp add: handle_opencode_proxy_def guarded_def token_or_web_def)
  next
    case (Some x)
    then have "handle_opencode_proxy c u o' k r sv = (write_err 403 ''operation requires admin web session'', sv2)" for u o' k
      using t w assms(3,4) by (simp add: handle_opencode_proxy_def guarded_def token_or_web_def proxy_page_def)
    then show ?thesis by simp
  qed
qed

subsection \<open>A device at work\<close>

definition device_server :: server where
  "device_server = new_server '''' \<lparr>w_db = (empty_db 0)\<lparr>db_tokens := [mk_token ''phone'' ''phone'' ''abc'']\<rparr>,
     w_out = [], w_jobs = [], w_sched = []\<rparr>"

definition device_call :: "string \<Rightarrow> string \<Rightarrow> arrival" where
  "device_call raw path = \<lparr>av_path = raw, av_raw = None,
     av_req = \<lparr>q_method = ''DELETE'', q_path = path, q_query = [],
       q_headers = [(''Authorization'', ''Bearer abc'')], q_remote = '''', q_host = '''', q_body = Malformed\<rparr>\<rparr>"

text \<open>An upstream that answers nothing but the removal of a provider's key, by an odd path.\<close>

definition key_store :: upstream where
  "key_store q =
     (if u_method q = ''DELETE'' \<and> u_url q = ''http://h/x/../auth/openai''
      then Inr \<lparr>h_code = 200, h_status = ''200 OK'', h_raw = ''true'', h_json = Inl '''', h_headers = []\<rparr>
      else Inl ''refused'')"

lemma sensitive_needs_admin_witness:
  "\<forall>coll up oc. handle_opencode_proxy plain_crypto key_store (new_client ''http://h'') coll
       (av_req (device_call '''' ''/api/opencode/auth/openai'')) device_server =
     handle_opencode_proxy plain_crypto up oc coll (av_req (device_call '''' ''/api/opencode/auth/openai'')) device_server"
proof (intro allI)
  fix coll up oc
  let ?r = "av_req (device_call '''' ''/api/opencode/auth/openai'')"
  have "upstream_path (q_path ?r) = Some ''/auth/openai''" "proxy_is_sensitive ''/auth/openai''" by code_simp+
  moreover have "w_sched (sv_w device_server) = []" "\<not> live_session (header ''X-Web-Session'' ?r) (db_of_server device_server)"
    by (simp_all add: device_server_def new_server_def device_call_def header_def live_session_def)
  ultimately show "handle_opencode_proxy plain_crypto key_store (new_client ''http://h'') coll ?r device_server =
      handle_opencode_proxy plain_crypto up oc coll ?r device_server"
    using sensitive_needs_admin[of device_server ?r "''/auth/openai''" plain_crypto key_store "new_client ''http://h''" coll up oc coll]
    by simp
qed

lemma odd_route:
  "clean_path ''/api/opencode/x/%2e%2e/auth/openai''" "\<not> wants_slash ''/api/opencode/x/%2e%2e/auth/openai''"
  "best_route ''/api/opencode/x/%2e%2e/auth/openai'' = Some ''/api/opencode/''"
  "upstream_path ''/api/opencode/x/../auth/openai'' = Some ''/x/../auth/openai''"
  "\<not> proxy_is_sensitive ''/x/../auth/openai''" "trim_space ''abc'' \<noteq> ''''"
  by code_simp+

text \<open>
  C7. The list is compared with the path as it is. When the dots of \<open>/x/../auth/openai\<close> are
  percent-encoded the multiplexer lets the path through, and a device with nothing but an API token
  has the upstream called with \<open>/x/../auth/openai\<close> and the backend's own credentials: here it removes
  a provider's key.
\<close>
theorem sensitive_check_bypassed:
  "rp_status (fst (serve (ap\<lparr>ap_crypto := plain_crypto, ap_up := key_store, ap_oc := new_client ''http://h''\<rparr>)
     (device_call ''/api/opencode/x/%2e%2e/auth/openai'' ''/api/opencode/x/../auth/openai'') device_server)) = 200"
proof -
  let ?ap = "ap\<lparr>ap_crypto := plain_crypto, ap_up := key_store, ap_oc := new_client ''http://h''\<rparr>"
  let ?av = "device_call ''/api/opencode/x/%2e%2e/auth/openai'' ''/api/opencode/x/../auth/openai''"
  let ?r = "av_req ?av" and ?sv = "device_server\<lparr>sv_ctx := None\<rparr>"
  have h: "header ''Authorization'' ?r = ''Bearer abc''" "header ''X-Web-Session'' ?r = ''''" "q_method ?r = ''DELETE''"
    by (simp_all add: device_call_def header_def)
  have "scall (verify_token plain_crypto ''abc'') ?sv = (Inr (mk_token ''phone'' ''phone'' ''abc''), ?sv)"
    using odd_route(6) by (simp add: device_server_def new_server_def scall_def call_def others_def verify_token_def
        get_token_by_hash_def plain_crypto_def mk_token_def empty_db_def)
  then obtain sv1 where t: "require_token plain_crypto ?r ?sv = (Some (mk_token ''phone'' ''phone'' ''abc''), sv1)"
    using h(1) odd_route(6) by (simp add: require_token_def Let_def has_prefix_def device_server_def new_server_def)
  have w: "require_web ?r sv1 = (False, sv1)" using h(2) by (simp add: require_web_def)
  have up: "key_store (do_request (new_client ''http://h'') ''DELETE'' ''/x/../auth/openai'' q b hs) =
      Inr \<lparr>h_code = 200, h_status = ''200 OK'', h_raw = ''true'', h_json = Inl '''', h_headers = []\<rparr>" for q b hs
    by (simp add: key_store_def do_request_def new_client_def apply_auth_def) code_simp
  have f: "rp_status (forward key_store (new_client ''http://h'') ''/x/../auth/openai'' ?r) = 200"
    using h(3) by (simp add: forward_def do_call_def up relay_reply_def)
  have p: "upstream_path (q_path ?r) = Some ''/x/../auth/openai''" using odd_route(4) by (simp add: device_call_def)
  have "rp_status (fst (handle_opencode_proxy plain_crypto key_store (new_client ''http://h'') (ap_coll ap) ?r ?sv)) = 200"
    using t w p h(3) odd_route(5) f by (simp add: handle_opencode_proxy_def guarded_def token_or_web_def proxy_page_def)
  moreover have "mux ?ap ?av ?sv = handle_opencode_proxy plain_crypto key_store (new_client ''http://h'') (ap_coll ap) ?r ?sv"
  proof -
    have "av_path ?av = ''/api/opencode/x/%2e%2e/auth/openai''" by (simp add: device_call_def)
    moreover have "endpoint ?ap ?av ''/api/opencode/'' =
        handle_opencode_proxy plain_crypto key_store (new_client ''http://h'') (ap_coll ap)"
      by (simp add: endpoint_def device_handlers_def admin_handlers_def Let_def)
    ultimately show ?thesis unfolding mux_def by (simp add: odd_route)
  qed
  moreover have "rp_status (fst (log_middleware c q (mux a v) s)) = rp_status (fst (mux a v (s\<lparr>sv_ctx := None\<rparr>)))" for c q a v s
    by (auto simp: log_middleware_def split: prod.split option.split)
  ultimately show ?thesis by (simp add: serve_def)
qed

end
