(* ===== verification/Races.thy ===== *)
theory Races
  imports TaskApi ExecutorSpec
begin

text \<open>
  Where a handler's statements and the executor's interleave. \<open>createTask\<close> reads the status of the
  upstream and inserts the new task in two statements; the executor completes the upstream and
  releases its dependents in two statements of its own. When those two come between the handler's,
  the new task is inserted as waiting for an upstream that has already released everybody.
\<close>

text \<open>A task waits for an upstream that has succeeded.\<close>

definition stranded :: "string \<Rightarrow> string \<Rightarrow> task list \<Rightarrow> bool" where
  "stranded tid up ts \<longleftrightarrow>
     (\<exists>t \<in> set ts. t_id t = tid \<and> t_depends t = up \<and> t_status t = TaskPending) \<and>
     (\<exists>u \<in> set ts. t_id u = up \<and> t_status u = TaskSucceeded)"

lemma released_quiet:
  assumes "db_faults s = []"
  shows "run_ops [OpComplete up res, OpPromote up] s = s\<lparr>db_tasks :=
     update_where (\<lambda>t. t_depends t = up \<and> t_status t \<in> {TaskPending, TaskBlocked}) (set_promoted (db_clock s))
       (update_where (\<lambda>t. t_id t = up) (set_complete (db_clock s) res) (db_tasks s))\<rparr>"
  using assms by (simp add: complete_task_def promote_pending_dependents_def exec_ok_def exec_tasks_def Let_def)

lemma in_update: "r \<in> set rs \<Longrightarrow> (if P r then f r else r) \<in> set (update_where P f rs)"
  unfolding update_where_def set_map by (rule imageI)

lemma released_rows:
  assumes "lookup_by t_id up ts = Some u"
  shows "\<exists>v \<in> set (update_where (\<lambda>t. t_depends t = up \<and> t_status t \<in> {TaskPending, TaskBlocked}) (set_promoted at)
       (update_where (\<lambda>t. t_id t = up) (set_complete at res) ts)). t_id v = up \<and> t_status v = TaskSucceeded"
proof -
  have u: "u \<in> set ts" "t_id u = up" using assms by (auto simp: lookup_by_def find_Some_iff in_set_conv_nth)
  then have "set_complete at res u \<in> set (update_where (\<lambda>t. t_id t = up) (set_complete at res) ts)"
    using in_update[of u ts "\<lambda>t. t_id t = up" "set_complete at res"] by simp
  from in_update[OF this, of "\<lambda>t. t_depends t = up \<and> t_status t \<in> {TaskPending, TaskBlocked}" "set_promoted at"]
  show ?thesis using u(2) by (intro bexI[of _ "set_complete at res u"]) (simp_all add: set_complete_def)
qed

lemma released_ids: "t_id ` set (update_where P (set_promoted at) (update_where Q (set_complete at res) ts)) = t_id ` set ts"
proof -
  have ids: "map t_id (update_where P f rs) = map t_id rs" if "\<And>t. t_id (f t) = t_id t" for P f rs
    using that by (induction rs) (simp_all add: update_where_def)
  have "map t_id (update_where P (set_promoted at) (update_where Q (set_complete at res) ts)) = map t_id ts"
    by (simp add: ids set_promoted_def set_complete_def)
  then show ?thesis by (metis list.set_map)
qed

text \<open>
  C11. A dependency can be missed. When the upstream finishes after the handler has looked at it and
  before the new task is in the table, the client gets 201 and a task that waits for an upstream
  which has already succeeded and released its dependents.
\<close>
theorem dependency_can_be_missed:
  assumes "w_sched (sv_w sv) = [[], [OpComplete up res, OpPromote up]]" and "db_faults (db_of_server sv) = []"
    and "read_body task_req_of r = Inr q" and "tq_prompt q \<noteq> ''''" and "tq_cron q = ''''" and "tq_scheduled q = ''''"
    and "tq_depends q = up" and "up \<noteq> ''''"
    and "lookup_by t_id up (db_tasks (db_of_server sv)) = Some u" and "t_status u = TaskRunning"
    and "fst (fresh_id ''task_'' sv) \<notin> t_id ` set (db_tasks (db_of_server sv))"
  shows "rp_status (fst (create_task_page off r sv)) = 201 \<and>
     stranded (fst (fresh_id ''task_'' sv)) up (db_tasks (db_of_server (snd (create_task_page off r sv))))"
proof -
  obtain tid sv1 where f: "fresh_id ''task_'' sv = (tid, sv1)" by fastforce
  then have w1: "sv_w sv1 = sv_w sv" by (auto simp: fresh_id_def read_rand_def split: list.splits)
  let ?s = "db_of_server sv" and ?w = "sv_w sv" and ?t = "task_of_req q tid None"
  let ?sv2 = "sv1\<lparr>sv_w := ?w\<lparr>w_sched := [[OpComplete up res, OpPromote up]]\<rparr>\<rparr>"
  have g: "scall (get_task up) sv1 = (Inr u, ?sv2)"
    using assms(1,2,9) by (simp add: scall_def call_def others_def get_task_def w1)
  have st: "initial_status q None sv1 = (Inr TaskPending, ?sv2)"
    using assms(5,7,8,10) g by (simp add: initial_status_def upstream_status_def)
  define ts where "ts = update_where (\<lambda>t. t_depends t = up \<and> t_status t \<in> {TaskPending, TaskBlocked}) (set_promoted (db_clock ?s))
       (update_where (\<lambda>t. t_id t = up) (set_complete (db_clock ?s) res) (db_tasks ?s))"
  have new: "tid \<notin> t_id ` set ts" using assms(11) f released_ids by (simp add: ts_def)
  let ?ts' = "ts @ [new_task_row (db_clock ?s) ?t TaskPending]"
  let ?sv3 = "sv1\<lparr>sv_w := ?w\<lparr>w_db := ?s\<lparr>db_tasks := ?ts'\<rparr>, w_sched := []\<rparr>\<rparr>"
  have rel: "run_ops [OpComplete up res, OpPromote up] ?s = ?s\<lparr>db_tasks := ts\<rparr>"
    unfolding ts_def by (rule released_quiet[OF assms(2)])
  have "t_id ?t = tid" by (simp add: task_of_req_def)
  then have "create_task_with_status ?t TaskPending (?s\<lparr>db_tasks := ts\<rparr>) = (Inr (), ?s\<lparr>db_tasks := ?ts'\<rparr>)"
    using assms(2) new by (simp add: create_task_with_status_def)
  then have c: "scall (create_task_with_status ?t TaskPending) ?sv2 = (Inr (), ?sv3)"
    using rel by (simp add: scall_def call_def others_def del: run_ops.simps)
  have "lookup_by t_id tid ?ts' = Some (new_task_row (db_clock ?s) ?t TaskPending)"
    using new by (induction ts) (auto simp: lookup_by_def new_task_row_def task_of_req_def)
  then have g2: "scall (get_task tid) ?sv3 = (Inr (new_task_row (db_clock ?s) ?t TaskPending), ?sv3)"
    using assms(2) by (simp add: scall_def call_def others_def get_task_def)
  have "t_id ?t = tid" by (simp add: task_of_req_def)
  then have n: "store_new_task ?t TaskPending ?sv2 = (reply 201 (PTask (new_task_row (db_clock ?s) ?t TaskPending)), ?sv3)"
    using c g2 by (simp add: store_new_task_def)
  have "create_task_page off r sv = store_new_task ?t TaskPending ?sv2"
    using assms(3-6) f st by (simp add: create_task_page_def scheduled_at_def)
  then have "create_task_page off r sv = (reply 201 (PTask (new_task_row (db_clock ?s) ?t TaskPending)), ?sv3)"
    using n by simp
  moreover have "stranded tid up ?ts'"
    using released_rows[OF assms(9), of "db_clock ?s" res] assms(7)
    by (auto simp: stranded_def ts_def new_task_row_def task_of_req_def)
  ultimately show ?thesis using f by (simp add: reply_def)
qed

subsection \<open>For ever\<close>

text \<open>Neither the workers nor a restart pick a stranded task up: it is not queued, and its upstream is done.\<close>

lemma stranded_update:
  assumes "stranded tid up ts" and "\<forall>t \<in> set ts. P t \<longrightarrow> t_status t \<in> {TaskQueued, TaskRunning}"
  shows "stranded tid up (update_where P f ts)"
proof -
  have keep: "t \<in> set ts \<Longrightarrow> t_status t \<in> {TaskPending, TaskSucceeded} \<Longrightarrow> t \<in> set (update_where P f ts)" for t
    using in_update[of t ts P f] assms(2) by (cases "P t") auto
  show ?thesis using assms(1) keep by (auto simp: stranded_def)
qed

lemma claim_body:
  assumes "stranded tid up (db_tasks s)" and "distinct (map t_id (db_tasks s))"
    and "(case claim_candidates (db_clock s) (db_tasks s) of
       [] \<Rightarrow> (Inl ErrNotFound, s)
     | t # _ \<Rightarrow>
         (let s' = snd (exec_tasks (\<lambda>r. t_id r = t_id t) (set_claim (db_clock s)) s)
          in (case lookup_by t_id (t_id t) (db_tasks s') of None \<Rightarrow> Inl ErrNotFound | Some r \<Rightarrow> Inr r, s'))) = (res, s')"
  shows "stranded tid up (db_tasks s') \<and> (\<forall>t. res = Inr t \<longrightarrow> t_id t \<noteq> tid)"
proof (cases "claim_candidates (db_clock s) (db_tasks s)")
  case Nil
  then show ?thesis using assms(1,3) by auto
next
  case (Cons c cs)
  then have "c \<in> set (claim_candidates (db_clock s) (db_tasks s))" by simp
  then have c: "c \<in> set (db_tasks s)" "t_status c = TaskQueued"
    by (auto simp: claim_candidates_def order_asc_def claimable_def)
  then have only: "\<forall>t \<in> set (db_tasks s). t_id t = t_id c \<longrightarrow> t = c"
    using assms(2) by (auto simp: distinct_map inj_on_def)
  then have "\<forall>t \<in> set (db_tasks s). t_id t = t_id c \<longrightarrow> t_status t \<in> {TaskQueued, TaskRunning}" using c(2) by auto
  then have "stranded tid up (db_tasks s')"
    using stranded_update[OF assms(1)] assms(3) Cons by (auto simp: exec_tasks_def Let_def)
  moreover have "t_id c \<noteq> tid" using assms(1) only c(2) by (auto simp: stranded_def)
  then have "\<forall>t. res = Inr t \<longrightarrow> t_id t \<noteq> tid"
    using assms(3) Cons by (auto simp: lookup_by_def find_Some_iff Let_def split: option.splits)
  ultimately show ?thesis by simp
qed

lemma stranded_claim:
  assumes "stranded tid up (db_tasks s)" and "distinct (map t_id (db_tasks s))" and "claim_next_task s = (res, s')"
  shows "stranded tid up (db_tasks s') \<and> (\<forall>t. res = Inr t \<longrightarrow> t_id t \<noteq> tid)"
proof (cases "db_faults s")
  case Nil
  then show ?thesis using claim_body[OF assms(1,2)] assms(3) by (simp add: claim_next_task_def db_call_def)
next
  case (Cons b fs)
  show ?thesis
  proof (cases b)
    case True
    then show ?thesis using assms Cons by (auto simp: claim_next_task_def db_call_def)
  next
    case False
    then show ?thesis
      using claim_body[of tid up "s\<lparr>db_faults := fs\<rparr>" res s'] assms Cons by (simp add: claim_next_task_def db_call_def)
  qed
qed

lemma stranded_recover:
  assumes "stranded tid up (db_tasks s)" and "recover_stale_running s = (res, s')"
  shows "stranded tid up (db_tasks s')"
  using assms stranded_update[OF assms(1), of "\<lambda>t. t_status t = TaskRunning"]
  by (auto simp: recover_stale_running_def db_call_def exec_tasks_def split: list.splits if_splits)

subsection \<open>A run of it\<close>

definition racing_server :: server where
  "racing_server = new_server '''' \<lparr>w_db = (empty_db 0)\<lparr>db_tasks := [(new_task_row 0 (task_of_req
       \<lparr>tq_name = '''', tq_prompt = ''a'', tq_session = '''', tq_dir = '''', tq_depends = '''', tq_scheduled = '''', tq_cron = ''''\<rparr>
       ''t0'' None) TaskQueued)\<lparr>t_status := TaskRunning\<rparr>]\<rparr>,
     w_out = [], w_jobs = [], w_sched = [[], [OpComplete ''t0'' ''done'', OpPromote ''t0'']]\<rparr>"

definition racing_call :: request where
  "racing_call = \<lparr>q_method = ''POST'', q_path = ''/api/tasks'', q_query = [], q_headers = [], q_remote = '''', q_host = '''',
     q_body = Doc (JObj [(''prompt'', JStr ''b''), (''dependsOn'', JStr ''t0'')])\<rparr>"

lemma racing_read: "read_body task_req_of racing_call = Inr \<lparr>tq_name = '''', tq_prompt = ''b'', tq_session = '''', tq_dir = '''',
    tq_depends = ''t0'', tq_scheduled = '''', tq_cron = ''''\<rparr>"
  by code_simp

lemma dependency_can_be_missed_witness:
  "stranded (fst (fresh_id ''task_'' racing_server)) ''t0'' (db_tasks (db_of_server (snd (create_task_page 0 racing_call racing_server))))"
proof -
  have "fst (fresh_id ''task_'' racing_server) \<notin> {''t0''}" by code_simp
  then show ?thesis
    using dependency_can_be_missed[of racing_server "''t0''" "''done''", OF _ _ racing_read]
    by (simp add: racing_server_def new_server_def empty_db_def new_task_row_def task_of_req_def lookup_by_def)
qed

end
