(* ===== verification/Calendar.thy ===== *)
theory Calendar
  imports GoTime
begin

text \<open>
  The calendar behind \<open>Cron\<close> and \<open>GoTime\<close> is sound: every day has one date, which exists and leads
  back to the day. With it, the text a time has in JSON reads back as the same instant.
\<close>

subsection \<open>Days and dates\<close>

text \<open>The year of a day of an era of 400 years, over centuries, groups of four years and years.\<close>

lemma year_of_era:
  fixes doe :: int
  assumes "0 \<le> doe" and "doe < 146096"
    and c: "c = doe div 36524" and r: "r = doe mod 36524" and q: "q = r div 1461" and s: "s = r mod 1461"
  shows "(doe - doe div 1460 + c - doe div 146096) div 365 = 100 * c + 4 * q + (s - (if s = 1460 then 1 else 0)) div 365"
proof -
  have b: "0 \<le> c" "c \<le> 3" "0 \<le> s" "s \<le> 1460" "0 \<le> q" "q \<le> 24"
    using assms by auto
  have doe: "doe = 36524 * c + 1461 * q + s" using assms by simp
  define e :: int where "e = (if 1460 \<le> 24 * c + q + s then 1 else 0)"
  have d1: "doe div 1460 = 25 * c + q + e"
  proof -
    have "doe = 1460 * (25 * c + q + e) + (24 * c + q + s - 1460 * e)" using doe by simp
    moreover have "0 \<le> 24 * c + q + s - 1460 * e" "24 * c + q + s - 1460 * e < 1460"
      using b by (auto simp: e_def)
    ultimately show ?thesis by (simp add: div_pos_pos_trivial)
  qed
  have d2: "doe div 146096 = 0" using assms by simp
  have "doe - doe div 1460 + c - doe div 146096 = 365 * (100 * c + 4 * q) + (s - e)"
    unfolding d1 d2 using doe by simp
  then have "(doe - doe div 1460 + c - doe div 146096) div 365 = 100 * c + 4 * q + (s - e) div 365"
    by simp
  moreover have "(s - e) div 365 = (s - (if s = 1460 then 1 else 0)) div 365"
  proof (cases "s = 1460 \<or> s < 1460 - (24 * c + q)")
    case True
    then show ?thesis using b by (auto simp: e_def)
  next
    case False
    then have "1364 \<le> s" "s \<le> 1459" "e = 1" using b by (auto simp: e_def)
    then have "(s - 1) div 365 = 3" "s div 365 = 3" by linarith+
    then show ?thesis using \<open>e = 1\<close> False by simp
  qed
  ultimately show ?thesis by simp
qed

definition year_of_doe :: "int \<Rightarrow> int" where
  "year_of_doe doe = (doe - doe div 1460 + doe div 36524 - doe div 146096) div 365"

definition day_of_doe :: "int \<Rightarrow> int" where
  "day_of_doe doe = doe - (365 * year_of_doe doe + year_of_doe doe div 4 - year_of_doe doe div 100)"

lemma doe_parts:
  fixes doe :: int
  assumes "0 \<le> doe" and "doe < 146097"
  shows "0 \<le> year_of_doe doe \<and> year_of_doe doe \<le> 399 \<and> 0 \<le> day_of_doe doe \<and> day_of_doe doe \<le> 365 \<and>
    (day_of_doe doe = 365 \<longrightarrow> leap_year (year_of_doe doe + 1))"
proof (cases "doe = 146096")
  case True
  then show ?thesis by (simp add: year_of_doe_def day_of_doe_def leap_year_def)
next
  case False
  define c r where "c = doe div 36524" and "r = doe mod 36524"
  define q s where "q = r div 1461" and "s = r mod 1461"
  define u where "u = (s - (if s = 1460 then 1 else 0)) div 365"
  have doe: "doe = 36524 * c + 1461 * q + s" by (simp add: c_def r_def q_def s_def)
  have b: "0 \<le> c" "c \<le> 3" "0 \<le> s" "s \<le> 1460" "0 \<le> q" "q \<le> 24"
    using assms False by (auto simp: c_def r_def q_def s_def)
  have q23: "s = 1460 \<Longrightarrow> q \<le> 23"
  proof -
    assume "s = 1460"
    moreover have "1461 * q + s = r" by (simp add: q_def s_def)
    moreover have "r < 36524" by (simp add: r_def)
    ultimately show "q \<le> 23" by linarith
  qed
  have u: "0 \<le> u" "u \<le> 3" "0 \<le> s - 365 * u" "s - 365 * u \<le> 365" "s - 365 * u = 365 \<longleftrightarrow> s = 1460"
    using b by (auto simp: u_def)
  have y: "year_of_doe doe = 100 * c + 4 * q + u"
    using year_of_era[OF assms(1) _ c_def r_def q_def s_def] assms(2) False
    by (simp add: year_of_doe_def u_def c_def)
  have y4: "year_of_doe doe div 4 = 25 * c + q" using y u by simp
  have y100: "year_of_doe doe div 100 = c" using y u b by simp
  have d: "day_of_doe doe = s - 365 * u"
    unfolding day_of_doe_def y4 y100 unfolding y using doe by simp
  have "leap_year (year_of_doe doe + 1)" if "s = 1460"
  proof -
    have "u = 3" using that by (simp add: u_def)
    then have eq: "year_of_doe doe + 1 = 100 * c + 4 * (q + 1)" using y by simp
    have "(100 * c + 4 * (q + 1)) mod 100 = 4 * (q + 1)" using b q23[OF that] by simp
    moreover have "(100 * c + 4 * (q + 1)) mod 4 = 0" by presburger
    ultimately show ?thesis using b unfolding leap_year_def eq by simp
  qed
  then show ?thesis unfolding d using y u b by simp
qed

definition month_of_day :: "int \<Rightarrow> int" where
  "month_of_day doy = (5 * doy + 2) div 153"

lemma months: "{0..11 :: int} = {0, 1, 2, 3, 4, 5, 6, 7, 8, 9, 10, 11}"
  by (simp add: simp_from_to)

lemma month_parts:
  assumes "0 \<le> doy" and "doy \<le> 365"
  defines "mp \<equiv> month_of_day doy"
  defines "d \<equiv> doy - (153 * mp + 2) div 5 + 1"
  shows "0 \<le> mp" and "mp \<le> 11" and "1 \<le> d"
    and "mp \<noteq> 11 \<Longrightarrow> d \<le> (if mp \<in> {1, 3, 6, 8} then 30 else 31)"
    and "mp = 11 \<Longrightarrow> d = doy - 336"
proof -
  have a: "153 * mp \<le> 5 * doy + 2" "5 * doy + 2 < 153 * mp + 153" unfolding mp_def month_of_day_def by linarith+
  show mp: "0 \<le> mp" "mp \<le> 11" using a assms(1,2) by linarith+
  show "1 \<le> d" using a(1) unfolding d_def by linarith
  consider "mp = 0" | "mp = 1" | "mp = 2" | "mp = 3" | "mp = 4" | "mp = 5" | "mp = 6" | "mp = 7" | "mp = 8"
    | "mp = 9" | "mp = 10" | "mp = 11" using mp by (metis atLeastAtMost_iff insertE months empty_iff)
  then show "mp \<noteq> 11 \<Longrightarrow> d \<le> (if mp \<in> {1, 3, 6, 8} then 30 else 31)"
    by cases (use a in \<open>simp_all add: d_def\<close>)
  show "mp = 11 \<Longrightarrow> d = doy - 336" by (simp add: d_def)
qed

definition month_of :: "int \<Rightarrow> int" where
  "month_of mp = (if mp < 10 then mp + 3 else mp - 9)"

definition day_in_month :: "int \<Rightarrow> int \<Rightarrow> int" where
  "day_in_month doy mp = doy - (153 * mp + 2) div 5 + 1"

lemma civil_of_days_parts:
  "civil_of_days z =
     (let doe = (z + 719468) mod 146097; mp = month_of_day (day_of_doe doe)
      in (year_of_doe doe + (z + 719468) div 146097 * 400 + (if month_of mp \<le> 2 then 1 else 0),
          month_of mp, day_in_month (day_of_doe doe) mp))"
  unfolding civil_of_days_def Let_def year_of_doe_def day_of_doe_def month_of_day_def month_of_def
    day_in_month_def by (rule refl)

lemma leap_era: "leap_year (w + e * 400 + 1) \<longleftrightarrow> leap_year (w + 1)"
proof -
  have e: "w + e * 400 + 1 = w + 1 + 100 * (4 * e)" "w + e * 400 + 1 = w + 1 + 4 * (100 * e)"
    "w + e * 400 + 1 = w + 1 + 400 * e" by simp_all
  have "(w + e * 400 + 1) mod 100 = (w + 1) mod 100" unfolding e(1) by (rule mod_mult_self2)
  moreover have "(w + e * 400 + 1) mod 4 = (w + 1) mod 4" unfolding e(2) by (rule mod_mult_self2)
  moreover have "(w + e * 400 + 1) mod 400 = (w + 1) mod 400" unfolding e(3) by (rule mod_mult_self2)
  ultimately show ?thesis by (simp only: leap_year_def)
qed

text \<open>Every day has one date, the date exists, and it leads back to the day.\<close>

lemma date_of_day:
  assumes "civil_of_days z = (y, m, d)"
  shows "days_of_civil y m d = z" and "1 \<le> m" and "m \<le> 12" and "1 \<le> d" and "d \<le> days_in y m"
proof -
  define e doe where "e = (z + 719468) div 146097" and "doe = (z + 719468) mod 146097"
  define w doy where "w = year_of_doe doe" and "doy = day_of_doe doe"
  define mp where "mp = month_of_day doy"
  have p: "0 \<le> w" "w \<le> 399" "0 \<le> doy" "doy \<le> 365" "doy = 365 \<Longrightarrow> leap_year (w + 1)"
    using doe_parts[of doe] by (simp_all add: w_def doy_def doe_def)
  have date: "m = month_of mp" "d = day_in_month doy mp" "y = w + e * 400 + (if m \<le> 2 then 1 else 0)"
    using assms unfolding civil_of_days_parts Let_def e_def doe_def w_def doy_def mp_def by auto
  note mp = month_parts[OF p(3,4), folded mp_def, folded day_in_month_def, folded date(2)]
  show "1 \<le> m" "m \<le> 12" "1 \<le> d" using mp(1,2,3) unfolding date(1) month_of_def by auto
  have inv: "(if m \<le> 2 then y - 1 else y) = w + e * 400" "(if 2 < m then m - 3 else m + 9) = mp"
    using mp(1,2) unfolding date(3) unfolding date(1) month_of_def by auto
  have "(w + e * 400) div 400 = e" "(w + e * 400) mod 400 = w" using p(1,2) by simp_all
  moreover have "w * 365 + w div 4 - w div 100 + doy = doe" by (simp add: doy_def day_of_doe_def w_def)
  ultimately have "days_of_civil y m d = e * 146097 + doe - 719468"
    unfolding days_of_civil_def Let_def inv date(2) day_in_month_def by simp
  then show "days_of_civil y m d = z" unfolding e_def doe_def by simp
  show "d \<le> days_in y m"
  proof (cases "mp = 11")
    case True
    then have "d = doy - 336" "m = 2" "y = w + e * 400 + 1" using mp(5) date(3) by (auto simp: date(1) month_of_def)
    moreover have "leap_year (w + e * 400 + 1) \<longleftrightarrow> leap_year (w + 1)"
      by (rule leap_era)
    ultimately show ?thesis using p(4,5) by (cases "doy = 365") (auto simp: days_in_def)
  next
    case False
    then show ?thesis using mp(1,2,4) by (auto simp: date(1) month_of_def days_in_def split: if_splits)
  qed
qed

subsection \<open>Times as text\<close>

lemma digit_val_char: "0 \<le> n \<Longrightarrow> n < 10 \<Longrightarrow> digit_val (digit_char n) = Some n"
  by (simp add: digit_val_def digit_char_def Let_def of_char_of)

lemma fixed_digits_length [simp]: "length (fixed_digits n v) = n"
  by (induction n arbitrary: v) simp_all

lemma digits_val_append:
  "digits_val acc (xs @ ys) = Option.bind (digits_val acc xs) (\<lambda>v. digits_val v ys)"
  by (induction xs arbitrary: acc) (simp_all split: option.splits)

lemma digits_val_fixed: "0 \<le> v \<Longrightarrow> v < 10 ^ n \<Longrightarrow> digits_val acc (fixed_digits n v) = Some (acc * 10 ^ n + v)"
proof (induction n arbitrary: v acc)
  case (Suc n)
  have "v div 10 < 10 ^ n" using Suc.prems by simp
  then have "digits_val acc (fixed_digits n (v div 10)) = Some (acc * 10 ^ n + v div 10)"
    using Suc.prems by (intro Suc.IH) simp_all
  moreover have "10 * (acc * 10 ^ n + v div 10) + v mod 10 = acc * 10 ^ Suc n + v" by simp
  ultimately show ?case by (simp add: digits_val_append digit_val_char)
qed simp

lemma fixed_num_digits: "0 \<le> v \<Longrightarrow> v < 10 ^ n \<Longrightarrow> fixed_num n (fixed_digits n v @ r) = Some (v, r)"
  by (simp add: fixed_num_def digits_val_fixed)

lemma all_digits: "0 \<le> v \<Longrightarrow> c \<in> set (fixed_digits n v) \<Longrightarrow> digit_val c \<noteq> None"
proof (induction n arbitrary: v)
  case (Suc n)
  then have "0 \<le> v div 10" by simp
  with Suc show ?case by (auto simp: digit_val_char)
qed simp

lemma expect_Cons [simp]: "expect c (c # r) = Some r"
  by (simp add: expect_def)

lemma leading: "\<exists>k. ds = replicate k z @ dropWhile (\<lambda>c. c = z) ds"
proof (induction ds)
  case (Cons x xs)
  show ?case
  proof (cases "x = z")
    case True
    from Cons obtain k where "xs = replicate k z @ dropWhile (\<lambda>c. c = z) xs" by blast
    then have "x # xs = replicate (Suc k) z @ dropWhile (\<lambda>c. c = z) (x # xs)" using True by simp
    then show ?thesis by blast
  qed (auto intro: exI[of _ 0])
qed simp

lemma trim_zeros: "\<exists>k. ds = rev (dropWhile (\<lambda>c. c = z) (rev ds)) @ replicate k z"
  using leading[of "rev ds" z] by (metis rev_append rev_replicate rev_swap)

definition after_fraction :: "string \<Rightarrow> bool" where
  "after_fraction r \<longleftrightarrow> r \<noteq> [] \<and> hd r \<notin> {CHR ''.'', CHR '',''} \<and> digit_val (hd r) = None"

lemma fraction_back:
  assumes "0 \<le> ns" and "ns < second" and "after_fraction r"
  shows "fraction_nanos (fraction_text ns @ r) = (ns, r)"
proof -
  define ds where "ds = rev (dropWhile (\<lambda>c. c = CHR ''0'') (rev (fixed_digits 9 ns)))"
  obtain k where k: "fixed_digits 9 ns = ds @ replicate k (CHR ''0'')"
    using trim_zeros unfolding ds_def by metis
  have val: "digits_val 0 (ds @ replicate k (CHR ''0'')) = Some ns"
    using digits_val_fixed[of ns 9 0] assms(1,2) unfolding k[symmetric] by simp
  have len: "length ds + k = 9" using arg_cong[OF k, of length] by simp
  have digits: "\<forall>c \<in> set ds. digit_val c \<noteq> None"
    using all_digits[OF assms(1)] k by (metis UnI1 set_append)
  obtain c t where r: "r = c # t" and c: "c \<noteq> CHR ''.''" "c \<noteq> CHR '',''" "digit_val c = None"
    using assms(3) by (cases r) (auto simp: after_fraction_def)
  show ?thesis
  proof (cases "ds = []")
    case True
    then have "digits_val 0 (replicate 9 (CHR ''0'')) = Some ns" using val len by simp
    moreover have "digits_val 0 (replicate 9 (CHR ''0'')) = Some 0" by code_simp
    ultimately have "ns = 0" by simp
    moreover have "fraction_text ns = []" using True by (simp add: fraction_text_def ds_def[symmetric] Let_def)
    ultimately show ?thesis using r c by (auto simp: fraction_nanos_def split: list.splits)
  next
    case False
    then obtain d u where d: "ds = d # u" by (cases ds) auto
    have dotted: "fraction_text ns = CHR ''.'' # ds"
      using False by (simp add: fraction_text_def ds_def[symmetric] Let_def)
    have tw: "takeWhile (\<lambda>x. digit_val x \<noteq> None) (u @ r) = u"
      using digits c r d by (simp add: takeWhile_append)
    have nine: "take 9 ds = ds" "9 - length ds = k" using len by simp_all
    have "fraction_nanos (CHR ''.'' # ds @ r) =
        (the (digits_val 0 (take 9 ds @ replicate (9 - length (take 9 ds)) (CHR ''0''))), drop (length ds) (ds @ r))"
      using digits unfolding d by (simp add: fraction_nanos_def Let_def tw del: not_None_eq split: option.split)
    then show ?thesis unfolding dotted by (simp add: nine val)
  qed
qed

lemma zone_back:
  assumes "off mod 60 = 0" and "\<bar>off\<bar> < 86400"
  shows "zone_offset (zone_text off) = Some (off, [])" and "after_fraction (zone_text off)"
proof -
  define z where "z = \<bar>off\<bar> div 60"
  have off: "\<bar>off\<bar> = z * 60" using assms(1) by (auto simp: z_def abs_if)
  have z: "0 \<le> z div 60" "z div 60 < 10 ^ 2" "0 \<le> z mod 60" "z mod 60 < 10 ^ 2" "z div 60 < 24" "z mod 60 < 60"
    using assms(2) off by auto
  have parts: "(z div 60 * 60 + z mod 60) * 60 = \<bar>off\<bar>" using off by simp
  show "zone_offset (zone_text off) = Some (off, [])"
  proof (cases "off = 0")
    case False
    then have sg: "off \<le> - 60 \<longleftrightarrow> off < 0" using assms(1) by presburger
    have last: "fixed_num 2 (fixed_digits 2 (z mod 60)) = Some (z mod 60, [])"
      using fixed_num_digits[OF z(3,4), of "[]"] by simp
    show ?thesis
      using False z parts
      by (simp add: zone_text_def zone_offset_def Let_def z_def[symmetric] fixed_num_digits last sg)
  qed (simp add: zone_text_def zone_offset_def)
  have "digit_val (CHR ''Z'') = None" "digit_val (CHR ''-'') = None" "digit_val (CHR ''+'') = None" by code_simp+
  then show "after_fraction (zone_text off)"
    by (simp add: zone_text_def after_fraction_def Let_def)
qed

lemma loose_num_digits: "0 \<le> v \<Longrightarrow> v < 100 \<Longrightarrow> loose_num (fixed_digits 2 v @ r) = Some (v, r)"
  by (simp add: loose_num_def fixed_num_digits)

lemma date_back:
  assumes "0 \<le> y" and "y \<le> 9999" and "1 \<le> m" and "m \<le> 12" and "1 \<le> d" and "d \<le> days_in y m"
  shows "parse_date (fixed_digits 4 y @ CHR ''-'' # fixed_digits 2 m @ CHR ''-'' # fixed_digits 2 d @ r) = Some ((y, m, d), r)"
proof -
  have "d < 10 ^ 2" using assms(6) by (auto simp: days_in_def split: if_splits)
  with assms show ?thesis by (simp add: parse_date_def fixed_num_digits)
qed

lemma clock_back:
  assumes "0 \<le> h" and "h < 24" and "0 \<le> m" and "m < 60" and "0 \<le> s" and "s < 60"
  shows "parse_clock (fixed_digits 2 h @ CHR '':'' # fixed_digits 2 m @ CHR '':'' # fixed_digits 2 s @ r) = Some ((h, m, s), r)"
  using assms by (simp add: parse_clock_def loose_num_digits fixed_num_digits)

lemma clock_sum: "(s :: int) div 3600 * 3600 + s div 60 mod 60 * 60 + s mod 60 = s"
proof -
  have "s div 3600 = s div 60 div 60" by (simp add: zdiv_zmult2_eq[symmetric])
  then show ?thesis by presburger
qed

text \<open>What is written in JSON for a time reads back as that time, wherever the clock is set.\<close>

lemma rfc3339_back:
  assumes "rfc3339_text off t = Some s" and "off mod 60 = 0"
  shows "parse_rfc3339 s = Some t"
proof -
  define u sod where "u = unix_seconds off t" and "sod = u mod 86400"
  obtain y m d where date: "civil_of_days (u div 86400) = (y, m, d)" by (cases "civil_of_days (u div 86400)")
  have y: "0 \<le> y" "y \<le> 9999" "\<bar>off\<bar> < 86400" and
    s: "s = fixed_digits 4 y @ CHR ''-'' # fixed_digits 2 m @ CHR ''-'' # fixed_digits 2 d @
      CHR ''T'' # fixed_digits 2 (sod div 3600) @ CHR '':'' # fixed_digits 2 (sod div 60 mod 60) @
      CHR '':'' # fixed_digits 2 (sod mod 60) @ fraction_text (t mod second) @ zone_text off"
    using assms(1) date by (auto simp: rfc3339_text_def Let_def u_def sod_def split: if_splits)
  note dt = date_of_day[OF date]
  have sod: "0 \<le> sod" "sod < 86400" by (simp_all add: sod_def)
  have clock: "0 \<le> sod div 3600" "sod div 3600 < 24" "0 \<le> sod div 60 mod 60" "sod div 60 mod 60 < 60"
    "0 \<le> sod mod 60" "sod mod 60 < 60" using sod by simp_all
  have frac: "0 \<le> t mod second" "t mod second < second" by simp_all
  have "parse_rfc3339 s = Some ((days_of_civil y m d * 86400 + sod div 3600 * 3600 + sod div 60 mod 60 * 60 +
      sod mod 60 - off) * second + t mod second)"
    unfolding s parse_rfc3339_def
    by (simp add: date_back[OF y(1,2) dt(2-5)] clock_back[OF clock]
        fraction_back[OF frac zone_back(2)[OF assms(2) y(3)]] zone_back(1)[OF assms(2) y(3)])
  moreover have "days_of_civil y m d * 86400 + sod div 3600 * 3600 + sod div 60 mod 60 * 60 + sod mod 60 = u"
    unfolding dt(1) using clock_sum[of sod] div_mult_mod_eq[of u 86400] unfolding sod_def by linarith
  ultimately show ?thesis by (simp add: u_def unix_seconds_def)
qed

end
