(* ===== verification/Wire.thy ===== *)
theory Wire
  imports Calendar AdminApi
begin

text \<open>
  What goes over the wire: the JSON of the rows in replies, by the field tags of the structs in
  \<open>internal/store\<close>, and the bytes that \<open>writeJSON\<close> sends. A reply is encoded after its status has been
  written; when a value has no JSON the body stays empty. \<open>off\<close> is the offset of the location in which
  the database driver gives its times. The keys of a Go map are sorted when it is printed; the handlers'
  own documents (\<open>PJson\<close>) keep the order in which they are listed here.
\<close>

subsection \<open>Rows as documents\<close>

definition all_fields :: "(string \<times> json option) list \<Rightarrow> json option" where
  "all_fields fs = map_option JObj (those (map (\<lambda>(k, v). map_option (Pair k) v) fs))"

definition rows_doc :: "('r \<Rightarrow> json option) \<Rightarrow> 'r list \<Rightarrow> json option" where
  "rows_doc f xs = map_option JArr (those (map f xs))"

abbreviation str_doc :: "string \<Rightarrow> json option" where "str_doc s \<equiv> Some (JStr s)"

abbreviation int_doc :: "int \<Rightarrow> json option" where "int_doc n \<equiv> Some (JNum (int_str n))"

definition time_doc :: "int \<Rightarrow> time \<Rightarrow> json option" where
  "time_doc off t = map_option JStr (rfc3339_text off t)"

definition time_ptr_doc :: "int \<Rightarrow> time option \<Rightarrow> json option" where
  "time_ptr_doc off p = (case p of None \<Rightarrow> Some JNull | Some t \<Rightarrow> time_doc off t)"

definition task_fields :: "int \<Rightarrow> task \<Rightarrow> (string \<times> json option) list" where
  "task_fields off t =
     [(''id'', str_doc (t_id t)), (''sessionId'', str_doc (t_session t)), (''directory'', str_doc (t_dir t)),
      (''name'', str_doc (t_name t)), (''prompt'', str_doc (t_prompt t)), (''dependsOn'', str_doc (t_depends t)),
      (''status'', str_doc (status_str (t_status t))), (''error'', str_doc (t_error t)),
      (''result'', str_doc (t_result t)), (''progress'', str_doc (t_progress t)),
      (''aiSummary'', str_doc (t_summary t)), (''attempts'', int_doc (t_attempts t)),
      (''createdAt'', time_doc off (t_created t)), (''updatedAt'', time_doc off (t_updated t)),
      (''startedAt'', time_ptr_doc off (t_started t)), (''finishedAt'', time_ptr_doc off (t_finished t)),
      (''availableAt'', time_doc off (t_available t)), (''scheduledAt'', time_ptr_doc off (t_scheduled t)),
      (''cron'', str_doc (t_cron t)), (''lastFiredAt'', time_ptr_doc off (t_last_fired t))]"

definition task_doc :: "int \<Rightarrow> task \<Rightarrow> json option" where
  "task_doc off t = all_fields (task_fields off t)"

text \<open>The hash of a token is not part of its JSON.\<close>

definition token_doc :: "int \<Rightarrow> token \<Rightarrow> json option" where
  "token_doc off t = all_fields
     [(''id'', str_doc (tok_id t)), (''name'', str_doc (tok_name t)), (''createdAt'', time_doc off (tok_created t)),
      (''revokedAt'', time_ptr_doc off (tok_revoked t)), (''lastUsed'', time_ptr_doc off (tok_used t))]"

definition rule_doc :: "int \<Rightarrow> rule \<Rightarrow> json option" where
  "rule_doc off r = all_fields
     [(''id'', str_doc (r_id r)), (''name'', str_doc (r_name r)), (''kind'', str_doc (r_kind r)),
      (''schedule'', str_doc (r_schedule r)), (''directory'', str_doc (r_dir r)), (''prompt'', str_doc (r_prompt r)),
      (''enabled'', Some (JBool (r_enabled r))), (''lastFiredAt'', time_ptr_doc off (r_last_fired r)),
      (''createdAt'', time_doc off (r_created r))]"

definition execution_doc :: "int \<Rightarrow> rule_execution \<Rightarrow> json option" where
  "execution_doc off x = all_fields
     [(''id'', int_doc (x_id x)), (''ruleId'', str_doc (x_rule x)), (''taskId'', str_doc (x_task x)),
      (''triggeredAt'', time_doc off (x_at x))]"

definition audit_doc :: "int \<Rightarrow> audit_entry \<Rightarrow> json option" where
  "audit_doc off e = all_fields
     [(''id'', int_doc (a_id e)), (''tokenId'', str_doc (a_token e)), (''tokenName'', str_doc (a_token_name e)),
      (''method'', str_doc (a_method e)), (''path'', str_doc (a_path e)), (''status'', int_doc (a_status e)),
      (''createdAt'', time_doc off (a_created e))]"

definition archive_doc :: "int \<Rightarrow> archive \<Rightarrow> json option" where
  "archive_doc off a = all_fields
     ([(''id'', str_doc (ar_id a)), (''sessionId'', str_doc (ar_session a)), (''title'', str_doc (ar_title a)),
       (''format'', str_doc (ar_format a)), (''content'', str_doc (ar_content a))] @
      (if ar_raw a = '''' then [] else [(''rawMessages'', str_doc (ar_raw a))]) @
      [(''size'', int_doc (ar_size a)), (''createdAt'', time_doc off (ar_created a))])"

text \<open>The payload of an event is raw JSON: it is checked and copied, without spaces.\<close>

definition event_doc :: "int \<Rightarrow> session_event \<Rightarrow> json option" where
  "event_doc off e = all_fields
     [(''id'', int_doc (e_id e)), (''sessionId'', str_doc (e_session e)), (''eventType'', str_doc (e_type e)),
      (''payload'', parse_json (e_payload e)), (''createdAt'', time_doc off (e_created e))]"

definition stats_doc :: "task_stats \<Rightarrow> json option" where
  "stats_doc s = all_fields
     [(''queued'', int_doc (st_queued s)), (''running'', int_doc (st_running s)), (''succeeded'', int_doc (st_succeeded s)),
      (''failed'', int_doc (st_failed s)), (''canceled'', int_doc (st_canceled s)), (''pending'', int_doc (st_pending s)),
      (''blocked'', int_doc (st_blocked s)), (''retried'', int_doc (st_retried s)), (''total'', int_doc (st_total s))]"

definition usage_doc :: "string \<times> string \<times> int \<Rightarrow> json option" where
  "usage_doc u = (case u of (tid, name, n) \<Rightarrow>
     all_fields [(''tokenId'', str_doc tid), (''tokenName'', str_doc name), (''calls'', int_doc n)])"

subsection \<open>Replies as bytes\<close>

definition payload_doc :: "int \<Rightarrow> payload \<Rightarrow> json option" where
  "payload_doc off p = (case p of
     PJson j \<Rightarrow> Some j
   | PTasks ts n limit offset \<Rightarrow> all_fields [(''limit'', int_doc limit), (''offset'', int_doc offset),
       (''tasks'', rows_doc (task_doc off) ts), (''total'', int_doc n)]
   | PTask t \<Rightarrow> task_doc off t
   | PTokens ts \<Rightarrow> rows_doc (token_doc off) ts
   | PAudit es \<Rightarrow> all_fields [(''audit'', rows_doc (audit_doc off) es)]
   | PRules rs \<Rightarrow> all_fields [(''rules'', rows_doc (rule_doc off) rs)]
   | PRule r \<Rightarrow> rule_doc off r
   | PExecs xs n \<Rightarrow> all_fields [(''executions'', rows_doc (execution_doc off) xs), (''total'', int_doc n)]
   | PArchives as \<Rightarrow> all_fields [(''archives'', rows_doc (archive_doc off) as)]
   | PArchive a \<Rightarrow> archive_doc off a
   | PStats s us n \<Rightarrow> all_fields [(''archives'', int_doc n), (''tasks'', stats_doc s), (''tokenUsage'', rows_doc usage_doc us)]
   | PEvents es \<Rightarrow> all_fields [(''events'', rows_doc (event_doc off) es)]
   | _ \<Rightarrow> None)"

text \<open>\<open>json.NewEncoder(w).Encode(v)\<close> with its error dropped; the texts that are no JSON as they are.\<close>

definition reply_body :: "int \<Rightarrow> reply \<Rightarrow> string" where
  "reply_body off rp = (case rp_payload rp of
     PText s \<Rightarrow> s
   | PProxied _ s \<Rightarrow> s
   | PUpgraded \<Rightarrow> []
   | p \<Rightarrow> (case payload_doc off p of None \<Rightarrow> [] | Some j \<Rightarrow> json_text j @ [CHR 0x0A]))"

end
