(* ===== verification/Spec2Isabelle.thy ===== *)
theory Spec2Isabelle
  imports ExecutorSafety Gates Auth Automation RateLimit Llm Web GoTime TaskApi Scheduler AdminApi
    LlmApi OpenCodeApi Events Proxy RefineSpec Stt MigrateSpec Startup WebUi Api EventsSpec SchedulerSpec Program
    Channels ProxySpec Races WireSpec
begin

text \<open>
  A verification development for the starburst backend, a Go server that stands between devices and
  an OpenCode server: it keeps a queue of tasks for coding agents in a database, runs them against
  OpenCode, fires them by cron expressions, git changes and webhooks, mirrors the OpenCode interface
  and its event stream, and offers a language model and speech recognition to its clients.

  \<^bold>\<open>The program and its parts\<close>

  \<^item> The store (\<open>internal/store\<close>). \<open>Tables\<close> has the rows and the database as records, \<open>Prelude\<close> the SQL
    statements as functions on lists of rows; \<open>TaskStore\<close> is \<open>task.go\<close> method by method, \<open>Records\<close> the
    other tables, \<open>Migrate\<close> the schema migrations, the placeholders and the drivers. Every method
    is a \<open>db_call\<close>: one statement, which fails when the next entry of \<open>db_faults\<close> says so. Methods of
    several statements are compositions, and a fault can fall between them.
  \<^item> The executor (\<open>internal/tasks\<close>). \<open>Executor\<close>: claiming, running, waiting, retrying and settling a
    task, the janitor, the goroutines for the language model. \<open>Gates\<close>: the mutexes per session.
  \<^item> The scheduler and the automation engine (\<open>scheduler.go\<close>, \<open>internal/automation\<close>): \<open>Scheduler\<close>,
    \<open>Automation\<close>, over the cron expressions of \<open>Cron\<close>, which writes out the calendar of package time.
  \<^item> The server (\<open>internal/server\<close>). \<open>Web\<close>: requests, replies, credentials, the audit middleware;
    \<open>TaskApi\<close>, \<open>AdminApi\<close>, \<open>LlmApi\<close>, \<open>Stt\<close>, \<open>Proxy\<close>, \<open>Events\<close>, \<open>WebUi\<close>: the handlers; \<open>Api\<close>: the routes,
    the multiplexer and the middleware around them; \<open>RateLimit\<close>: the login limiter; \<open>Refine\<close>: the
    correction of transcripts; \<open>Channels\<close>: the connections of \<open>/api/ws\<close> and \<open>/api/stream\<close>; \<open>Origin\<close>: the
    pages that may open the former; \<open>Wire\<close>: the JSON of rows and the bytes of replies.
  \<^item> The clients (\<open>internal/opencode\<close>, \<open>internal/llm\<close>): \<open>OpenCode\<close>, \<open>OpenCodeApi\<close>, \<open>Llm\<close>. The push hub
    (\<open>internal/push\<close>): \<open>Hub\<close>. Passwords and tokens (\<open>internal/auth\<close>): \<open>Auth\<close>.
  \<^item> Configuration and start (\<open>internal/config\<close>, \<open>cmd/starburst-backend\<close>): \<open>Startup\<close>.
  \<^item> What they use of Go's library: \<open>GoStrings\<close>, \<open>Utf8\<close>, \<open>GoTime\<close>, \<open>Calendar\<close>, \<open>Json\<close> (documents in Go values),
    \<open>JsonText\<close> (reading), \<open>JsonPrint\<close> (writing), \<open>GoQuote\<close> (the verb \<open>%q\<close>).

  \<^bold>\<open>State\<close>

  \<open>db\<close> is the database. \<open>world\<close> adds the messages that have been broadcast (\<open>w_out\<close>), the goroutines that
  have been started (\<open>w_jobs\<close>) and what others do to the task table in between (\<open>w_sched\<close>): before each
  statement of a task or a handler, the next entry of the schedule runs. \<open>server\<close> adds the limiters,
  the throttle of token updates, the configuration of the model and the random bytes still to be
  drawn; \<open>collector\<close> is the pipeline of session events. \<open>program\<close> puts server, collector and the heads
  the git rules have seen together, and \<open>program_step\<close> is one operation of one part: a request, a poll
  of the scheduler or the engine, a round of a worker, a job, the janitor, an event, periodic work, the
  passing of time, an outage of the database, a restart. Errors are values: \<open>Inl\<close> of \<open>store_error\<close>, or of
  the text of the error where the code shows it to somebody. Strings are lists of bytes, times and
  durations are nanoseconds, integers are \<open>int\<close> with \<open>wrap64\<close> where they can leave the range.

  \<^bold>\<open>Interfaces\<close>

  The contracts the parts rely on are locales, each interpreted on the program's own definitions.
  \<open>Prelude\<close> and \<open>TaskMachine\<close>: what a row update keeps, interpreted on every update of the task
  table. \<open>Auth\<close>: a store of keys and values, interpreted on the settings table. \<open>TaskQueue\<close>: a queue whose claims take the head
  off. \<open>Runs\<close>: \<open>threaded\<close>, a relation between states that is preserved by every step of a composed
  operation, interpreted on databases, worlds and servers; \<open>store_invariant\<close>, a predicate that every
  method of the store keeps, interpreted in \<open>Program\<close> on the task table, on the primary keys, on the
  history of the statuses and on revoked tokens. \<open>ServerRuns\<close> proves once that every handler and every
  background operation is a run of the store's methods, so that an invariant of the store is an
  invariant of the program.

  \<^bold>\<open>What is shown\<close>

  \<^item> The whole program (\<open>Program\<close>): in every reachable state the task table is well formed and no two
    rows share a key; every transition moves tasks along the status machine of \<open>TaskMachine\<close> only; a
    revoked token never verifies again.
  \<^item> The queue (\<open>TaskQueue\<close>, \<open>TaskMachine\<close>): claims are first in, first out and exactly once, dependents are
    released and blocked as a whole, retention removes finished work only. \<open>Races\<close>: how a dependency
    can be missed when creation and completion interleave.
  \<^item> Executions (\<open>ExecutorTrace\<close>, \<open>ExecutorSpec\<close>, \<open>ExecutorSafety\<close>): the full effect of a successful run; the
    bound on polling; what becomes of failures, retries, the deadline and cancellation, under any
    interleaving, fault and answer. \<open>Gates\<close>: mutual exclusion per session, progress, no leak.
  \<^item> Time: \<open>Cron\<close> gives each field its meaning and shows that the next fire time is the least;
    \<open>SchedulerSpec\<close> gives the effect of a poll and shows that no occurrence fires twice; \<open>RateLimit\<close>
    refines a reference limiter and bounds every window.
  \<^item> Access (\<open>Api\<close>, \<open>ProxySpec\<close>, \<open>Auth\<close>): a request without credentials changes nothing; a device does
    not reach the administrator's operations, and the one way around that check; a page that opens a
    web socket comes from the host of the server (\<open>Channels\<close>).
  \<^item> Channels (\<open>Channels\<close>, \<open>Hub\<close>, \<open>EventsSpec\<close>): broadcasts reach each subscribed client exactly once under any
    interleaving and no connection keeps its slot; no event that entered the queue is lost or doubled;
    a relayed stream reads as the streams it relays.
  \<^item> Data: JSON reads back as it was written, archives with it; the calendar is sound, so times read back
    (\<open>Calendar\<close>), and a client reads from a reply the task that was stored (\<open>WireSpec\<close>); a streamed plan is the one
    that its deltas spell (\<open>LlmApi\<close>); migrations complete from every
    version; transcripts are corrected as the local rules say (\<open>RefineSpec\<close>, \<open>Stt\<close>); every accepted
    configuration is well formed.

  Where the code does not do what its comments or its purpose say, the theorem states what it does:
  the retry that never takes place, the cancellation that is overwritten, the missed dependency, the
  migration that cannot be resumed, the default password that keeps a new installation from starting,
  the list of sensitive paths that a percent-encoded path evades.

  \<^bold>\<open>Bounds and fuel\<close>

  Loops are structural recursions or terminate by a measure. The wait for a session polls at most 200
  times: ten minutes in steps of three seconds, the deadline and the interval of the code. The search of
  the next fire time steps through three years of seconds at most, as the code does, and the values
  of a field are collected in at most 64 rounds, more than a field has. The retention pass and the
  worker loop run for a given number of rounds; each theorem about them holds for every number. Readers
  of JSON and of event streams shorten their input at each step.

  \<^bold>\<open>Parameters\<close>

  The digest and the password hash, the OpenCode server, the language model and the recognition
  engine, git, the parsed flags and the environment, the random bytes, the embedded assets, the texts
  of the prompts, the table of printable runes, the handshake of the websocket library, address literals in origins, the zone of the
  database's times, and which writes to a connection succeed are arguments. Nothing is assumed of them
  except where a theorem says so, and each theorem with an assumption is followed by an instance.

  \<^bold>\<open>Not modelled\<close>

  The HTTP listener with its time limits and graceful shutdown, signals and log output: calls of the
  library without decisions of their own. The web front end, which is not Go. The order of the keys in the
  JSON of a Go map, which nothing depends on. An upstream address that Go refuses to parse counts as an
  upstream that does not answer, so the error carries the prefix of the call, which the code leaves out
  there; a body that breaks off while it is read counts as no answer. A second occurrence of a key in
  an object is stored afresh, where Go would merge a struct. Requests interleave with the workers
  statement by statement in \<open>Races\<close> and \<open>ExecutorSafety\<close>; in \<open>Program\<close> a request, a poll or an event is one
  transition. The order in which Go visits a map is the order of an association list, except in
  \<open>Channels\<close>, where it is any.
\<close>

end
